(* ===== verification/Prelude.thy ===== *)
theory Prelude
  imports Complex_Main "HOL-Library.AList"
begin

text \<open>
  Shared base of the development: the collections of rewrite rules, the result type of fallible
  code, the query combinators the handlers apply to a table, Python's insertion-ordered
  dictionary, and the two interfaces (locales) that most component proofs go through:
  \<open>additive_store\<close>, a store of counters that only ever have a number added to them, and
  \<open>keyed_table\<close>, a table of rows with a primary key.
\<close>

named_theorems query_simps \<open>what a query on a table returns\<close>
named_theorems frame_simps \<open>fields an operation does not write\<close>
named_theorems table_simps \<open>lookups after an update of a table\<close>

section \<open>Basic types\<close>

text \<open>
  A UUID is represented by its canonical text, the value \<open>str(u)\<close> that the handlers use as a
  dictionary key and put into responses. Money (\<open>decimal.Decimal\<close>) is an exact rational, an
  instant is a number of microseconds.
\<close>

type_synonym uuid = string
type_synonym money = rat
type_synonym instant = int

definition minutes :: "int \<Rightarrow> instant" where
  "minutes n = n * 60 * 1000000"

definition days :: "int \<Rightarrow> instant" where
  "days n = n * 24 * 60 * 60 * 1000000"

section \<open>Texts\<close>

text \<open>\<open>str.lower()\<close> on texts of ASCII characters.\<close>

definition lower_case :: "string \<Rightarrow> string" where
  "lower_case s = map (\<lambda>c. let n = (of_char c :: nat) in if 65 \<le> n \<and> n \<le> 90 then char_of (n + 32) else c) s"

section \<open>Queries\<close>

text \<open>
  \<open>List.find\<close> is the lookup by key. \<open>first_row\<close> is \<open>Query.first()\<close>; \<open>order_by_desc\<close> is
  \<open>order_by(column.desc())\<close>.
\<close>

definition find_by :: "('r \<Rightarrow> 'k) \<Rightarrow> 'k \<Rightarrow> 'r list \<Rightarrow> 'r option" where
  "find_by key k rows = List.find (\<lambda>r. key r = k) rows"

definition modify_by :: "('r \<Rightarrow> 'k) \<Rightarrow> 'k \<Rightarrow> ('r \<Rightarrow> 'r) \<Rightarrow> 'r list \<Rightarrow> 'r list" where
  "modify_by key k f rows = map (\<lambda>r. if key r = k then f r else r) rows"

definition first_row :: "'r list \<Rightarrow> 'r option" where
  "first_row rows = (case rows of [] \<Rightarrow> None | r # _ \<Rightarrow> Some r)"

definition order_by_desc :: "('r \<Rightarrow> int) \<Rightarrow> 'r list \<Rightarrow> 'r list" where
  "order_by_desc col rows = sort_key (\<lambda>r. - col r) rows"

definition offset_limit :: "nat \<Rightarrow> nat \<Rightarrow> 'r list \<Rightarrow> 'r list" where
  "offset_limit off cnt rows = take cnt (drop off rows)"

lemma find_by_Nil [query_simps, simp]: "find_by key k [] = None"
  by (simp add: find_by_def)

lemma find_by_Cons [query_simps, simp]:
  "find_by key k (r # rows) = (if key r = k then Some r else find_by key k rows)"
  by (simp add: find_by_def)

lemma find_by_None_iff: "find_by key k rows = None \<longleftrightarrow> k \<notin> key ` set rows"
  by (induction rows) auto

lemma find_by_SomeD: "find_by key k rows = Some r \<Longrightarrow> r \<in> set rows \<and> key r = k"
  by (induction rows) (auto split: if_splits)

lemma find_by_in_keys: "k \<in> key ` set rows \<longleftrightarrow> (\<exists>r. find_by key k rows = Some r)"
  using find_by_None_iff [of key k rows] by (cases "find_by key k rows") auto

lemma find_by_append:
  "find_by key k (xs @ ys) = (case find_by key k xs of None \<Rightarrow> find_by key k ys | Some r \<Rightarrow> Some r)"
  by (induction xs) auto

lemma find_by_map:
  "(\<And>r. key (f r) = key r) \<Longrightarrow> find_by key k (map f rows) = map_option f (find_by key k rows)"
  by (induction rows) auto

lemma filter_key_distinct:
  "distinct (map key rows) \<Longrightarrow>
     filter (\<lambda>r. key r = k) rows = (case find_by key k rows of None \<Rightarrow> [] | Some r \<Rightarrow> [r])"
proof (induction rows)
  case Nil
  then show ?case by simp
next
  case (Cons r rows)
  then show ?case
    by (auto simp: filter_empty_conv find_by_None_iff [symmetric] split: option.splits)
qed

lemma distinct_find_by:
  "distinct (map key rows) \<Longrightarrow> r \<in> set rows \<Longrightarrow> find_by key (key r) rows = Some r"
  by (induction rows) auto

lemma modify_by_keys [simp]:
  "(\<And>r. key (f r) = key r) \<Longrightarrow> map key (modify_by key k f rows) = map key rows"
  by (simp add: modify_by_def)

lemma find_by_modify_by [table_simps]:
  "(\<And>r. key (f r) = key r) \<Longrightarrow>
     find_by key k' (modify_by key k f rows) =
       (if k' = k then map_option f (find_by key k' rows) else find_by key k' rows)"
  by (induction rows) (auto simp: modify_by_def)

lemma modify_by_absent: "k \<notin> key ` set rows \<Longrightarrow> modify_by key k f rows = rows"
  unfolding modify_by_def by (rule map_idI) auto

text \<open>Writing a whole row back under its own key.\<close>

definition replace_by :: "('r \<Rightarrow> 'k) \<Rightarrow> 'r \<Rightarrow> 'r list \<Rightarrow> 'r list" where
  "replace_by key r rows = modify_by key (key r) (\<lambda>_. r) rows"

lemma replace_by_keys [simp]: "map key (replace_by key r rows) = map key rows"
  by (simp add: replace_by_def modify_by_def)

lemma replace_by_set:
  "set (replace_by key r rows) =
     {r'\<in>set rows. key r' \<noteq> key r} \<union> (if key r \<in> key ` set rows then {r} else {})"
  by (induction rows) (auto simp: replace_by_def modify_by_def)

lemma find_by_replace_by [table_simps]:
  "find_by key k (replace_by key r rows) =
     (if k = key r then map_option (\<lambda>_. r) (find_by key k rows) else find_by key k rows)"
  by (induction rows) (auto simp: replace_by_def modify_by_def)

lemma first_row_None [query_simps]: "first_row rows = None \<longleftrightarrow> rows = []"
  by (simp add: first_row_def split: list.splits)

lemma first_row_Some: "first_row rows = Some r \<Longrightarrow> r \<in> set rows"
  by (auto simp: first_row_def split: list.splits)

text \<open>The first row in descending order of a column is one with the greatest value there.\<close>

lemma first_order_by_desc:
  assumes "first_row (order_by_desc col rows) = Some r"
  shows "r \<in> set rows \<and> (\<forall>r'\<in>set rows. col r' \<le> col r)"
proof -
  obtain rest where s: "sort_key (\<lambda>r. - col r) rows = r # rest"
    using assms by (auto simp: first_row_def order_by_desc_def split: list.splits)
  have "sorted (map (\<lambda>r. - col r) (r # rest))"
    by (metis s sorted_sort_key)
  moreover have "set rows = set (r # rest)"
    by (metis s set_sort)
  ultimately show ?thesis by auto
qed

lemma first_order_by_desc_None [query_simps]:
  "first_row (order_by_desc col rows) = None \<longleftrightarrow> rows = []"
  by (metis first_row_None order_by_desc_def set_empty set_sort)

section \<open>Python dictionaries\<close>

text \<open>
  A dictionary keeps its insertion order, so it is an association list: \<open>AList.update\<close> keeps the
  position of a key that is there and appends a new one, as assignment to \<open>d[k]\<close> does.
  \<open>dict_bump\<close> is \<open>d[k] = d.get(k, 0) + n\<close>.
\<close>

definition dict_get :: "('k \<times> int) list \<Rightarrow> 'k \<Rightarrow> int" where
  "dict_get d k = (case map_of d k of None \<Rightarrow> 0 | Some n \<Rightarrow> n)"

definition dict_bump :: "'k \<Rightarrow> int \<Rightarrow> ('k \<times> int) list \<Rightarrow> ('k \<times> int) list" where
  "dict_bump k n d = AList.update k (dict_get d k + n) d"

lemma dict_get_bump: "dict_get (dict_bump k n d) k' = dict_get d k' + (if k' = k then n else 0)"
  by (simp add: dict_bump_def dict_get_def update_conv')

lemma dict_bump_keys: "fst ` set (dict_bump k n d) = insert k (fst ` set d)"
  by (simp add: dict_bump_def dom_update)

lemma dict_bump_distinct: "distinct (map fst d) \<Longrightarrow> distinct (map fst (dict_bump k n d))"
  by (simp add: dict_bump_def distinct_update)

lemma dict_get_distinct: "distinct (map fst d) \<Longrightarrow> (k, n) \<in> set d \<Longrightarrow> dict_get d k = n"
  by (simp add: dict_get_def)

lemma dict_get_absent: "k \<notin> fst ` set d \<Longrightarrow> dict_get d k = 0"
  by (auto simp: dict_get_def dest: map_of_SomeD split: option.splits intro: rev_image_eqI)

section \<open>Interface: a store of counters\<close>

text \<open>
  The handlers build and change counters only by adding to them: the requested quantities, the
  stock of the products, the uses of a promo code. \<open>has\<close> says that a counter is there to be
  added to; \<open>amount\<close> reads it. The loops of the source are folds of \<open>add\<close>.
\<close>

locale additive_store =
  fixes has :: "'s \<Rightarrow> 'k \<Rightarrow> bool"
    and amount :: "'s \<Rightarrow> 'k \<Rightarrow> int"
    and add :: "'k \<Rightarrow> int \<Rightarrow> 's \<Rightarrow> 's"
  assumes keeps: "has s k' \<Longrightarrow> has (add k n s) k'"
    and amount_add: "has s k' \<Longrightarrow> amount (add k n s) k' = amount s k' + (if k' = k then n else 0)"
begin

lemma has_fold: "has s k \<Longrightarrow> has (fold (\<lambda>x. add (f x) (g x)) xs s) k"
  by (induction xs arbitrary: s) (auto intro: keeps)

lemma amount_fold:
  "has s k \<Longrightarrow> amount (fold (\<lambda>x. add (f x) (g x)) xs s) k =
     amount s k + (\<Sum>x\<leftarrow>xs. if f x = k then g x else 0)"
proof (induction xs arbitrary: s)
  case Nil
  then show ?case by simp
next
  case (Cons x xs)
  have "has (add (f x) (g x) s) k"
    using Cons.prems by (rule keeps)
  from Cons.IH [OF this] Cons.prems show ?case
    by (auto simp: amount_add)
qed

text \<open>Adding and taking away the same amounts leaves every counter as it was.\<close>

lemma amount_fold_undo:
  assumes "has s k"
  shows "amount (fold (\<lambda>x. add (f x) (- g x)) xs (fold (\<lambda>x. add (f x) (g x)) xs s)) k = amount s k"
proof -
  have "(\<Sum>x\<leftarrow>xs. if f x = k then - g x else 0) = - (\<Sum>x\<leftarrow>xs. if f x = k then g x else 0)"
    by (induction xs) auto
  then show ?thesis
    using assms by (simp add: amount_fold has_fold)
qed

end

interpretation requested: additive_store "\<lambda>d k. True" dict_get dict_bump
  by unfold_locales (simp_all add: dict_get_bump)

section \<open>Interface: a table with a primary key\<close>

text \<open>
  What a handler relies on when it loads a row by its key, adds a row and writes to a row. The
  laws are the frame conditions: every other row is as it was.
\<close>

locale keyed_table =
  fixes lookup :: "'t \<Rightarrow> 'k \<Rightarrow> 'r option"
    and insert_row :: "'r \<Rightarrow> 't \<Rightarrow> 't"
    and modify :: "'k \<Rightarrow> ('r \<Rightarrow> 'r) \<Rightarrow> 't \<Rightarrow> 't"
    and key_of :: "'r \<Rightarrow> 'k"
  assumes lookup_key: "lookup t k = Some r \<Longrightarrow> key_of r = k"
    and lookup_insert:
      "lookup t (key_of r) = None \<Longrightarrow> lookup (insert_row r t) k = (if k = key_of r then Some r else lookup t k)"
    and lookup_modify:
      "(\<And>r. key_of (f r) = key_of r) \<Longrightarrow>
         lookup (modify k f t) k' = (if k' = k then map_option f (lookup t k') else lookup t k')"
begin

lemma lookup_insert_other:
  "lookup t (key_of r) = None \<Longrightarrow> k \<noteq> key_of r \<Longrightarrow> lookup (insert_row r t) k = lookup t k"
  by (simp add: lookup_insert)

lemma modify_twice:
  assumes "\<And>r. key_of (f r) = key_of r" and "\<And>r. key_of (g r) = key_of r"
  shows "lookup (modify k g (modify k f t)) k' = lookup (modify k (g \<circ> f) t) k'"
  using assms by (simp add: lookup_modify option.map_comp)

lemma modify_keeps_presence:
  assumes "\<And>r. key_of (f r) = key_of r"
  shows "lookup (modify k f t) k' = None \<longleftrightarrow> lookup t k' = None"
  using assms by (simp add: lookup_modify)

end

text \<open>Every table of the models is such a table: rows in a list, a column as the key.\<close>

lemma keyed_table_find_by:
  "keyed_table (\<lambda>t k. find_by key k t) (\<lambda>r t. t @ [r]) (modify_by key) key"
proof
  fix t k r
  show "find_by key k t = Some r \<Longrightarrow> key r = k"
    by (blast dest: find_by_SomeD)
next
  fix t r k
  assume "find_by key (key r) t = None"
  then show "find_by key k (t @ [r]) = (if k = key r then Some r else find_by key k t)"
    by (auto simp: find_by_append split: option.splits)
next
  fix f k t k'
  assume "\<And>r. key (f r) = key r"
  then show "find_by key k' (modify_by key k f t) =
      (if k' = k then map_option f (find_by key k' t) else find_by key k' t)"
    by (rule find_by_modify_by)
qed

section \<open>Sums over lists\<close>

lemma sum_list_nonneg_if:
  "(\<And>x. x \<in> set xs \<Longrightarrow> 0 \<le> g x) \<Longrightarrow> 0 \<le> (\<Sum>x\<leftarrow>xs. if P x then g x else (0::int))"
  by (induction xs) (auto intro: add_nonneg_nonneg)

lemma sum_list_single:
  assumes "distinct (map f xs)" and "x \<in> set xs"
  shows "(\<Sum>y\<leftarrow>xs. if f y = f x then g y else (0::int)) = g x"
  using assms
proof (induction xs)
  case Nil
  then show ?case by simp
next
  case (Cons y ys)
  have zero: "(\<Sum>z\<leftarrow>ys. if f z = k then g z else 0) = 0" if "k \<notin> f ` set ys" for k
    using that by (induction ys) auto
  show ?case
  proof (cases "x = y")
    case True
    with Cons.prems zero [of "f y"] show ?thesis by simp
  next
    case False
    with Cons.prems have "x \<in> set ys" by simp
    with Cons show ?thesis by auto
  qed
qed

lemma sum_list_absent:
  "k \<notin> f ` set xs \<Longrightarrow> (\<Sum>y\<leftarrow>xs. if f y = k then g y else (0::int)) = 0"
  by (induction xs) auto

lemma dict_sum:
  assumes "distinct (map fst d)"
  shows "(\<Sum>kn\<leftarrow>d. if fst kn = k then snd kn else 0) = dict_get d k"
proof (cases "k \<in> fst ` set d")
  case True
  then obtain n where kn: "(k, n) \<in> set d" by force
  from sum_list_single [OF assms kn, of snd] assms kn show ?thesis
    by (simp add: dict_get_distinct)
next
  case False
  then show ?thesis by (simp add: sum_list_absent dict_get_absent)
qed

end
