(* ===== verification/Errors.thy ===== *)
theory Errors
  imports Prelude
begin

text \<open>
  \<open>core/errors.py\<close> and the two exception handlers of \<open>main.py\<close>: the exceptions a handler can
  raise, and how they become HTTP responses. An exception other than \<open>ApiError\<close> is not turned
  into a response by the application: it propagates to the server.
\<close>

section \<open>JSON values\<close>

datatype json =
    JNull
  | JBool bool
  | JInt int
  | JNumber rat
  | JStr string
  | JList "json list"
  | JDict "(string \<times> json) list"

section \<open>Exceptions\<close>

text \<open>
  One entry of \<open>exc.errors()\<close> of a request that the generated models refuse has an optional
  location (a list of names and indices) and an optional message.
\<close>

datatype loc_part = LName string | LIndex int

record pydantic_error =
  pe_loc :: "loc_part list option"
  pe_msg :: "string option"

text \<open>
  \<open>ApiError error_code status_code message details\<close> is the dataclass of \<open>core/errors.py\<close>. The
  others are the exceptions of libraries that the modelled code lets through: \<open>DBAPIError\<close> for a
  row the database refuses (integrity or data error), \<open>MultipleResultsFound\<close> from
  \<open>one_or_none\<close>, \<open>InvalidRequestError\<close> from \<open>refresh\<close>, Python's own, and FastAPI's
  \<open>RequestValidationError\<close> for a request that the generated models refuse.
\<close>

datatype exn =
    ApiError string int string "json option"
  | DBAPIError
  | MultipleResultsFound
  | InvalidRequestError
  | KeyError string
  | ValueError string
  | UnicodeDecodeError
  | UnicodeEncodeError
  | RecursionError
  | RequestValidationError "pydantic_error list"

record http_response =
  hr_status_code :: int
  hr_content :: json

section \<open>Text\<close>

text \<open>\<open>str(n)\<close> for an integer and \<open>sep.join(parts)\<close>.\<close>

fun digits_of_nat :: "nat \<Rightarrow> string" where
  "digits_of_nat n =
     (if n < 10 then [char_of (48 + n)] else digits_of_nat (n div 10) @ [char_of (48 + n mod 10)])"

declare digits_of_nat.simps [simp del]

definition str_int :: "int \<Rightarrow> string" where
  "str_int i = (if i < 0 then ''-'' @ digits_of_nat (nat (- i)) else digits_of_nat (nat i))"

fun join_with :: "string \<Rightarrow> string list \<Rightarrow> string" where
  "join_with sep [] = ''''"
| "join_with sep [s] = s"
| "join_with sep (s # t # ss) = s @ sep @ join_with sep (t # ss)"

section \<open>Exception handlers\<close>

text \<open>\<open>api_error_handler\<close>: only \<open>ApiError\<close> is registered with it.\<close>

definition opt_json :: "json option \<Rightarrow> json" where
  "opt_json x = (case x of None \<Rightarrow> JNull | Some j \<Rightarrow> j)"

fun api_error_handler :: "exn \<Rightarrow> http_response option" where
  "api_error_handler (ApiError code status msg details) =
     Some \<lparr>hr_status_code = status,
           hr_content = JDict [(''error_code'', JStr code), (''message'', JStr msg), (''details'', opt_json details)]\<rparr>"
| "api_error_handler _ = None"

text \<open>
  \<open>validation_error_handler\<close>: the field and the message of every entry of \<open>exc.errors()\<close>.
\<close>

fun str_part :: "loc_part \<Rightarrow> string" where
  "str_part (LName s) = s"
| "str_part (LIndex i) = str_int i"

definition error_field :: "pydantic_error \<Rightarrow> json" where
  "error_field err =
     (let loc = map str_part (filter (\<lambda>part. part \<noteq> LName ''body'')
                  (case pe_loc err of None \<Rightarrow> [] | Some l \<Rightarrow> l));
          field = (if loc \<noteq> [] then join_with ''.'' loc else ''body'')
      in JDict [(''field'', JStr field),
                (''message'', JStr (case pe_msg err of None \<Rightarrow> ''Invalid value'' | Some m \<Rightarrow> m))])"

definition validation_error_handler :: "pydantic_error list \<Rightarrow> http_response" where
  "validation_error_handler errs =
     \<lparr>hr_status_code = 400,
      hr_content = JDict [(''error_code'', JStr ''VALIDATION_ERROR''),
                          (''message'', JStr ''Validation error''),
                          (''details'', JDict [(''fields'', JList (map error_field errs))])]\<rparr>"

text \<open>
  The handlers as the application registers them, by the class of the exception; every other
  exception propagates to the server.
\<close>

definition exception_response :: "exn \<Rightarrow> http_response option" where
  "exception_response e =
     (case e of RequestValidationError errs \<Rightarrow> Some (validation_error_handler errs) | _ \<Rightarrow> api_error_handler e)"

section \<open>The error codes of the interface description\<close>

text \<open>\<open>ErrorCode\<close> in \<open>marketplace.yaml\<close>: the codes a client is told to expect.\<close>

definition documented_error_codes :: "string list" where
  "documented_error_codes =
     [''PRODUCT_NOT_FOUND'', ''PRODUCT_INACTIVE'', ''ORDER_NOT_FOUND'', ''ORDER_LIMIT_EXCEEDED'',
      ''ORDER_HAS_ACTIVE'', ''INVALID_STATE_TRANSITION'', ''INSUFFICIENT_STOCK'', ''PROMO_CODE_INVALID'',
      ''PROMO_CODE_MIN_AMOUNT'', ''ORDER_OWNERSHIP_VIOLATION'', ''VALIDATION_ERROR'', ''ACCESS_DENIED'',
      ''TOKEN_EXPIRED'', ''TOKEN_INVALID'', ''REFRESH_TOKEN_INVALID'']"

lemma api_error_handler_ApiError:
  "api_error_handler e \<noteq> None \<longleftrightarrow> (\<exists>c s m d. e = ApiError c s m d)"
  by (cases e) auto

end
