(* ===== verification/Models.thy ===== *)
theory Models
  imports Errors
begin

text \<open>
  The mapped classes of \<open>models/\<close>: one enumeration and one record per class, the tables, and the
  constraints that the columns put on a stored row (types, lengths, uniqueness, foreign keys).
  \<open>Order.items\<close>, a relationship with delete-orphan cascade, is a field of the order row.
\<close>

section \<open>Enumerations\<close>

datatype user_role = USER | SELLER | ADMIN

datatype product_status = ACTIVE | INACTIVE | ARCHIVED

datatype order_status = CREATED | PAYMENT_PENDING | PAID | SHIPPED | COMPLETED | CANCELED

datatype discount_type = PERCENTAGE | FIXED_AMOUNT

datatype operation_type = CREATE_ORDER | UPDATE_ORDER

text \<open>The member's \<open>.value\<close>, and the class called on a value (\<open>UserRole(v)\<close>).\<close>

fun user_role_value :: "user_role \<Rightarrow> string" where
  "user_role_value USER = ''USER''"
| "user_role_value SELLER = ''SELLER''"
| "user_role_value ADMIN = ''ADMIN''"

fun product_status_value :: "product_status \<Rightarrow> string" where
  "product_status_value ACTIVE = ''ACTIVE''"
| "product_status_value INACTIVE = ''INACTIVE''"
| "product_status_value ARCHIVED = ''ARCHIVED''"

fun order_status_value :: "order_status \<Rightarrow> string" where
  "order_status_value CREATED = ''CREATED''"
| "order_status_value PAYMENT_PENDING = ''PAYMENT_PENDING''"
| "order_status_value PAID = ''PAID''"
| "order_status_value SHIPPED = ''SHIPPED''"
| "order_status_value COMPLETED = ''COMPLETED''"
| "order_status_value CANCELED = ''CANCELED''"

fun discount_type_value :: "discount_type \<Rightarrow> string" where
  "discount_type_value PERCENTAGE = ''PERCENTAGE''"
| "discount_type_value FIXED_AMOUNT = ''FIXED_AMOUNT''"

section \<open>Rows\<close>

record user =
  u_id :: uuid
  u_email :: string
  u_hashed_password :: string
  u_role :: user_role
  u_created_at :: instant

record product =
  p_id :: uuid
  p_name :: string
  p_description :: "string option"
  p_price :: money
  p_stock :: int
  p_category :: string
  p_status :: product_status
  p_seller_id :: uuid
  p_created_at :: instant
  p_updated_at :: instant

record order_item =
  oi_id :: uuid
  oi_product_id :: uuid
  oi_quantity :: int
  oi_price_at_order :: money

record order_row =
  o_id :: uuid
  o_user_id :: uuid
  o_status :: order_status
  o_promo_code_id :: "uuid option"
  o_total_amount :: money
  o_discount_amount :: money
  o_items :: "order_item list"
  o_created_at :: instant
  o_updated_at :: instant

record promo_code =
  pc_id :: uuid
  pc_code :: string
  pc_discount_type :: discount_type
  pc_discount_value :: money
  pc_min_order_amount :: money
  pc_max_uses :: int
  pc_current_uses :: int
  pc_valid_from :: instant
  pc_valid_until :: instant
  pc_active :: bool
  pc_created_at :: instant

record user_operation =
  uo_id :: uuid
  uo_user_id :: uuid
  uo_operation_type :: operation_type
  uo_created_at :: instant

record db =
  users :: "user list"
  products :: "product list"
  orders :: "order_row list"
  promo_codes :: "promo_code list"
  user_operations :: "user_operation list"

definition empty_db :: db where
  "empty_db = \<lparr>users = [], products = [], orders = [], promo_codes = [], user_operations = []\<rparr>"

section \<open>Column types and constraints\<close>

text \<open>
  \<open>Integer\<close> is 32 bits wide, \<open>Numeric(12, 2)\<close> holds ten digits before the point, \<open>String(n)\<close> at
  most n characters. A column's primary key, \<open>unique=True\<close> and \<open>ForeignKey\<close> are conditions on the
  tables.
\<close>

definition fits_integer :: "int \<Rightarrow> bool" where
  "fits_integer n \<longleftrightarrow> - (2 ^ 31) \<le> n \<and> n < 2 ^ 31"

definition fits_numeric :: "money \<Rightarrow> bool" where
  "fits_numeric x \<longleftrightarrow> \<bar>x\<bar> < 10 ^ 10"

definition fits_string :: "nat \<Rightarrow> string \<Rightarrow> bool" where
  "fits_string n s \<longleftrightarrow> length s \<le> n"

definition user_fits :: "user \<Rightarrow> bool" where
  "user_fits u \<longleftrightarrow> fits_string 255 (u_email u) \<and> fits_string 255 (u_hashed_password u)"

definition product_fits :: "product \<Rightarrow> bool" where
  "product_fits p \<longleftrightarrow>
     fits_string 255 (p_name p) \<and> (case p_description p of None \<Rightarrow> True | Some s \<Rightarrow> fits_string 4000 s) \<and>
     fits_numeric (p_price p) \<and> fits_integer (p_stock p) \<and> fits_string 100 (p_category p)"

definition order_item_fits :: "order_item \<Rightarrow> bool" where
  "order_item_fits it \<longleftrightarrow> fits_integer (oi_quantity it) \<and> fits_numeric (oi_price_at_order it)"

definition order_fits :: "order_row \<Rightarrow> bool" where
  "order_fits o' \<longleftrightarrow>
     fits_numeric (o_total_amount o') \<and> fits_numeric (o_discount_amount o') \<and>
     (\<forall>it\<in>set (o_items o'). order_item_fits it)"

definition promo_code_fits :: "promo_code \<Rightarrow> bool" where
  "promo_code_fits pc \<longleftrightarrow>
     fits_string 20 (pc_code pc) \<and> fits_numeric (pc_discount_value pc) \<and>
     fits_numeric (pc_min_order_amount pc) \<and> fits_integer (pc_max_uses pc) \<and>
     fits_integer (pc_current_uses pc)"

definition users_fit :: "db \<Rightarrow> bool" where
  "users_fit d \<longleftrightarrow>
     distinct (map u_id (users d)) \<and> distinct (map u_email (users d)) \<and> (\<forall>u\<in>set (users d). user_fits u)"

definition products_fit :: "db \<Rightarrow> bool" where
  "products_fit d \<longleftrightarrow>
     distinct (map p_id (products d)) \<and>
     (\<forall>p\<in>set (products d). product_fits p \<and> p_seller_id p \<in> u_id ` set (users d))"

definition orders_fit :: "db \<Rightarrow> bool" where
  "orders_fit d \<longleftrightarrow>
     distinct (map o_id (orders d)) \<and>
     (\<forall>o'\<in>set (orders d). order_fits o' \<and> o_user_id o' \<in> u_id ` set (users d) \<and>
        (case o_promo_code_id o' of None \<Rightarrow> True | Some pid \<Rightarrow> pid \<in> pc_id ` set (promo_codes d)))"

definition order_items_fit :: "db \<Rightarrow> bool" where
  "order_items_fit d \<longleftrightarrow>
     distinct (map oi_id (concat (map o_items (orders d)))) \<and>
     (\<forall>it\<in>set (concat (map o_items (orders d))). oi_product_id it \<in> p_id ` set (products d))"

definition promo_codes_fit :: "db \<Rightarrow> bool" where
  "promo_codes_fit d \<longleftrightarrow>
     distinct (map pc_id (promo_codes d)) \<and> distinct (map pc_code (promo_codes d)) \<and>
     (\<forall>pc\<in>set (promo_codes d). promo_code_fits pc)"

definition user_operations_fit :: "db \<Rightarrow> bool" where
  "user_operations_fit d \<longleftrightarrow>
     distinct (map uo_id (user_operations d)) \<and>
     (\<forall>uo\<in>set (user_operations d). uo_user_id uo \<in> u_id ` set (users d))"

definition db_fits :: "db \<Rightarrow> bool" where
  "db_fits d \<longleftrightarrow>
     users_fit d \<and> products_fit d \<and> orders_fit d \<and> order_items_fit d \<and> promo_codes_fit d \<and>
     user_operations_fit d"

lemma db_fits_empty: "db_fits empty_db"
  by (simp add: db_fits_def empty_db_def users_fit_def products_fit_def orders_fit_def
      order_items_fit_def promo_codes_fit_def user_operations_fit_def)

lemma db_fits_distinct:
  assumes "db_fits d"
  shows "distinct (map u_id (users d))" and "distinct (map u_email (users d))"
    and "distinct (map p_id (products d))" and "distinct (map o_id (orders d))"
    and "distinct (map pc_id (promo_codes d))" and "distinct (map pc_code (promo_codes d))"
  using assms
  by (simp_all add: db_fits_def users_fit_def products_fit_def orders_fit_def promo_codes_fit_def)

lemma db_fits_foreign_keys:
  assumes "db_fits d"
  shows "p \<in> set (products d) \<Longrightarrow> p_seller_id p \<in> u_id ` set (users d)"
    and "o' \<in> set (orders d) \<Longrightarrow> o_user_id o' \<in> u_id ` set (users d)"
    and "o' \<in> set (orders d) \<Longrightarrow> it \<in> set (o_items o') \<Longrightarrow> oi_product_id it \<in> p_id ` set (products d)"
    and "o' \<in> set (orders d) \<Longrightarrow> o_promo_code_id o' = Some pid \<Longrightarrow> pid \<in> pc_id ` set (promo_codes d)"
proof -
  show "p \<in> set (products d) \<Longrightarrow> p_seller_id p \<in> u_id ` set (users d)"
    using assms by (simp add: db_fits_def products_fit_def)
  show "o' \<in> set (orders d) \<Longrightarrow> o_user_id o' \<in> u_id ` set (users d)"
    using assms by (simp add: db_fits_def orders_fit_def)
  show "o' \<in> set (orders d) \<Longrightarrow> it \<in> set (o_items o') \<Longrightarrow> oi_product_id it \<in> p_id ` set (products d)"
    using assms by (auto simp add: db_fits_def order_items_fit_def)
  show "o' \<in> set (orders d) \<Longrightarrow> o_promo_code_id o' = Some pid \<Longrightarrow> pid \<in> pc_id ` set (promo_codes d)"
    using assms by (auto simp add: db_fits_def orders_fit_def split: option.splits dest!: bspec)
qed

section \<open>The tables as keyed tables\<close>

interpretation users_table:
  keyed_table "\<lambda>t k. find_by u_id k t" "\<lambda>r t. t @ [r]" "modify_by u_id" u_id
  by (rule keyed_table_find_by)

interpretation products_table:
  keyed_table "\<lambda>t k. find_by p_id k t" "\<lambda>r t. t @ [r]" "modify_by p_id" p_id
  by (rule keyed_table_find_by)

interpretation orders_table:
  keyed_table "\<lambda>t k. find_by o_id k t" "\<lambda>r t. t @ [r]" "modify_by o_id" o_id
  by (rule keyed_table_find_by)

interpretation promo_codes_table:
  keyed_table "\<lambda>t k. find_by pc_id k t" "\<lambda>r t. t @ [r]" "modify_by pc_id" pc_id
  by (rule keyed_table_find_by)

section \<open>Queries used by several handlers\<close>

text \<open>
  \<open>query.one_or_none()\<close>: the row, \<open>None\<close>, or \<open>MultipleResultsFound\<close>. On a column with a unique
  constraint it is the lookup by key.
\<close>

definition one_or_none :: "'r list \<Rightarrow> exn + 'r option" where
  "one_or_none rows = (case rows of [] \<Rightarrow> Inr None | [r] \<Rightarrow> Inr (Some r) | _ \<Rightarrow> Inl MultipleResultsFound)"

lemma one_or_none_key [query_simps]:
  "distinct (map key rows) \<Longrightarrow> one_or_none (filter (\<lambda>r. key r = k) rows) = Inr (find_by key k rows)"
  by (simp add: one_or_none_def filter_key_distinct split: option.splits)

lemma one_or_none_SomeD: "one_or_none (filter P rows) = Inr (Some r) \<Longrightarrow> r \<in> set rows \<and> P r"
  by (auto simp: one_or_none_def split: list.splits dest: filter_eq_ConsD)

lemma one_or_none_NoneD: "one_or_none (filter P rows) = Inr None \<Longrightarrow> r \<in> set rows \<Longrightarrow> \<not> P r"
  by (auto simp: one_or_none_def filter_empty_conv split: list.splits)

end
