(* ===== verification/Session.thy ===== *)
theory Session
  imports Models
begin

text \<open>
  \<open>core/db.py\<close> and the database session the handlers share. The session is made with
  \<open>autocommit=False, autoflush=False\<close>: what a handler writes stays in the session (\<open>work\<close>) until a
  flush sends it to the transaction (\<open>flushed\<close>), and nobody else sees it until a commit makes it
  durable. \<open>get_db\<close> closes the session after the request, which drops what was not committed.
  \<open>with_transaction\<close> is the frame that the three order handlers put around their work.
\<close>

record session =
  durable :: db
  flushed :: db
  work :: db
  in_transaction :: bool
  state_user_id :: "uuid option"

text \<open>
  \<open>state_user_id\<close> is \<open>request.state.user_id\<close>, set by \<open>get_current_user\<close> and read by the request
  log: like the session it lives for one request, so it is kept beside it.
\<close>

definition SessionLocal :: "db \<Rightarrow> session" where
  "SessionLocal d = \<lparr>durable = d, flushed = d, work = d, in_transaction = False, state_user_id = None\<rparr>"

definition close :: "session \<Rightarrow> db" where
  "close s = durable s"

text \<open>\<open>get_db\<close>: a session for one request, closed whatever the request did.\<close>

definition get_db :: "(session \<Rightarrow> 'a \<times> session) \<Rightarrow> db \<Rightarrow> 'a \<times> db" where
  "get_db request d = (case request (SessionLocal d) of (r, s) \<Rightarrow> (r, close s))"

section \<open>Flush, commit, rollback\<close>

text \<open>
  A flush writes the rows that changed. \<open>onupdate=func.now()\<close> sets \<open>updated_at\<close> of a product or an
  order whose own columns changed (the items of an order are rows of another table). The database
  refuses a state that breaks a column's type or constraint.
\<close>

definition touch_product :: "instant \<Rightarrow> product list \<Rightarrow> product \<Rightarrow> product" where
  "touch_product now old p = (if p \<in> set old then p else p\<lparr>p_updated_at := now\<rparr>)"

definition order_columns :: "order_row \<Rightarrow> order_row" where
  "order_columns o' = o'\<lparr>o_items := []\<rparr>"

definition touch_order :: "instant \<Rightarrow> order_row list \<Rightarrow> order_row \<Rightarrow> order_row" where
  "touch_order now old o' =
     (if order_columns o' \<in> order_columns ` set old then o' else o'\<lparr>o_updated_at := now\<rparr>)"

definition touch :: "instant \<Rightarrow> db \<Rightarrow> db \<Rightarrow> db" where
  "touch now old new =
     new\<lparr>products := map (touch_product now (products old)) (products new),
         orders := map (touch_order now (orders old)) (orders new)\<rparr>"

definition flush :: "instant \<Rightarrow> session \<Rightarrow> exn + session" where
  "flush now s =
     (let w = touch now (flushed s) (work s)
      in if db_fits w then Inr (s\<lparr>flushed := w, work := w\<rparr>) else Inl DBAPIError)"

definition autobegin :: "session \<Rightarrow> session" where
  "autobegin s = s\<lparr>in_transaction := True\<rparr>"

definition rollback :: "session \<Rightarrow> session" where
  "rollback s = s\<lparr>flushed := durable s, work := durable s, in_transaction := False\<rparr>"

definition commit :: "instant \<Rightarrow> session \<Rightarrow> (exn + unit) \<times> session" where
  "commit now s =
     (case flush now s of
        Inl e \<Rightarrow> (Inl e, rollback s)
      | Inr s' \<Rightarrow> (Inr (), s'\<lparr>durable := flushed s', in_transaction := False\<rparr>))"

text \<open>Sequencing of fallible session code: an exception stops it, with the session as it is.\<close>

definition and_then ::
  "(exn + 'a) \<times> session \<Rightarrow> ('a \<Rightarrow> session \<Rightarrow> (exn + 'b) \<times> session) \<Rightarrow> (exn + 'b) \<times> session" where
  "and_then m f = (case m of (Inl e, s) \<Rightarrow> (Inl e, s) | (Inr x, s) \<Rightarrow> f x s)"

lemma and_then_simps [simp]:
  "and_then (Inl e, s) f = (Inl e, s)"
  "and_then (Inr x, s) f = f x s"
  by (simp_all add: and_then_def)

text \<open>
  \<open>db.refresh(row)\<close> reads the row again by its key, in a new transaction. \<open>commit_refresh\<close> is the
  end of every handler that writes one row: commit, refresh, build the response.
\<close>

definition refresh :: "(db \<Rightarrow> 'r option) \<Rightarrow> session \<Rightarrow> (exn + 'r) \<times> session" where
  "refresh reload s =
     (let s1 = autobegin s in
      case reload (work s1) of None \<Rightarrow> (Inl InvalidRequestError, s1) | Some r \<Rightarrow> (Inr r, s1))"

definition commit_refresh ::
  "instant \<Rightarrow> (db \<Rightarrow> 'r option) \<Rightarrow> ('r \<Rightarrow> 'a) \<Rightarrow> session \<Rightarrow> (exn + 'a) \<times> session" where
  "commit_refresh now reload to_response s =
     and_then (commit now s) (\<lambda>_ s2. and_then (refresh reload s2) (\<lambda>r s3. (Inr (to_response r), s3)))"

section \<open>The transaction frame of the order handlers\<close>

text \<open>
  \<^verbatim>\<open>
    has_active_transaction = db.in_transaction()
    transaction_context = db.begin_nested() if has_active_transaction else db.begin()
    with transaction_context:
        ...
    if has_active_transaction and db.in_transaction():
        db.commit()
  \<close>
  \<open>begin_nested\<close> flushes and sets a savepoint; leaving the block flushes and releases it, or rolls
  back to it when the block raised. Leaving \<open>begin\<close>'s block commits, or rolls back.
\<close>

definition nested_block ::
  "instant \<Rightarrow> session \<Rightarrow> (db \<Rightarrow> exn + 'a \<times> db) \<Rightarrow> (exn + 'a) \<times> session" where
  "nested_block now s body =
     (case flush now s of
        Inl e \<Rightarrow> (Inl e, rollback s)
      | Inr savepoint \<Rightarrow>
          (case body (work savepoint) of
             Inl e \<Rightarrow> (Inl e, savepoint)
           | Inr (x, w) \<Rightarrow>
               (case flush now (savepoint\<lparr>work := w\<rparr>) of
                  Inl e \<Rightarrow> (Inl e, savepoint)
                | Inr s' \<Rightarrow> (Inr x, s'))))"

definition root_block ::
  "instant \<Rightarrow> session \<Rightarrow> (db \<Rightarrow> exn + 'a \<times> db) \<Rightarrow> (exn + 'a) \<times> session" where
  "root_block now s body =
     (let s1 = autobegin s in
      case body (work s1) of
        Inl e \<Rightarrow> (Inl e, rollback s1)
      | Inr (x, w) \<Rightarrow> and_then (commit now (s1\<lparr>work := w\<rparr>)) (\<lambda>_ s2. (Inr x, s2)))"

definition with_transaction ::
  "instant \<Rightarrow> session \<Rightarrow> (db \<Rightarrow> exn + 'a \<times> db) \<Rightarrow> (exn + 'a) \<times> session" where
  "with_transaction now s body =
     (let has_active_transaction = in_transaction s in
      and_then (if has_active_transaction then nested_block now s body else root_block now s body)
        (\<lambda>x s'.
           if has_active_transaction \<and> in_transaction s'
           then and_then (commit now s') (\<lambda>_ s''. (Inr x, s''))
           else (Inr x, s')))"

section \<open>What touching keeps\<close>

lemma touch_product_cases: "touch_product now old p = p \<or> touch_product now old p = p\<lparr>p_updated_at := now\<rparr>"
  by (simp add: touch_product_def)

lemma touch_product_frame [frame_simps, simp]:
  "p_id (touch_product now old p) = p_id p"
  "p_name (touch_product now old p) = p_name p"
  "p_description (touch_product now old p) = p_description p"
  "p_price (touch_product now old p) = p_price p"
  "p_stock (touch_product now old p) = p_stock p"
  "p_category (touch_product now old p) = p_category p"
  "p_status (touch_product now old p) = p_status p"
  "p_seller_id (touch_product now old p) = p_seller_id p"
  "p_created_at (touch_product now old p) = p_created_at p"
  by (simp_all add: touch_product_def)

lemma touch_order_frame [frame_simps, simp]:
  "o_id (touch_order now old o') = o_id o'"
  "o_user_id (touch_order now old o') = o_user_id o'"
  "o_status (touch_order now old o') = o_status o'"
  "o_promo_code_id (touch_order now old o') = o_promo_code_id o'"
  "o_total_amount (touch_order now old o') = o_total_amount o'"
  "o_discount_amount (touch_order now old o') = o_discount_amount o'"
  "o_items (touch_order now old o') = o_items o'"
  "o_created_at (touch_order now old o') = o_created_at o'"
  by (simp_all add: touch_order_def)

lemma touch_frame [frame_simps, simp]:
  "users (touch now old new) = users new"
  "promo_codes (touch now old new) = promo_codes new"
  "user_operations (touch now old new) = user_operations new"
  "products (touch now old new) = map (touch_product now (products old)) (products new)"
  "orders (touch now old new) = map (touch_order now (orders old)) (orders new)"
  by (simp_all add: touch_def)

lemma touch_product_old [simp]: "p \<in> set old \<Longrightarrow> touch_product now old p = p"
  by (simp add: touch_product_def)

lemma touch_order_old [simp]: "o' \<in> set old \<Longrightarrow> touch_order now old o' = o'"
  by (simp add: touch_order_def)

lemma touch_same [simp]: "touch now d d = d"
  by (simp add: touch_def map_idI)

lemma touch_lookup [table_simps]:
  "find_by p_id k (map (touch_product now old) ps) = map_option (touch_product now old) (find_by p_id k ps)"
  "find_by o_id k (map (touch_order now old') os) = map_option (touch_order now old') (find_by o_id k os)"
  by (simp_all add: find_by_map)

section \<open>What flush, commit and the transaction frame do\<close>

lemma flush_Inr:
  assumes "flush now s = Inr s'"
  shows "s' = s\<lparr>flushed := touch now (flushed s) (work s), work := touch now (flushed s) (work s)\<rparr>"
    and "db_fits (touch now (flushed s) (work s))"
  using assms by (auto simp: flush_def Let_def split: if_splits)

lemma flush_clean: "flush now s = (if db_fits (work s) then Inr s else Inl DBAPIError)"
  if "flushed s = work s"
  using that by (simp add: flush_def)

text \<open>
  A session is \<open>clean\<close> when it has nothing that is not in the database yet. Every handler starts
  with a clean session: the dependencies only read.
\<close>

definition clean :: "session \<Rightarrow> bool" where
  "clean s \<longleftrightarrow> flushed s = durable s \<and> work s = durable s"

lemma clean_SessionLocal [simp]: "clean (SessionLocal d)"
  by (simp add: clean_def SessionLocal_def)

lemma clean_autobegin [simp]: "clean (autobegin s) = clean s"
  by (simp add: clean_def autobegin_def)

lemma autobegin_frame [simp]:
  "durable (autobegin s) = durable s" "work (autobegin s) = work s" "flushed (autobegin s) = flushed s"
  "in_transaction (autobegin s)"
  by (simp_all add: autobegin_def)

lemma commit_cases:
  assumes "commit now s = (r, s')"
  shows "(r = Inl DBAPIError \<and> durable s' = durable s \<and> \<not> db_fits (touch now (flushed s) (work s))) \<or>
         (r = Inr () \<and> durable s' = touch now (flushed s) (work s) \<and> work s' = durable s' \<and>
          flushed s' = durable s' \<and> db_fits (durable s'))"
  using assms
  by (auto simp: commit_def flush_def rollback_def Let_def split: sum.splits if_splits)

lemma refresh_frame:
  "refresh reload s = (r, s') \<Longrightarrow> durable s' = durable s \<and> work s' = work s \<and> flushed s' = flushed s"
  by (auto simp: refresh_def Let_def split: option.splits)

lemma commit_refresh_Inr:
  assumes "commit_refresh now reload f s = (Inr x, s')"
  obtains r where "reload (durable s') = Some r" and "x = f r"
    and "durable s' = touch now (flushed s) (work s)" and "db_fits (durable s')"
proof -
  obtain s2 where c: "commit now s = (Inr (), s2)"
    and r: "and_then (refresh reload s2) (\<lambda>r s3. (Inr (f r), s3)) = (Inr x, s')"
    using assms by (auto simp: commit_refresh_def and_then_def split: sum.splits prod.splits)
  then obtain row where "reload (work s2) = Some row" "x = f row" "durable s' = durable s2"
    by (auto simp: refresh_def Let_def split: option.splits)
  then show thesis using commit_cases [OF c] that by auto
qed

text \<open>
  The refresh finds the row that was just written: a handler that raises has changed nothing.
\<close>

lemma commit_refresh_Inl:
  assumes "commit_refresh now reload f s = (Inl e, s')"
    and "reload (touch now (flushed s) (work s)) \<noteq> None"
  shows "durable s' = durable s"
proof (cases "commit now s")
  case (Pair r s2)
  then show ?thesis
    using commit_cases [OF Pair] assms
    by (auto simp: commit_refresh_def refresh_def Let_def split: option.splits)
qed

text \<open>
  Both branches of the frame do the same to the database: the work of the body, flushed, or
  nothing. This is the atomicity that the order handlers rest on.
\<close>

lemma with_transaction_eq:
  assumes "clean s" and "db_fits (durable s)"
  shows "with_transaction now s body = (r, s') \<Longrightarrow>
     (case body (durable s) of
        Inl e \<Rightarrow> r = Inl e \<and> durable s' = durable s
      | Inr (x, w) \<Rightarrow>
          (if db_fits (touch now (durable s) w)
           then r = Inr x \<and> durable s' = touch now (durable s) w \<and> work s' = durable s'
           else r = Inl DBAPIError \<and> durable s' = durable s))"
  using assms
  by (auto simp: with_transaction_def nested_block_def root_block_def clean_def flush_clean flush_def
      commit_def rollback_def autobegin_def and_then_def Let_def
      split: sum.splits prod.splits if_splits)

lemma with_transaction_Inr:
  assumes "clean s" and "db_fits (durable s)" and "with_transaction now s body = (Inr x, s')"
  obtains w where "body (durable s) = Inr (x, w)" and "db_fits (touch now (durable s) w)"
    and "durable s' = touch now (durable s) w" and "work s' = durable s'"
  using with_transaction_eq [OF assms(1,2,3)]
  by (auto split: sum.splits prod.splits if_splits)

lemma with_transaction_Inl:
  assumes "clean s" and "db_fits (durable s)" and "with_transaction now s body = (Inl e, s')"
  shows "durable s' = durable s"
  using with_transaction_eq [OF assms(1,2,3)]
  by (auto split: sum.splits prod.splits if_splits)

section \<open>Interface: an operation on the database\<close>

text \<open>
  The contract that every endpoint keeps: run on a clean session over a database whose constraints
  hold, it either raises and leaves the database as it was, or returns and leaves a database whose
  constraints hold.
\<close>

locale db_operation =
  fixes operation :: "session \<Rightarrow> (exn + 'a) \<times> session"
  assumes raises_unchanged:
      "clean s \<Longrightarrow> db_fits (durable s) \<Longrightarrow> operation s = (Inl e, s') \<Longrightarrow> durable s' = durable s"
    and returns_fits:
      "clean s \<Longrightarrow> db_fits (durable s) \<Longrightarrow> operation s = (Inr x, s') \<Longrightarrow> db_fits (durable s')"
begin

lemma request_raises:
  assumes "db_fits d" and "get_db operation d = (Inl e, d')"
  shows "d' = d"
proof -
  obtain s' where "operation (SessionLocal d) = (Inl e, s')" and "d' = close s'"
    using assms(2) by (auto simp: get_db_def split: prod.splits)
  with raises_unchanged [of "SessionLocal d" e s'] assms(1) show ?thesis
    by (simp add: close_def SessionLocal_def clean_def)
qed

lemma request_fits:
  assumes "db_fits d" and "get_db operation d = (r, d')"
  shows "db_fits d'"
proof (cases r)
  case (Inl e)
  with assms(2) have "d' = d" by (blast intro: request_raises [OF assms(1)])
  with assms(1) show ?thesis by simp
next
  case (Inr x)
  then obtain s' where "operation (SessionLocal d) = (Inr x, s')" and "d' = close s'"
    using assms(2) by (auto simp: get_db_def split: prod.splits)
  with returns_fits [of "SessionLocal d" x s'] assms(1) show ?thesis
    by (simp add: close_def SessionLocal_def clean_def)
qed

end

end
