(* ===== verification/Auth.thy ===== *)
theory Auth
  imports Security
begin

text \<open>
  The three authentication endpoints of \<open>main.py\<close>: registration, login and the renewal of an
  access token. Registration is the only one that writes.
\<close>

section \<open>Enumeration values from payloads\<close>

text \<open>
  \<open>_enum_value\<close> takes the \<open>.value\<close> of an enumeration member and leaves anything else alone; a
  payload's enumeration arrives as its value. \<open>UserRole(v)\<close> is the member with that value.
\<close>

datatype enum_or_value = Member string | PlainValue string

fun enum_value :: "enum_or_value \<Rightarrow> string" where
  "enum_value (Member v) = v"
| "enum_value (PlainValue v) = v"

definition user_role_of :: "string \<Rightarrow> exn + user_role" where
  "user_role_of v =
     (if v = ''USER'' then Inr USER else if v = ''SELLER'' then Inr SELLER
      else if v = ''ADMIN'' then Inr ADMIN else Inl (ValueError v))"

definition product_status_of :: "string \<Rightarrow> exn + product_status" where
  "product_status_of v =
     (if v = ''ACTIVE'' then Inr ACTIVE else if v = ''INACTIVE'' then Inr INACTIVE
      else if v = ''ARCHIVED'' then Inr ARCHIVED else Inl (ValueError v))"

definition discount_type_of :: "string \<Rightarrow> exn + discount_type" where
  "discount_type_of v =
     (if v = ''PERCENTAGE'' then Inr PERCENTAGE else if v = ''FIXED_AMOUNT'' then Inr FIXED_AMOUNT
      else Inl (ValueError v))"

lemma enum_of_value [simp]:
  "user_role_of (user_role_value r) = Inr r"
  "product_status_of (product_status_value st) = Inr st"
  "discount_type_of (discount_type_value dt) = Inr dt"
proof -
  show "user_role_of (user_role_value r) = Inr r"
    by (cases r) (simp_all add: user_role_of_def)
  show "product_status_of (product_status_value st) = Inr st"
    by (cases st) (simp_all add: product_status_of_def)
  show "discount_type_of (discount_type_value dt) = Inr dt"
    by (cases dt) (simp_all add: discount_type_of_def)
qed

section \<open>Payloads and responses\<close>

record register_request =
  rr_email :: string
  rr_password :: string
  rr_role :: "enum_or_value option"

record register_response =
  rs_id :: string
  rs_email :: string
  rs_role :: string
  rs_created_at :: instant

record login_request =
  lr_email :: string
  lr_password :: string

record token_response =
  tr_access_token :: string
  tr_refresh_token :: string
  tr_token_type :: string

section \<open>POST /auth/register\<close>

definition add_user :: "user \<Rightarrow> db \<Rightarrow> db" where
  "add_user u d = d\<lparr>users := users d @ [u]\<rparr>"

definition register_response :: "user \<Rightarrow> register_response" where
  "register_response u =
     \<lparr>rs_id = u_id u, rs_email = u_email u, rs_role = user_role_value (u_role u), rs_created_at = u_created_at u\<rparr>"

definition register_user ::
  "(string \<Rightarrow> string option) \<Rightarrow> instant \<Rightarrow> uuid \<Rightarrow> register_request \<Rightarrow> session \<Rightarrow> (exn + register_response) \<times> session" where
  "register_user hash_fun now new_id payload s0 =
     (let s = autobegin s0 in
      case one_or_none (filter (\<lambda>u. u_email u = rr_email payload) (users (work s))) of
        Inl e \<Rightarrow> (Inl e, s)
      | Inr (Some existing) \<Rightarrow>
          (Inl (ApiError ''VALIDATION_ERROR'' 400 ''Email already registered''
             (Some (JDict [(''fields'', JList [JDict [(''field'', JStr ''email''), (''message'', JStr ''Already exists'')]])]))), s)
      | Inr None \<Rightarrow>
          (let role_value = (case rr_role payload of Some r \<Rightarrow> enum_value r | None \<Rightarrow> user_role_value USER) in
           case hash_password hash_fun (rr_password payload) of
             Inl e \<Rightarrow> (Inl e, s)
           | Inr hashed \<Rightarrow>
               (case user_role_of role_value of
                  Inl e \<Rightarrow> (Inl e, s)
                | Inr role \<Rightarrow>
                    (let user = \<lparr>u_id = new_id, u_email = rr_email payload, u_hashed_password = hashed,
                                 u_role = role, u_created_at = now\<rparr>
                     in commit_refresh now (\<lambda>d. find_by u_id (u_id user) (users d)) register_response
                          (s\<lparr>work := add_user user (work s)\<rparr>)))))"

section \<open>POST /auth/login\<close>

definition login_user ::
  "(string \<Rightarrow> string \<Rightarrow> bool) \<Rightarrow> jose \<Rightarrow> settings \<Rightarrow> instant \<Rightarrow> login_request \<Rightarrow> session \<Rightarrow> (exn + token_response) \<times> session" where
  "login_user verify_fun J cfg now payload s0 =
     (let s = autobegin s0;
          invalid = ApiError ''TOKEN_INVALID'' 401 ''Invalid credentials'' None
      in case one_or_none (filter (\<lambda>u. u_email u = lr_email payload) (users (work s))) of
           Inl e \<Rightarrow> (Inl e, s)
         | Inr None \<Rightarrow> (Inl invalid, s)
         | Inr (Some user) \<Rightarrow>
             if \<not> verify_password verify_fun (lr_password payload) (u_hashed_password user) then (Inl invalid, s)
             else (Inr \<lparr>tr_access_token = create_access_token J cfg now (u_id user) (user_role_value (u_role user)),
                        tr_refresh_token = create_refresh_token J cfg now (u_id user) (user_role_value (u_role user)),
                        tr_token_type = ''bearer''\<rparr>, s))"

section \<open>POST /auth/refresh\<close>

definition refresh_token ::
  "jose \<Rightarrow> settings \<Rightarrow> instant \<Rightarrow> string \<Rightarrow> session \<Rightarrow> (exn + token_response) \<times> session" where
  "refresh_token J cfg now payload_refresh_token s0 =
     (case verify_token J cfg now payload_refresh_token ''refresh'' of
        Inl e \<Rightarrow> (Inl e, s0)
      | Inr token_payload \<Rightarrow>
          (let s = autobegin s0 in
           case one_or_none (filter (\<lambda>u. Some (u_id u) = cl_sub token_payload) (users (work s))) of
             Inl e \<Rightarrow> (Inl e, s)
           | Inr None \<Rightarrow> (Inl (ApiError ''REFRESH_TOKEN_INVALID'' 401 ''User not found'' None), s)
           | Inr (Some user) \<Rightarrow>
               (Inr \<lparr>tr_access_token = create_access_token J cfg now (u_id user) (user_role_value (u_role user)),
                     tr_refresh_token = payload_refresh_token,
                     tr_token_type = ''bearer''\<rparr>, s)))"

section \<open>Lemmas\<close>

lemma login_user_frame:
  "login_user verify_fun J cfg now payload s = (r, s') \<Longrightarrow> durable s' = durable s"
  by (auto simp: login_user_def Let_def split: sum.splits option.splits if_splits)

lemma refresh_token_frame:
  "refresh_token J cfg now tok s = (r, s') \<Longrightarrow> durable s' = durable s"
  by (auto simp: refresh_token_def Let_def split: sum.splits option.splits if_splits)

text \<open>What a registration that returns has done, and that one that raises has done nothing.\<close>

definition new_user :: "instant \<Rightarrow> uuid \<Rightarrow> register_request \<Rightarrow> string \<Rightarrow> user_role \<Rightarrow> user" where
  "new_user now new_id payload hashed role =
     \<lparr>u_id = new_id, u_email = rr_email payload, u_hashed_password = hashed, u_role = role, u_created_at = now\<rparr>"

definition requested_role :: "register_request \<Rightarrow> string" where
  "requested_role payload = (case rr_role payload of Some r \<Rightarrow> enum_value r | None \<Rightarrow> ''USER'')"

lemma register_user_cases:
  assumes "register_user hash_fun now new_id payload s = (r, s')" and "clean s"
  shows "(durable s' = durable s \<and> (\<exists>e. r = Inl e)) \<or>
    (\<exists>hashed role. hash_fun (rr_password payload) = Some hashed \<and>
       user_role_of (requested_role payload) = Inr role \<and>
       rr_email payload \<notin> u_email ` set (users (durable s)) \<and>
       commit_refresh now (\<lambda>d. find_by u_id new_id (users d)) register_response
         ((autobegin s)\<lparr>work := add_user (new_user now new_id payload hashed role) (durable s)\<rparr>) = (r, s'))"
proof -
  have fresh: "rr_email payload \<notin> u_email ` set (users (durable s))"
    if "one_or_none (filter (\<lambda>u. u_email u = rr_email payload) (users (durable s))) = Inr None"
    using one_or_none_NoneD [OF that] by force
  from assms fresh show ?thesis
    unfolding register_user_def requested_role_def new_user_def clean_def
    by (auto simp: Let_def hash_password_def split: sum.splits option.splits)
qed

lemma register_user_Inr:
  assumes "clean s" and "register_user hash_fun now new_id payload s = (Inr resp, s')"
  obtains hashed role where "hash_fun (rr_password payload) = Some hashed"
    and "user_role_of (requested_role payload) = Inr role"
    and "rr_email payload \<notin> u_email ` set (users (durable s))"
    and "durable s' = add_user (new_user now new_id payload hashed role) (durable s)"
    and "db_fits (durable s')"
    and "resp = register_response (new_user now new_id payload hashed role)"
proof -
  let ?d = "\<lambda>h ro. add_user (new_user now new_id payload h ro) (durable s)"
  from register_user_cases [OF assms(2,1)] obtain hashed role where
      ok: "hash_fun (rr_password payload) = Some hashed" "user_role_of (requested_role payload) = Inr role"
        "rr_email payload \<notin> u_email ` set (users (durable s))"
      and cr: "commit_refresh now (\<lambda>d. find_by u_id new_id (users d)) register_response
         ((autobegin s)\<lparr>work := ?d hashed role\<rparr>) = (Inr resp, s')"
    by blast
  from cr obtain u where u: "find_by u_id new_id (users (durable s')) = Some u" "resp = register_response u"
    and d: "durable s' = ?d hashed role" and fits: "db_fits (durable s')"
    by (rule commit_refresh_Inr) (use assms(1) in \<open>auto simp: clean_def add_user_def touch_def map_idI\<close>)
  have "u = new_user now new_id payload hashed role"
    using u(1) db_fits_distinct(1) [OF fits]
      distinct_find_by [of u_id "users (durable s')" "new_user now new_id payload hashed role"]
    by (simp add: d add_user_def new_user_def)
  with that ok d fits u(2) show thesis by blast
qed

lemma register_user_Inl:
  assumes "clean s" and "register_user hash_fun now new_id payload s = (Inl e, s')"
  shows "durable s' = durable s"
  using register_user_cases [OF assms(2,1)]
  by (auto dest!: commit_refresh_Inl simp: add_user_def new_user_def find_by_append split: option.splits)

interpretation register_op: db_operation "register_user hash_fun now new_id payload"
  for hash_fun now new_id payload
proof
  fix s e s'
  assume "clean s" "register_user hash_fun now new_id payload s = (Inl e, s')"
  then show "durable s' = durable s" by (rule register_user_Inl)
next
  fix s x s'
  assume "clean s" "register_user hash_fun now new_id payload s = (Inr x, s')"
  then show "db_fits (durable s')" by (auto elim: register_user_Inr)
qed

interpretation login_op: db_operation "login_user verify_fun J cfg now payload"
  for verify_fun J cfg now payload
  by unfold_locales (auto dest: login_user_frame)

interpretation refresh_op: db_operation "refresh_token J cfg now tok"
  for J cfg now tok
  by unfold_locales (auto dest: refresh_token_frame)

end
