(* ===== verification/Products.thy ===== *)
theory Products
  imports Auth
begin

text \<open>
  The product endpoints of \<open>main.py\<close>. Money columns are \<open>Numeric(12, 2)\<close>: the parameter \<open>numeric\<close>
  is what such a column holds after a value was written to it. The parameter \<open>scan\<close> is the order in
  which the database returns the rows of a query that asks for no order.
\<close>

section \<open>Payloads and responses\<close>

record product_create =
  cr_seller_id :: "uuid option"
  cr_name :: string
  cr_description :: "string option"
  cr_price :: money
  cr_stock :: int
  cr_category :: string
  cr_status :: enum_or_value

text \<open>
  A field of an update is unset (\<open>None\<close>), null (\<open>Some None\<close>) or a value;
  \<open>model_dump(exclude_unset=True)\<close> keeps the last two.
\<close>

record product_update =
  up_name :: "string option option"
  up_description :: "string option option"
  up_price :: "money option option"
  up_stock :: "int option option"
  up_category :: "string option option"
  up_status :: "enum_or_value option option"

record product_response =
  pr_id :: string
  pr_name :: string
  pr_description :: "string option"
  pr_price :: money
  pr_stock :: int
  pr_category :: string
  pr_status :: string
  pr_seller_id :: string
  pr_created_at :: instant
  pr_updated_at :: instant

record product_list_response =
  pl_items :: "product_response list"
  pl_total_elements :: nat
  pl_page :: nat
  pl_size :: nat

definition to_product_response :: "product \<Rightarrow> product_response" where
  "to_product_response p =
     \<lparr>pr_id = p_id p, pr_name = p_name p, pr_description = p_description p, pr_price = p_price p,
      pr_stock = p_stock p, pr_category = p_category p, pr_status = product_status_value (p_status p),
      pr_seller_id = p_seller_id p, pr_created_at = p_created_at p, pr_updated_at = p_updated_at p\<rparr>"

definition require_product_owner :: "product \<Rightarrow> user \<Rightarrow> exn + unit" where
  "require_product_owner p u =
     (if u_role u = SELLER \<and> p_seller_id p \<noteq> u_id u
      then Inl (ApiError ''ACCESS_DENIED'' 403 ''Access denied'' None) else Inr ())"

section \<open>GET /products\<close>

definition product_filter :: "product_status option \<Rightarrow> string option \<Rightarrow> product \<Rightarrow> bool" where
  "product_filter status category p \<longleftrightarrow>
     (case status of None \<Rightarrow> True | Some st \<Rightarrow> p_status p = st) \<and>
     (case category of None \<Rightarrow> True | Some c \<Rightarrow> c = '''' \<or> p_category p = c)"

text \<open>\<open>OFFSET\<close> and \<open>LIMIT\<close> are 64 bit integers to the database, page and size are not bounded.\<close>

definition fits_bigint :: "nat \<Rightarrow> bool" where
  "fits_bigint n \<longleftrightarrow> int n < 2 ^ 63"

definition list_products ::
  "(product list \<Rightarrow> product list) \<Rightarrow> nat \<Rightarrow> nat \<Rightarrow> product_status option \<Rightarrow> string option \<Rightarrow>
     session \<Rightarrow> (exn + product_list_response) \<times> session" where
  "list_products scan page size_param status category s0 =
     (let s = autobegin s0;
          query = filter (product_filter status category) (products (work s));
          total = length query;
          items = offset_limit (page * size_param) size_param (scan query)
      in if \<not> (fits_bigint (page * size_param) \<and> fits_bigint size_param) then (Inl DBAPIError, s)
         else (Inr \<lparr>pl_items = map to_product_response items, pl_total_elements = total,
                    pl_page = page, pl_size = size_param\<rparr>, s))"

section \<open>POST /products\<close>

text \<open>The seller of a new product: the caller, or for an administrator the seller named.\<close>

definition choose_seller :: "product_create \<Rightarrow> user \<Rightarrow> db \<Rightarrow> exn + uuid" where
  "choose_seller payload user d =
     (let invalid = ApiError ''VALIDATION_ERROR'' 400 ''Invalid seller_id''
            (Some (JDict [(''fields'', JList [JDict [(''field'', JStr ''seller_id''),
               (''message'', JStr ''Seller not found or has invalid role'')]])]))
      in case (if u_role user = ADMIN then cr_seller_id payload else None) of
           Some sid \<Rightarrow>
             (case one_or_none (filter (\<lambda>u. u_id u = sid) (users d)) of
                Inl e \<Rightarrow> Inl e
              | Inr None \<Rightarrow> Inl invalid
              | Inr (Some target_seller) \<Rightarrow>
                  if u_role target_seller \<noteq> SELLER then Inl invalid else Inr (u_id target_seller))
         | None \<Rightarrow>
             if u_role user = SELLER \<and> cr_seller_id payload \<noteq> None \<and> cr_seller_id payload \<noteq> Some (u_id user)
             then Inl (ApiError ''ACCESS_DENIED'' 403 ''Access denied'' None)
             else Inr (u_id user))"

definition create_product ::
  "(money \<Rightarrow> money) \<Rightarrow> instant \<Rightarrow> uuid \<Rightarrow> product_create \<Rightarrow> user \<Rightarrow> session \<Rightarrow> (exn + product_response) \<times> session" where
  "create_product numeric now new_id payload user s0 =
     (let s = autobegin s0 in
      case choose_seller payload user (work s) of
        Inl e \<Rightarrow> (Inl e, s)
      | Inr seller_id \<Rightarrow>
          (case product_status_of (enum_value (cr_status payload)) of
             Inl e \<Rightarrow> (Inl e, s)
           | Inr st \<Rightarrow>
               (let product = \<lparr>p_id = new_id, p_name = cr_name payload, p_description = cr_description payload,
                               p_price = numeric (cr_price payload), p_stock = cr_stock payload,
                               p_category = cr_category payload, p_status = st, p_seller_id = seller_id,
                               p_created_at = now, p_updated_at = now\<rparr>
                in commit_refresh now (\<lambda>d. find_by p_id (p_id product) (products d)) to_product_response
                     (s\<lparr>work := (work s)\<lparr>products := products (work s) @ [product]\<rparr>\<rparr>))))"

section \<open>GET /products/{id}\<close>

definition get_product :: "uuid \<Rightarrow> session \<Rightarrow> (exn + product_response) \<times> session" where
  "get_product pid s0 =
     (let s = autobegin s0 in
      case one_or_none (filter (\<lambda>p. p_id p = pid) (products (work s))) of
        Inl e \<Rightarrow> (Inl e, s)
      | Inr None \<Rightarrow> (Inl (ApiError ''PRODUCT_NOT_FOUND'' 404 ''Product not found'' None), s)
      | Inr (Some product) \<Rightarrow> (Inr (to_product_response product), s))"

section \<open>PUT /products/{id}\<close>

text \<open>
  \<open>setattr(product, key, value)\<close> for the keys that are set. A null in a column that is not nullable
  is refused when the row is written: \<open>updated_product\<close> is \<open>None\<close> then.
\<close>

definition set_column :: "'v option option \<Rightarrow> 'v \<Rightarrow> 'v option" where
  "set_column field old = (case field of None \<Rightarrow> Some old | Some v \<Rightarrow> v)"

definition updated_status :: "product_update \<Rightarrow> exn + product_status option option" where
  "updated_status upd =
     (case up_status upd of
        None \<Rightarrow> Inr None
      | Some None \<Rightarrow> Inr (Some None)
      | Some (Some v) \<Rightarrow>
          (case product_status_of (enum_value v) of Inl e \<Rightarrow> Inl e | Inr st \<Rightarrow> Inr (Some (Some st))))"

definition updated_product ::
  "(money \<Rightarrow> money) \<Rightarrow> product_update \<Rightarrow> product_status option option \<Rightarrow> product \<Rightarrow> product option" where
  "updated_product numeric upd status p =
     (case (set_column (up_name upd) (p_name p),
            set_column (map_option (map_option numeric) (up_price upd)) (p_price p),
            set_column (up_stock upd) (p_stock p),
            set_column (up_category upd) (p_category p),
            set_column status (p_status p)) of
        (Some name, Some price, Some stock, Some category, Some st) \<Rightarrow>
          Some (p\<lparr>p_name := name,
                  p_description := (case up_description upd of None \<Rightarrow> p_description p | Some v \<Rightarrow> v),
                  p_price := price, p_stock := stock, p_category := category, p_status := st\<rparr>)
      | _ \<Rightarrow> None)"

definition update_product ::
  "(money \<Rightarrow> money) \<Rightarrow> instant \<Rightarrow> uuid \<Rightarrow> product_update \<Rightarrow> user \<Rightarrow> session \<Rightarrow> (exn + product_response) \<times> session" where
  "update_product numeric now pid payload user s0 =
     (let s = autobegin s0 in
      case one_or_none (filter (\<lambda>p. p_id p = pid) (products (work s))) of
        Inl e \<Rightarrow> (Inl e, s)
      | Inr None \<Rightarrow> (Inl (ApiError ''PRODUCT_NOT_FOUND'' 404 ''Product not found'' None), s)
      | Inr (Some product) \<Rightarrow>
          (case require_product_owner product user of
             Inl e \<Rightarrow> (Inl e, s)
           | Inr _ \<Rightarrow>
               (case updated_status payload of
                  Inl e \<Rightarrow> (Inl e, s)
                | Inr status \<Rightarrow>
                    (case updated_product numeric payload status product of
                       None \<Rightarrow> (Inl DBAPIError, rollback s)
                     | Some product' \<Rightarrow>
                         commit_refresh now (\<lambda>d. find_by p_id (p_id product') (products d)) to_product_response
                           (s\<lparr>work := (work s)\<lparr>products := replace_by p_id product' (products (work s))\<rparr>\<rparr>)))))"

section \<open>DELETE /products/{id}\<close>

definition delete_product :: "instant \<Rightarrow> uuid \<Rightarrow> user \<Rightarrow> session \<Rightarrow> (exn + unit) \<times> session" where
  "delete_product now pid user s0 =
     (let s = autobegin s0 in
      case one_or_none (filter (\<lambda>p. p_id p = pid) (products (work s))) of
        Inl e \<Rightarrow> (Inl e, s)
      | Inr None \<Rightarrow> (Inl (ApiError ''PRODUCT_NOT_FOUND'' 404 ''Product not found'' None), s)
      | Inr (Some product) \<Rightarrow>
          (case require_product_owner product user of
             Inl e \<Rightarrow> (Inl e, s)
           | Inr _ \<Rightarrow>
               commit now (s\<lparr>work := (work s)\<lparr>products := replace_by p_id (product\<lparr>p_status := ARCHIVED\<rparr>) (products (work s))\<rparr>\<rparr>)))"

section \<open>Lemmas\<close>

text \<open>The state after a write of one product row: a new row, or a row replaced.\<close>

definition new_product ::
  "(money \<Rightarrow> money) \<Rightarrow> instant \<Rightarrow> uuid \<Rightarrow> product_create \<Rightarrow> uuid \<Rightarrow> product_status \<Rightarrow> product" where
  "new_product numeric now new_id payload seller_id st =
     \<lparr>p_id = new_id, p_name = cr_name payload, p_description = cr_description payload,
      p_price = numeric (cr_price payload), p_stock = cr_stock payload,
      p_category = cr_category payload, p_status = st, p_seller_id = seller_id,
      p_created_at = now, p_updated_at = now\<rparr>"

definition add_product :: "product \<Rightarrow> db \<Rightarrow> db" where
  "add_product p d = d\<lparr>products := products d @ [p]\<rparr>"

definition put_product :: "product \<Rightarrow> db \<Rightarrow> db" where
  "put_product p d = d\<lparr>products := replace_by p_id p (products d)\<rparr>"

lemma create_product_cases:
  assumes "create_product numeric now new_id payload user s = (r, s')" and "clean s"
  shows "(durable s' = durable s \<and> (\<exists>e. r = Inl e)) \<or>
    (\<exists>seller_id st. choose_seller payload user (durable s) = Inr seller_id \<and>
       product_status_of (enum_value (cr_status payload)) = Inr st \<and>
       commit_refresh now (\<lambda>d. find_by p_id new_id (products d)) to_product_response
         ((autobegin s)\<lparr>work := add_product (new_product numeric now new_id payload seller_id st) (durable s)\<rparr>) = (r, s'))"
  using assms
  by (auto simp: create_product_def new_product_def add_product_def clean_def Let_def split: sum.splits)

lemma create_product_Inr:
  assumes "clean s" and "create_product numeric now new_id payload user s = (Inr resp, s')"
  obtains seller_id st where "choose_seller payload user (durable s) = Inr seller_id"
    and "product_status_of (enum_value (cr_status payload)) = Inr st"
    and "durable s' = touch now (durable s) (add_product (new_product numeric now new_id payload seller_id st) (durable s))"
    and "db_fits (durable s')"
    and "resp = to_product_response (touch_product now (products (durable s)) (new_product numeric now new_id payload seller_id st))"
proof -
  let ?n = "new_product numeric now new_id payload"
  from create_product_cases [OF assms(2,1)] obtain sid st where
      ok: "choose_seller payload user (durable s) = Inr sid"
        "product_status_of (enum_value (cr_status payload)) = Inr st"
      and cr: "commit_refresh now (\<lambda>d. find_by p_id new_id (products d)) to_product_response
         ((autobegin s)\<lparr>work := add_product (?n sid st) (durable s)\<rparr>) = (Inr resp, s')"
    by blast
  from cr obtain p where p: "find_by p_id new_id (products (durable s')) = Some p" "resp = to_product_response p"
    and d: "durable s' = touch now (durable s) (add_product (?n sid st) (durable s))"
    and fits: "db_fits (durable s')"
    by (rule commit_refresh_Inr) (use assms(1) in \<open>auto simp: clean_def\<close>)
  have "p = touch_product now (products (durable s)) (?n sid st)"
    using p(1) distinct_find_by [OF db_fits_distinct(3) [OF fits], of "touch_product now (products (durable s)) (?n sid st)"]
    by (simp add: d add_product_def new_product_def)
  with that ok d fits p(2) show thesis by blast
qed

lemma create_product_Inl:
  assumes "clean s" and "create_product numeric now new_id payload user s = (Inl e, s')"
  shows "durable s' = durable s"
  using create_product_cases [OF assms(2,1)]
  by (auto dest!: commit_refresh_Inl simp: add_product_def new_product_def find_by_append find_by_map
      split: option.splits)

lemma updated_product_key:
  "updated_product numeric upd status p = Some p' \<Longrightarrow>
     p_id p' = p_id p \<and> p_seller_id p' = p_seller_id p \<and> p_created_at p' = p_created_at p"
  by (auto simp: updated_product_def split: option.splits)

lemma update_product_cases:
  assumes "update_product numeric now pid payload user s = (r, s')" and "clean s"
  shows "(durable s' = durable s \<and> (\<exists>e. r = Inl e)) \<or>
    (\<exists>p status p'. p \<in> set (products (durable s)) \<and> p_id p = pid \<and>
       require_product_owner p user = Inr () \<and> updated_status payload = Inr status \<and>
       updated_product numeric payload status p = Some p' \<and>
       commit_refresh now (\<lambda>d. find_by p_id pid (products d)) to_product_response
         ((autobegin s)\<lparr>work := put_product p' (durable s)\<rparr>) = (r, s'))"
proof -
  have key: "p_id p' = p_id p" if "updated_product numeric payload status p = Some p'" for status p p'
    using updated_product_key [OF that] by simp
  from assms key show ?thesis
    unfolding update_product_def clean_def put_product_def
    by (auto simp: Let_def rollback_def dest: one_or_none_SomeD split: sum.splits option.splits)
qed

lemma replaced_lookup:
  assumes "p \<in> set ps" and "p_id p' = p_id p"
  shows "find_by p_id (p_id p) (map (touch_product now old) (replace_by p_id p' ps)) = Some (touch_product now old p')"
proof -
  have "find_by p_id (p_id p) ps \<noteq> None"
    using assms(1) by (auto simp: find_by_None_iff)
  with assms(2) show ?thesis by (auto simp: table_simps)
qed

lemma update_product_Inr:
  assumes "clean s" and "update_product numeric now pid payload user s = (Inr resp, s')"
  obtains p status p' where "p \<in> set (products (durable s))" and "p_id p = pid"
    and "require_product_owner p user = Inr ()" and "updated_status payload = Inr status"
    and "updated_product numeric payload status p = Some p'"
    and "durable s' = touch now (durable s) (put_product p' (durable s))" and "db_fits (durable s')"
    and "resp = to_product_response (touch_product now (products (durable s)) p')"
proof -
  from update_product_cases [OF assms(2,1)] obtain p status p' where
      ok: "p \<in> set (products (durable s))" "p_id p = pid" "require_product_owner p user = Inr ()"
        "updated_status payload = Inr status" "updated_product numeric payload status p = Some p'"
      and cr: "commit_refresh now (\<lambda>d. find_by p_id pid (products d)) to_product_response
         ((autobegin s)\<lparr>work := put_product p' (durable s)\<rparr>) = (Inr resp, s')"
    by blast
  from cr obtain q where q: "find_by p_id pid (products (durable s')) = Some q" "resp = to_product_response q"
    and d: "durable s' = touch now (durable s) (put_product p' (durable s))" and fits: "db_fits (durable s')"
    by (rule commit_refresh_Inr) (use assms(1) in \<open>auto simp: clean_def\<close>)
  have "q = touch_product now (products (durable s)) p'"
    using q(1) replaced_lookup [OF ok(1), of p' now "products (durable s)"] updated_product_key [OF ok(5)] ok(2)
    by (simp add: d put_product_def)
  with that ok d fits q(2) show thesis by blast
qed

lemma update_product_Inl:
  assumes "clean s" and "update_product numeric now pid payload user s = (Inl e, s')"
  shows "durable s' = durable s"
  using update_product_cases [OF assms(2,1)]
proof (elim disjE exE conjE)
  fix p status p'
  assume p: "p \<in> set (products (durable s))" "p_id p = pid" "updated_product numeric payload status p = Some p'"
    and cr: "commit_refresh now (\<lambda>d. find_by p_id pid (products d)) to_product_response
         ((autobegin s)\<lparr>work := put_product p' (durable s)\<rparr>) = (Inl e, s')"
  have "p_id p' = p_id p" using updated_product_key [OF p(3)] by simp
  from commit_refresh_Inl [OF cr] replaced_lookup [OF p(1) this] p(2) assms(1) show ?thesis
    by (simp add: put_product_def clean_def)
qed simp

lemma delete_product_cases:
  assumes "delete_product now pid user s = (r, s')" and "clean s"
  shows "(durable s' = durable s \<and> (\<exists>e. r = Inl e)) \<or>
    (\<exists>p. p \<in> set (products (durable s)) \<and> p_id p = pid \<and> require_product_owner p user = Inr () \<and> r = Inr () \<and>
       durable s' = touch now (durable s) (put_product (p\<lparr>p_status := ARCHIVED\<rparr>) (durable s)) \<and>
       db_fits (durable s'))"
  using assms unfolding delete_product_def clean_def put_product_def
  by (auto simp: Let_def require_product_owner_def dest!: commit_cases dest: one_or_none_SomeD
      split: sum.splits option.splits if_splits)

lemma get_product_frame: "get_product pid s = (r, s') \<Longrightarrow> durable s' = durable s"
  by (auto simp: get_product_def Let_def split: sum.splits option.splits)

lemma list_products_frame: "list_products scan page n status category s = (r, s') \<Longrightarrow> durable s' = durable s"
  by (auto simp: list_products_def Let_def split: if_splits)

interpretation create_product_op: db_operation "create_product numeric now new_id payload user"
  for numeric now new_id payload user
  by unfold_locales (blast dest: create_product_Inl, blast elim: create_product_Inr)

interpretation update_product_op: db_operation "update_product numeric now pid payload user"
  for numeric now pid payload user
  by unfold_locales (blast dest: update_product_Inl, blast elim: update_product_Inr)

interpretation delete_product_op: db_operation "delete_product now pid user"
  for now pid user
  by unfold_locales (auto dest: delete_product_cases)

interpretation get_product_op: db_operation "get_product pid" for pid
  by unfold_locales (auto dest: get_product_frame)

interpretation list_products_op: db_operation "list_products scan page n status category"
  for scan page n status category
  by unfold_locales (auto dest: list_products_frame)

section \<open>Pages\<close>

text \<open>Consecutive pages of a fixed size, glued together, are the rows from the first page on.\<close>

lemma offset_limit_pages:
  "concat (map (\<lambda>page. offset_limit (page * n) n rows) [0..<k]) = take (k * n) rows"
proof (induction k)
  case 0
  then show ?case by simp
next
  case (Suc k)
  have "take (k * n) rows @ take n (drop (k * n) rows) = take (k * n + n) rows"
    by (simp add: take_add)
  with Suc show ?case
    by (simp add: offset_limit_def add.commute)
qed

end
