(* ===== verification/Promo.thy ===== *)
theory Promo
  imports Products
begin

text \<open>
  Promo codes: the two checks and the discount of \<open>main.py\<close>, and the endpoint that creates a code.
  \<open>Decimal\<close> arithmetic is exact here; Python's default context keeps 28 significant digits, and the
  amounts that fit the \<open>Numeric(12, 2)\<close> columns never need more.
\<close>

section \<open>Checks and discount\<close>

definition validate_promo_basic :: "instant \<Rightarrow> bool \<Rightarrow> promo_code \<Rightarrow> exn + unit" where
  "validate_promo_basic now allow_exhausted_for_existing promo =
     (let is_exhausted = pc_current_uses promo \<ge> pc_max_uses promo in
      if \<not> pc_active promo \<or> (is_exhausted \<and> \<not> allow_exhausted_for_existing)
      then Inl (ApiError ''PROMO_CODE_INVALID'' 422 ''Promo code invalid'' None)
      else if \<not> (pc_valid_from promo \<le> now \<and> now \<le> pc_valid_until promo)
      then Inl (ApiError ''PROMO_CODE_INVALID'' 422 ''Promo code invalid'' None)
      else Inr ())"

definition calculate_discount :: "promo_code \<Rightarrow> money \<Rightarrow> exn + money" where
  "calculate_discount promo total_amount =
     (if total_amount < pc_min_order_amount promo
      then Inl (ApiError ''PROMO_CODE_MIN_AMOUNT'' 422 ''Order amount below promo minimum'' None)
      else if pc_discount_type promo = PERCENTAGE
      then (let discount = total_amount * pc_discount_value promo / 100;
                max_discount = total_amount * (7 / 10)
            in Inr (if discount > max_discount then max_discount else discount))
      else (let discount = pc_discount_value promo
            in Inr (if discount > total_amount then total_amount else discount)))"

section \<open>POST /promo-codes\<close>

record promo_code_create =
  pcr_code :: string
  pcr_discount_type :: enum_or_value
  pcr_discount_value :: money
  pcr_min_order_amount :: money
  pcr_max_uses :: int
  pcr_valid_from :: instant
  pcr_valid_until :: instant
  pcr_active :: "bool option"

record promo_code_response =
  pcs_id :: string
  pcs_code :: string
  pcs_discount_type :: string
  pcs_discount_value :: money
  pcs_min_order_amount :: money
  pcs_max_uses :: int
  pcs_current_uses :: int
  pcs_valid_from :: instant
  pcs_valid_until :: instant
  pcs_active :: bool

definition to_promo_code_response :: "promo_code \<Rightarrow> promo_code_response" where
  "to_promo_code_response pc =
     \<lparr>pcs_id = pc_id pc, pcs_code = pc_code pc, pcs_discount_type = discount_type_value (pc_discount_type pc),
      pcs_discount_value = pc_discount_value pc, pcs_min_order_amount = pc_min_order_amount pc,
      pcs_max_uses = pc_max_uses pc, pcs_current_uses = pc_current_uses pc,
      pcs_valid_from = pc_valid_from pc, pcs_valid_until = pc_valid_until pc, pcs_active = pc_active pc\<rparr>"

definition create_promo_code ::
  "(money \<Rightarrow> money) \<Rightarrow> instant \<Rightarrow> uuid \<Rightarrow> promo_code_create \<Rightarrow> session \<Rightarrow> (exn + promo_code_response) \<times> session" where
  "create_promo_code numeric now new_id payload s =
     (case discount_type_of (enum_value (pcr_discount_type payload)) of
        Inl e \<Rightarrow> (Inl e, s)
      | Inr dt \<Rightarrow>
          (let promo = \<lparr>pc_id = new_id, pc_code = pcr_code payload, pc_discount_type = dt,
                        pc_discount_value = numeric (pcr_discount_value payload),
                        pc_min_order_amount = numeric (pcr_min_order_amount payload),
                        pc_max_uses = pcr_max_uses payload, pc_current_uses = 0,
                        pc_valid_from = pcr_valid_from payload, pc_valid_until = pcr_valid_until payload,
                        pc_active = (case pcr_active payload of Some b \<Rightarrow> b | None \<Rightarrow> True),
                        pc_created_at = now\<rparr>
           in commit_refresh now (\<lambda>d. find_by pc_id (pc_id promo) (promo_codes d)) to_promo_code_response
                (s\<lparr>work := (work s)\<lparr>promo_codes := promo_codes (work s) @ [promo]\<rparr>\<rparr>)))"

section \<open>Lemmas on the discount\<close>

lemma validate_promo_basic_Inr:
  "validate_promo_basic now allow promo = Inr () \<longleftrightarrow>
     pc_active promo \<and> (allow \<or> pc_current_uses promo < pc_max_uses promo) \<and>
     pc_valid_from promo \<le> now \<and> now \<le> pc_valid_until promo"
  by (auto simp: validate_promo_basic_def Let_def not_le)

lemma calculate_discount_min:
  "calculate_discount promo amt =
     (if amt < pc_min_order_amount promo
      then Inl (ApiError ''PROMO_CODE_MIN_AMOUNT'' 422 ''Order amount below promo minimum'' None)
      else Inr (case pc_discount_type promo of
                  PERCENTAGE \<Rightarrow> min (amt * pc_discount_value promo / 100) (amt * (7 / 10))
                | FIXED_AMOUNT \<Rightarrow> min (pc_discount_value promo) amt))"
  by (auto simp: calculate_discount_def Let_def min_def split: discount_type.splits)

lemma discount_bounds:
  assumes "calculate_discount promo amt = Inr discount"
    and "0 \<le> amt" and "0 \<le> pc_discount_value promo"
  shows "0 \<le> discount" and "discount \<le> amt"
    and "pc_discount_type promo = PERCENTAGE \<Longrightarrow> discount \<le> amt * (7 / 10)"
proof -
  have d: "discount = (case pc_discount_type promo of
                  PERCENTAGE \<Rightarrow> min (amt * pc_discount_value promo / 100) (amt * (7 / 10))
                | FIXED_AMOUNT \<Rightarrow> min (pc_discount_value promo) amt)"
    using assms(1) by (simp add: calculate_discount_min split: if_splits)
  show "0 \<le> discount" using d assms(2,3) by (simp split: discount_type.splits)
  have cap: "amt * (7 / 10) \<le> amt" using assms(2) by simp
  show "discount \<le> amt" using d cap by (auto simp: min_le_iff_disj split: discount_type.splits)
  show "pc_discount_type promo = PERCENTAGE \<Longrightarrow> discount \<le> amt * (7 / 10)" using d by simp
qed

section \<open>Lemmas on creation\<close>

definition new_promo_code ::
  "(money \<Rightarrow> money) \<Rightarrow> instant \<Rightarrow> uuid \<Rightarrow> promo_code_create \<Rightarrow> discount_type \<Rightarrow> promo_code" where
  "new_promo_code numeric now new_id payload dt =
     \<lparr>pc_id = new_id, pc_code = pcr_code payload, pc_discount_type = dt,
      pc_discount_value = numeric (pcr_discount_value payload),
      pc_min_order_amount = numeric (pcr_min_order_amount payload),
      pc_max_uses = pcr_max_uses payload, pc_current_uses = 0,
      pc_valid_from = pcr_valid_from payload, pc_valid_until = pcr_valid_until payload,
      pc_active = (case pcr_active payload of Some b \<Rightarrow> b | None \<Rightarrow> True), pc_created_at = now\<rparr>"

definition add_promo_code :: "promo_code \<Rightarrow> db \<Rightarrow> db" where
  "add_promo_code pc d = d\<lparr>promo_codes := promo_codes d @ [pc]\<rparr>"

lemma create_promo_code_cases:
  assumes "create_promo_code numeric now new_id payload s = (r, s')" and "clean s"
  shows "(durable s' = durable s \<and> (\<exists>e. r = Inl e)) \<or>
    (\<exists>dt. discount_type_of (enum_value (pcr_discount_type payload)) = Inr dt \<and>
       commit_refresh now (\<lambda>d. find_by pc_id new_id (promo_codes d)) to_promo_code_response
         (s\<lparr>work := add_promo_code (new_promo_code numeric now new_id payload dt) (durable s)\<rparr>) = (r, s'))"
  using assms
  by (auto simp: create_promo_code_def new_promo_code_def add_promo_code_def clean_def Let_def split: sum.splits)

lemma create_promo_code_Inr:
  assumes "clean s" and "create_promo_code numeric now new_id payload s = (Inr resp, s')"
  obtains dt where "discount_type_of (enum_value (pcr_discount_type payload)) = Inr dt"
    and "durable s' = add_promo_code (new_promo_code numeric now new_id payload dt) (durable s)"
    and "db_fits (durable s')"
    and "resp = to_promo_code_response (new_promo_code numeric now new_id payload dt)"
proof -
  let ?n = "new_promo_code numeric now new_id payload"
  from create_promo_code_cases [OF assms(2,1)] obtain dt where
      ok: "discount_type_of (enum_value (pcr_discount_type payload)) = Inr dt"
      and cr: "commit_refresh now (\<lambda>d. find_by pc_id new_id (promo_codes d)) to_promo_code_response
         (s\<lparr>work := add_promo_code (?n dt) (durable s)\<rparr>) = (Inr resp, s')"
    by blast
  from cr obtain p where p: "find_by pc_id new_id (promo_codes (durable s')) = Some p" "resp = to_promo_code_response p"
    and d: "durable s' = add_promo_code (?n dt) (durable s)" and fits: "db_fits (durable s')"
    by (rule commit_refresh_Inr) (use assms(1) in \<open>auto simp: clean_def add_promo_code_def touch_def map_idI\<close>)
  have "p = ?n dt"
    using p(1) distinct_find_by [OF db_fits_distinct(5) [OF fits], of "?n dt"]
    by (simp add: d add_promo_code_def new_promo_code_def)
  with that ok d fits p(2) show thesis by blast
qed

lemma create_promo_code_Inl:
  assumes "clean s" and "create_promo_code numeric now new_id payload s = (Inl e, s')"
  shows "durable s' = durable s"
  using create_promo_code_cases [OF assms(2,1)]
  by (auto dest!: commit_refresh_Inl simp: add_promo_code_def new_promo_code_def find_by_append split: option.splits)

interpretation create_promo_code_op: db_operation "create_promo_code numeric now new_id payload"
  for numeric now new_id payload
  by unfold_locales (blast dest: create_promo_code_Inl, blast elim: create_promo_code_Inr)

end
