(* ===== verification/Stock.thy ===== *)
theory Stock
  imports Promo
begin

text \<open>
  The parts that creating, changing and canceling an order share: the quantities requested per
  product, the products loaded for them, the checks on those products, and the movements of stock
  and of promo code uses. Both kinds of movement are instances of \<open>additive_store\<close>.
\<close>

section \<open>Requested quantities\<close>

record order_item_create =
  oc_product_id :: uuid
  oc_quantity :: int

text \<open>
  \<^verbatim>\<open>
    requested: dict[str, int] = {}
    for item in payload.items:
        product_id = str(item.product_id)
        requested[product_id] = requested.get(product_id, 0) + item.quantity
  \<close>
\<close>

definition requested_quantities :: "order_item_create list \<Rightarrow> (uuid \<times> int) list" where
  "requested_quantities items = fold (\<lambda>item. dict_bump (oc_product_id item) (oc_quantity item)) items []"

definition quantity_of :: "order_item_create list \<Rightarrow> uuid \<Rightarrow> int" where
  "quantity_of items k = (\<Sum>item\<leftarrow>items. if oc_product_id item = k then oc_quantity item else 0)"

definition item_quantity_of :: "order_item list \<Rightarrow> uuid \<Rightarrow> int" where
  "item_quantity_of items k = (\<Sum>item\<leftarrow>items. if oi_product_id item = k then oi_quantity item else 0)"

lemma requested_quantities_get: "dict_get (requested_quantities items) k = quantity_of items k"
  by (simp add: requested_quantities_def quantity_of_def requested.amount_fold) (simp add: dict_get_def)

lemma requested_quantities_keys: "fst ` set (requested_quantities items) = oc_product_id ` set items"
proof -
  have "fst ` set (fold (\<lambda>item. dict_bump (oc_product_id item) (oc_quantity item)) items d) =
      fst ` set d \<union> oc_product_id ` set items" for d
    by (induction items arbitrary: d) (auto simp: dict_bump_keys)
  then show ?thesis by (simp add: requested_quantities_def)
qed

lemma requested_quantities_distinct: "distinct (map fst (requested_quantities items))"
proof -
  have "distinct (map fst (fold (\<lambda>item. dict_bump (oc_product_id item) (oc_quantity item)) items d))"
    if "distinct (map fst d)" for d
    using that by (induction items arbitrary: d) (auto intro: dict_bump_distinct)
  then show ?thesis by (simp add: requested_quantities_def)
qed

lemma requested_quantities_mem:
  assumes "(k, n) \<in> set (requested_quantities items)"
  shows "n = quantity_of items k"
  using dict_get_distinct [OF requested_quantities_distinct assms] by (simp add: requested_quantities_get)

lemma quantity_of_absent: "k \<notin> oc_product_id ` set items \<Longrightarrow> quantity_of items k = 0"
  by (simp add: quantity_of_def sum_list_absent)

lemma quantity_of_nonneg: "(\<And>item. item \<in> set items \<Longrightarrow> 0 \<le> oc_quantity item) \<Longrightarrow> 0 \<le> quantity_of items k"
  unfolding quantity_of_def by (rule sum_list_nonneg_if)

section \<open>The products of a request\<close>

text \<open>
  \<open>db.query(Product).filter(Product.id.in_(ids)).with_for_update().all()\<close>, as the dictionary from
  \<open>str(product.id)\<close> (the primary key: no two rows collide) to the row.
\<close>

definition fetch_product_map :: "product list \<Rightarrow> uuid list \<Rightarrow> uuid \<Rightarrow> product option" where
  "fetch_product_map rows ids k = find_by p_id k (filter (\<lambda>p. p_id p \<in> set ids) rows)"

lemma fetch_product_map_mem [simp]:
  "k \<in> set ids \<Longrightarrow> fetch_product_map rows ids k = find_by p_id k rows"
  by (induction rows) (auto simp: fetch_product_map_def)

fun check_products :: "(uuid \<Rightarrow> product option) \<Rightarrow> uuid list \<Rightarrow> exn + unit" where
  "check_products product_map [] = Inr ()"
| "check_products product_map (pid # rest) =
     (case product_map pid of
        None \<Rightarrow> Inl (ApiError ''PRODUCT_NOT_FOUND'' 404 ''Product not found'' None)
      | Some product \<Rightarrow>
          if p_status product \<noteq> ACTIVE then Inl (ApiError ''PRODUCT_INACTIVE'' 409 ''Product inactive'' None)
          else check_products product_map rest)"

text \<open>The requested products that are short of stock, in the order of the request.\<close>

definition shortage :: "uuid \<Rightarrow> int \<Rightarrow> int \<Rightarrow> json" where
  "shortage pid qty available =
     JDict [(''product_id'', JStr pid), (''requested'', JInt qty), (''available'', JInt available)]"

fun insufficient_items :: "(uuid \<Rightarrow> product option) \<Rightarrow> (uuid \<times> int) list \<Rightarrow> exn + json list" where
  "insufficient_items product_map [] = Inr []"
| "insufficient_items product_map ((pid, qty) # rest) =
     (case product_map pid of
        None \<Rightarrow> Inl (KeyError pid)
      | Some product \<Rightarrow>
          (case insufficient_items product_map rest of
             Inl e \<Rightarrow> Inl e
           | Inr others \<Rightarrow>
               Inr (if p_stock product < qty then shortage pid qty (p_stock product) # others else others)))"

definition check_stock :: "(uuid \<Rightarrow> product option) \<Rightarrow> (uuid \<times> int) list \<Rightarrow> exn + unit" where
  "check_stock product_map requested =
     (case check_products product_map (map fst requested) of
        Inl e \<Rightarrow> Inl e
      | Inr _ \<Rightarrow>
          (case insufficient_items product_map requested of
             Inl e \<Rightarrow> Inl e
           | Inr insufficient \<Rightarrow>
               if insufficient \<noteq> []
               then Inl (ApiError ''INSUFFICIENT_STOCK'' 409 ''Insufficient stock''
                           (Some (JDict [(''items'', JList insufficient)])))
               else Inr ()))"

lemma check_products_Inr:
  "check_products m ids = Inr () \<longleftrightarrow> (\<forall>k\<in>set ids. \<exists>p. m k = Some p \<and> p_status p = ACTIVE)"
  by (induction ids) (auto split: option.splits)

lemma insufficient_items_Inr:
  "(\<And>k. k \<in> fst ` set req \<Longrightarrow> m k \<noteq> None) \<Longrightarrow>
     insufficient_items m req =
       Inr (map (\<lambda>(k, n). shortage k n (p_stock (the (m k))))
              (filter (\<lambda>(k, n). p_stock (the (m k)) < n) req))"
proof (induction req)
  case Nil
  then show ?case by simp
next
  case (Cons kn req)
  obtain k n where kn: "kn = (k, n)" by (cases kn)
  with Cons.prems obtain p where "m k = Some p" by fastforce
  with Cons kn show ?case by simp
qed

lemma check_stock_Inr:
  "check_stock m req = Inr () \<longleftrightarrow>
     (\<forall>(k, n)\<in>set req. \<exists>p. m k = Some p \<and> p_status p = ACTIVE \<and> n \<le> p_stock p)"
proof (cases "check_products m (map fst req) = Inr ()")
  case True
  then have all: "\<forall>k\<in>fst ` set req. \<exists>p. m k = Some p \<and> p_status p = ACTIVE"
    by (simp add: check_products_Inr)
  then have ins: "insufficient_items m req =
      Inr (map (\<lambda>(k, n). shortage k n (p_stock (the (m k)))) (filter (\<lambda>(k, n). p_stock (the (m k)) < n) req))"
    by (intro insufficient_items_Inr) fastforce
  have "check_stock m req = Inr () \<longleftrightarrow> (\<forall>(k, n)\<in>set req. n \<le> p_stock (the (m k)))"
    using True by (force simp: check_stock_def ins filter_empty_conv not_less)
  also have "\<dots> \<longleftrightarrow> (\<forall>(k, n)\<in>set req. \<exists>p. m k = Some p \<and> p_status p = ACTIVE \<and> n \<le> p_stock p)"
    using all by fastforce
  finally show ?thesis .
next
  case False
  then obtain e where e: "check_products m (map fst req) = Inl e"
    by (cases "check_products m (map fst req)") auto
  from False obtain k where "k \<in> fst ` set req" and none: "\<And>p. m k = Some p \<Longrightarrow> p_status p \<noteq> ACTIVE"
    by (auto simp: check_products_Inr)
  then obtain n where "(k, n) \<in> set req" by auto
  with none e show ?thesis by (force simp: check_stock_def)
qed

section \<open>Movements of stock\<close>

definition add_stock :: "uuid \<Rightarrow> int \<Rightarrow> product list \<Rightarrow> product list" where
  "add_stock pid n rows = modify_by p_id pid (\<lambda>p. p\<lparr>p_stock := p_stock p + n\<rparr>) rows"

text \<open>\<open>product_map[product_id].stock -= qty\<close> for every requested product.\<close>

definition deduct_stock :: "(uuid \<times> int) list \<Rightarrow> product list \<Rightarrow> product list" where
  "deduct_stock requested rows = fold (\<lambda>kn. add_stock (fst kn) (- snd kn)) requested rows"

text \<open>\<open>product.stock += item.quantity\<close> for every item of an order whose product is there.\<close>

definition restock :: "order_item list \<Rightarrow> product list \<Rightarrow> product list" where
  "restock items rows = fold (\<lambda>item. add_stock (oi_product_id item) (oi_quantity item)) items rows"

definition stock_of :: "product list \<Rightarrow> uuid \<Rightarrow> int" where
  "stock_of rows k = (case find_by p_id k rows of None \<Rightarrow> 0 | Some p \<Rightarrow> p_stock p)"

lemma add_stock_lookup:
  "find_by p_id k (add_stock pid n rows) =
     (if k = pid then map_option (\<lambda>p. p\<lparr>p_stock := p_stock p + n\<rparr>) (find_by p_id k rows) else find_by p_id k rows)"
  by (simp add: add_stock_def table_simps)

interpretation stock: additive_store "\<lambda>rows k. k \<in> p_id ` set rows" stock_of add_stock
proof
  fix k n s and k' :: uuid
  show "k' \<in> p_id ` set s \<Longrightarrow> k' \<in> p_id ` set (add_stock k n s)"
    by (auto simp: find_by_in_keys add_stock_lookup)
  show "k' \<in> p_id ` set s \<Longrightarrow> stock_of (add_stock k n s) k' = stock_of s k' + (if k' = k then n else 0)"
    by (auto simp: find_by_in_keys stock_of_def add_stock_lookup)
qed

lemma stock_deduct:
  assumes "k \<in> p_id ` set rows"
  shows "stock_of (deduct_stock (requested_quantities items) rows) k = stock_of rows k - quantity_of items k"
proof -
  let ?d = "requested_quantities items"
  have "(\<Sum>x\<leftarrow>?d. if fst x = k then - snd x else 0) = - (\<Sum>x\<leftarrow>?d. if fst x = k then snd x else 0)"
    by (induction ?d) (auto simp: uminus_sum_list_map o_def intro!: arg_cong [where f = sum_list])
  also have "\<dots> = - quantity_of items k"
    by (simp add: dict_sum [OF requested_quantities_distinct] requested_quantities_get)
  finally show ?thesis
    using assms by (simp add: deduct_stock_def stock.amount_fold)
qed

lemma stock_restock:
  "k \<in> p_id ` set rows \<Longrightarrow> stock_of (restock items rows) k = stock_of rows k + item_quantity_of items k"
  by (simp add: restock_def stock.amount_fold item_quantity_of_def)

text \<open>A movement of stock changes the stock column only.\<close>

definition same_but_stock :: "product \<Rightarrow> product \<Rightarrow> bool" where
  "same_but_stock p q \<longleftrightarrow> q = p\<lparr>p_stock := p_stock q\<rparr>"

lemma same_but_stock_refl [simp]: "same_but_stock p p"
  by (simp add: same_but_stock_def)

lemma same_but_stock_trans: "same_but_stock p q \<Longrightarrow> same_but_stock q r \<Longrightarrow> same_but_stock p r"
  unfolding same_but_stock_def by (metis product.surjective product.update_convs(5))

lemma same_but_stockD:
  assumes "same_but_stock p q"
  shows "p_id q = p_id p" and "p_name q = p_name p" and "p_description q = p_description p"
    and "p_price q = p_price p" and "p_category q = p_category p" and "p_status q = p_status p"
    and "p_seller_id q = p_seller_id p" and "p_created_at q = p_created_at p" and "p_updated_at q = p_updated_at p"
  using assms by (simp_all add: same_but_stock_def) (metis product.select_convs product.update_convs(5) product.surjective)+

lemma add_stock_same: "list_all2 same_but_stock rows (add_stock pid n rows)"
  by (auto simp: add_stock_def modify_by_def list_all2_map2 same_but_stock_def intro!: list_all2_refl)

lemma fold_add_stock_same: "list_all2 same_but_stock rows (fold (\<lambda>x. add_stock (f x) (g x)) xs rows)"
proof (induction xs arbitrary: rows)
  case Nil
  show ?case by (simp add: list_all2_refl)
next
  case (Cons x xs)
  show ?case
    using list_all2_trans [OF same_but_stock_trans add_stock_same Cons.IH] by simp
qed

lemma deduct_stock_same: "list_all2 same_but_stock rows (deduct_stock req rows)"
  unfolding deduct_stock_def by (rule fold_add_stock_same)

lemma restock_same: "list_all2 same_but_stock rows (restock items rows)"
  unfolding restock_def by (rule fold_add_stock_same)

lemma same_rows_map:
  assumes "list_all2 same_but_stock rows rows'" and "\<And>p q. same_but_stock p q \<Longrightarrow> f q = f p"
  shows "map f rows' = map f rows"
  using assms by (induction rule: list_all2_induct) auto

lemma same_rows_keys: "list_all2 same_but_stock rows rows' \<Longrightarrow> map p_id rows' = map p_id rows"
  by (rule same_rows_map) (simp_all add: same_but_stockD)

lemma same_rows_lookup:
  assumes "list_all2 same_but_stock rows rows'"
  shows "rel_option same_but_stock (find_by p_id k rows) (find_by p_id k rows')"
  using assms by (induction rule: list_all2_induct) (auto dest: same_but_stockD)

section \<open>Uses of a promo code\<close>

definition add_uses :: "uuid \<Rightarrow> int \<Rightarrow> promo_code list \<Rightarrow> promo_code list" where
  "add_uses pid n rows = modify_by pc_id pid (\<lambda>pc. pc\<lparr>pc_current_uses := pc_current_uses pc + n\<rparr>) rows"

definition uses_of :: "promo_code list \<Rightarrow> uuid \<Rightarrow> int" where
  "uses_of rows k = (case find_by pc_id k rows of None \<Rightarrow> 0 | Some pc \<Rightarrow> pc_current_uses pc)"

lemma add_uses_lookup:
  "find_by pc_id k (add_uses pid n rows) =
     (if k = pid then map_option (\<lambda>pc. pc\<lparr>pc_current_uses := pc_current_uses pc + n\<rparr>) (find_by pc_id k rows)
      else find_by pc_id k rows)"
  by (simp add: add_uses_def table_simps)

interpretation promo_uses: additive_store "\<lambda>rows k. k \<in> pc_id ` set rows" uses_of add_uses
proof
  fix k n s and k' :: uuid
  show "k' \<in> pc_id ` set s \<Longrightarrow> k' \<in> pc_id ` set (add_uses k n s)"
    by (auto simp: find_by_in_keys add_uses_lookup)
  show "k' \<in> pc_id ` set s \<Longrightarrow> uses_of (add_uses k n s) k' = uses_of s k' + (if k' = k then n else 0)"
    by (auto simp: find_by_in_keys uses_of_def add_uses_lookup)
qed

section \<open>The items of an order and their total\<close>

text \<open>
  The loop over \<open>payload.items\<close> that adds up \<open>total_amount\<close> and collects the new items. \<open>gen k\<close> is
  the id that the k-th new item is given.
\<close>

fun collect_items ::
  "(money \<Rightarrow> money) \<Rightarrow> (uuid \<Rightarrow> product option) \<Rightarrow> (nat \<Rightarrow> uuid) \<Rightarrow> nat \<Rightarrow> order_item_create list \<Rightarrow>
     money \<Rightarrow> order_item list \<Rightarrow> exn + money \<times> order_item list" where
  "collect_items numeric product_map gen k [] total_amount order_items = Inr (total_amount, order_items)"
| "collect_items numeric product_map gen k (item # rest) total_amount order_items =
     (case product_map (oc_product_id item) of
        None \<Rightarrow> Inl (KeyError (oc_product_id item))
      | Some product \<Rightarrow>
          (let price = p_price product in
           collect_items numeric product_map gen (Suc k) rest
             (total_amount + price * of_int (oc_quantity item))
             (order_items @ [\<lparr>oi_id = gen k, oi_product_id = p_id product, oi_quantity = oc_quantity item,
                              oi_price_at_order = numeric price\<rparr>])))"

definition price_in :: "(uuid \<Rightarrow> product option) \<Rightarrow> uuid \<Rightarrow> money" where
  "price_in m k = (case m k of None \<Rightarrow> 0 | Some p \<Rightarrow> p_price p)"

definition gross_amount :: "(uuid \<Rightarrow> product option) \<Rightarrow> order_item_create list \<Rightarrow> money" where
  "gross_amount m items = (\<Sum>item\<leftarrow>items. price_in m (oc_product_id item) * of_int (oc_quantity item))"

definition made_items ::
  "(money \<Rightarrow> money) \<Rightarrow> (uuid \<Rightarrow> product option) \<Rightarrow> (nat \<Rightarrow> uuid) \<Rightarrow> nat \<Rightarrow> order_item_create list \<Rightarrow> order_item list" where
  "made_items numeric m gen k items =
     map (\<lambda>(j, item). \<lparr>oi_id = gen j, oi_product_id = oc_product_id item, oi_quantity = oc_quantity item,
                       oi_price_at_order = numeric (price_in m (oc_product_id item))\<rparr>)
       (zip [k..<k + length items] items)"

lemma made_items_Nil [simp]: "made_items numeric m gen k [] = []"
  by (simp add: made_items_def)

lemma made_items_Cons:
  "made_items numeric m gen k (item # items) =
     \<lparr>oi_id = gen k, oi_product_id = oc_product_id item, oi_quantity = oc_quantity item,
      oi_price_at_order = numeric (price_in m (oc_product_id item))\<rparr> # made_items numeric m gen (Suc k) items"
  by (simp add: made_items_def upt_conv_Cons del: upt_Suc)

lemma collect_items_Inr:
  assumes "\<And>k p. m k = Some p \<Longrightarrow> p_id p = k" and "\<forall>item\<in>set items. m (oc_product_id item) \<noteq> None"
  shows "collect_items numeric m gen k items amt acc =
     Inr (amt + gross_amount m items, acc @ made_items numeric m gen k items)"
  using assms(2)
proof (induction items arbitrary: k amt acc)
  case Nil
  then show ?case by (simp add: gross_amount_def made_items_def)
next
  case (Cons item items)
  from Cons.prems obtain p where p: "m (oc_product_id item) = Some p" by auto
  with assms(1) have "p_id p = oc_product_id item" by simp
  with p Cons show ?case
    by (simp add: gross_amount_def made_items_Cons price_in_def add.assoc Let_def)
qed

lemma made_items_quantity: "item_quantity_of (made_items numeric m gen k items) pid = quantity_of items pid"
proof (induction items arbitrary: k)
  case Nil
  show ?case by (simp add: made_items_def item_quantity_of_def quantity_of_def)
next
  case (Cons item items)
  then show ?case by (simp add: made_items_Cons item_quantity_of_def quantity_of_def)
qed

lemma made_items_length [simp]: "length (made_items numeric m gen k items) = length items"
  by (simp add: made_items_def)

lemma made_items_products: "oi_product_id ` set (made_items numeric m gen k items) = oc_product_id ` set items"
  by (induction items arbitrary: k) (simp_all add: made_items_Cons)

lemma gross_amount_nonneg:
  assumes "\<And>k p. m k = Some p \<Longrightarrow> 0 \<le> p_price p" and "\<And>item. item \<in> set items \<Longrightarrow> 0 \<le> oc_quantity item"
  shows "0 \<le> gross_amount m items"
  using assms(2)
proof (induction items)
  case Nil
  show ?case by (simp add: gross_amount_def)
next
  case (Cons item items)
  have "0 \<le> price_in m (oc_product_id item)"
    using assms(1) by (auto simp: price_in_def split: option.splits)
  with Cons show ?case
    by (simp add: gross_amount_def)
qed

end
