(* ===== verification/Orders.thy ===== *)
theory Orders
  imports Stock
begin

text \<open>
  The order endpoints of \<open>main.py\<close>. Each writing handler is a body, a function from the session's
  data to an exception or a result with the new data, inside the transaction frame of
  \<open>with_transaction\<close>. The two readings of the clock in a handler (rate limit, promo validity) and
  the time of the database transaction are separate fields of \<open>clock\<close>.
\<close>

record clock =
  rate_now :: instant
  promo_now :: instant
  db_now :: instant

text \<open>The ids that \<open>uuid.uuid4\<close> gives to the rows a request adds.\<close>

record new_ids =
  new_order_id :: uuid
  new_item_id :: "nat \<Rightarrow> uuid"
  new_operation_id :: uuid

record order_create_request =
  ocr_items :: "order_item_create list"
  ocr_promo_code :: "string option"

section \<open>Responses\<close>

record order_item_response =
  oir_id :: string
  oir_product_id :: string
  oir_quantity :: int
  oir_price_at_order :: money

record order_response =
  or_id :: string
  or_user_id :: string
  or_status :: string
  or_promo_code_id :: "string option"
  or_total_amount :: money
  or_discount_amount :: money
  or_items :: "order_item_response list"
  or_created_at :: instant
  or_updated_at :: instant

definition to_order_item_response :: "order_item \<Rightarrow> order_item_response" where
  "to_order_item_response item =
     \<lparr>oir_id = oi_id item, oir_product_id = oi_product_id item, oir_quantity = oi_quantity item,
      oir_price_at_order = oi_price_at_order item\<rparr>"

definition to_order_response :: "order_row \<Rightarrow> order_response" where
  "to_order_response od =
     \<lparr>or_id = o_id od, or_user_id = o_user_id od, or_status = order_status_value (o_status od),
      or_promo_code_id = o_promo_code_id od, or_total_amount = o_total_amount od,
      or_discount_amount = o_discount_amount od, or_items = map to_order_item_response (o_items od),
      or_created_at = o_created_at od, or_updated_at = o_updated_at od\<rparr>"

section \<open>Guards\<close>

definition require_order_owner :: "order_row \<Rightarrow> user \<Rightarrow> exn + unit" where
  "require_order_owner od u =
     (if u_role u \<noteq> ADMIN \<and> o_user_id od \<noteq> u_id u
      then Inl (ApiError ''ORDER_OWNERSHIP_VIOLATION'' 403 ''Order ownership violation'' None) else Inr ())"

definition check_rate_limit ::
  "settings \<Rightarrow> instant \<Rightarrow> db \<Rightarrow> uuid \<Rightarrow> operation_type \<Rightarrow> exn + unit" where
  "check_rate_limit cfg now d user_id op_type =
     (case first_row (order_by_desc uo_created_at
             (filter (\<lambda>uo. uo_user_id uo = user_id \<and> uo_operation_type uo = op_type) (user_operations d))) of
        None \<Rightarrow> Inr ()
      | Some last_op \<Rightarrow>
          (let delta = minutes (order_rate_limit_minutes cfg) in
           if now - uo_created_at last_op < delta
           then Inl (ApiError ''ORDER_LIMIT_EXCEEDED'' 429 ''Order rate limit exceeded'' None)
           else Inr ()))"

definition active_orders :: "db \<Rightarrow> uuid \<Rightarrow> order_row list" where
  "active_orders d user_id =
     filter (\<lambda>od. o_user_id od = user_id \<and> o_status od \<in> {CREATED, PAYMENT_PENDING}) (orders d)"

section \<open>Rows that are added or written\<close>

text \<open>The money columns of an order are \<open>Numeric(12, 2)\<close>.\<close>

definition write_order :: "(money \<Rightarrow> money) \<Rightarrow> order_row \<Rightarrow> order_row" where
  "write_order numeric od =
     od\<lparr>o_total_amount := numeric (o_total_amount od), o_discount_amount := numeric (o_discount_amount od)\<rparr>"

definition add_order :: "order_row \<Rightarrow> db \<Rightarrow> db" where
  "add_order od d = d\<lparr>orders := orders d @ [od]\<rparr>"

definition put_order :: "order_row \<Rightarrow> db \<Rightarrow> db" where
  "put_order od d = d\<lparr>orders := replace_by o_id od (orders d)\<rparr>"

definition log_operation :: "uuid \<Rightarrow> uuid \<Rightarrow> operation_type \<Rightarrow> instant \<Rightarrow> db \<Rightarrow> db" where
  "log_operation opid user_id op_type now d =
     d\<lparr>user_operations := user_operations d @
         [\<lparr>uo_id = opid, uo_user_id = user_id, uo_operation_type = op_type, uo_created_at = now\<rparr>]\<rparr>"

section \<open>POST /orders\<close>

text \<open>
  The promo code of a new order: \<open>if payload.promo_code\<close> is false for a missing and for an empty
  code (\<open>truthy\<close>). \<open>od\<close> is the order built so far.
\<close>

definition truthy :: "string option \<Rightarrow> string option" where
  "truthy s = (case s of None \<Rightarrow> None | Some c \<Rightarrow> if c = [] then None else Some c)"

definition apply_promo_code ::
  "instant \<Rightarrow> string option \<Rightarrow> money \<Rightarrow> order_row \<Rightarrow> db \<Rightarrow> exn + order_row \<times> db" where
  "apply_promo_code now promo_code total_amount od d =
     (case truthy promo_code of
        None \<Rightarrow> Inr (od, d)
      | Some code \<Rightarrow>
          (case one_or_none (filter (\<lambda>pc. pc_code pc = code) (promo_codes d)) of
             Inl e \<Rightarrow> Inl e
           | Inr None \<Rightarrow> Inl (ApiError ''PROMO_CODE_INVALID'' 422 ''Promo code invalid'' None)
           | Inr (Some promo) \<Rightarrow>
               (case validate_promo_basic now False promo of
                  Inl e \<Rightarrow> Inl e
                | Inr _ \<Rightarrow>
                    (case calculate_discount promo total_amount of
                       Inl e \<Rightarrow> Inl e
                     | Inr discount \<Rightarrow>
                         Inr (od\<lparr>o_promo_code_id := Some (pc_id promo), o_discount_amount := discount,
                                 o_total_amount := total_amount - discount\<rparr>,
                              d\<lparr>promo_codes := add_uses (pc_id promo) 1 (promo_codes d)\<rparr>)))))"

definition create_order_body ::
  "settings \<Rightarrow> (money \<Rightarrow> money) \<Rightarrow> clock \<Rightarrow> new_ids \<Rightarrow> order_create_request \<Rightarrow> user \<Rightarrow>
     db \<Rightarrow> exn + uuid \<times> db" where
  "create_order_body cfg numeric clk ids payload user d =
     (let requested = requested_quantities (ocr_items payload) in
      case check_rate_limit cfg (rate_now clk) d (u_id user) CREATE_ORDER of
        Inl e \<Rightarrow> Inl e
      | Inr _ \<Rightarrow>
          if first_row (active_orders d (u_id user)) \<noteq> None
          then Inl (ApiError ''ORDER_HAS_ACTIVE'' 409 ''User has active order'' None)
          else
            (let product_map = fetch_product_map (products d) (map fst requested) in
             case check_stock product_map requested of
               Inl e \<Rightarrow> Inl e
             | Inr _ \<Rightarrow>
                 (let d1 = d\<lparr>products := deduct_stock requested (products d)\<rparr>;
                      product_map1 = fetch_product_map (products d1) (map fst requested)
                  in case collect_items numeric product_map1 (new_item_id ids) 0 (ocr_items payload) 0 [] of
                       Inl e \<Rightarrow> Inl e
                     | Inr (total_amount, order_items) \<Rightarrow>
                         (let od = \<lparr>o_id = new_order_id ids, o_user_id = u_id user, o_status = CREATED,
                                    o_promo_code_id = None, o_total_amount = total_amount,
                                    o_discount_amount = 0, o_items = [],
                                    o_created_at = db_now clk, o_updated_at = db_now clk\<rparr>
                          in case apply_promo_code (promo_now clk) (ocr_promo_code payload) total_amount od d1 of
                               Inl e \<Rightarrow> Inl e
                             | Inr (od1, d2) \<Rightarrow>
                                 (let od2 = write_order numeric (od1\<lparr>o_items := order_items\<rparr>)
                                  in Inr (o_id od2,
                                          log_operation (new_operation_id ids) (u_id user) CREATE_ORDER (db_now clk)
                                            (add_order od2 d2)))))))"

text \<open>The end of the writing handlers: \<open>db.refresh(order)\<close> and the response.\<close>

definition order_result :: "(exn + uuid) \<times> session \<Rightarrow> (exn + order_response) \<times> session" where
  "order_result m =
     and_then m (\<lambda>oid s1. and_then (refresh (\<lambda>d. find_by o_id oid (orders d)) s1)
                            (\<lambda>od s2. (Inr (to_order_response od), s2)))"

definition create_order ::
  "settings \<Rightarrow> (money \<Rightarrow> money) \<Rightarrow> clock \<Rightarrow> new_ids \<Rightarrow> order_create_request \<Rightarrow> user \<Rightarrow>
     session \<Rightarrow> (exn + order_response) \<times> session" where
  "create_order cfg numeric clk ids payload user s =
     order_result (with_transaction (db_now clk) s (create_order_body cfg numeric clk ids payload user))"

section \<open>GET /orders/{id}\<close>

definition get_order :: "uuid \<Rightarrow> user \<Rightarrow> session \<Rightarrow> (exn + order_response) \<times> session" where
  "get_order oid user s0 =
     (let s = autobegin s0 in
      case one_or_none (filter (\<lambda>od. o_id od = oid) (orders (work s))) of
        Inl e \<Rightarrow> (Inl e, s)
      | Inr None \<Rightarrow> (Inl (ApiError ''ORDER_NOT_FOUND'' 404 ''Order not found'' None), s)
      | Inr (Some od) \<Rightarrow>
          (case require_order_owner od user of
             Inl e \<Rightarrow> (Inl e, s)
           | Inr _ \<Rightarrow> (Inr (to_order_response od), s)))"

section \<open>PUT /orders/{id}\<close>

text \<open>The promo code of an order whose items changed.\<close>

definition reapply_promo_code ::
  "instant \<Rightarrow> money \<Rightarrow> order_row \<Rightarrow> db \<Rightarrow> exn + order_row \<times> db" where
  "reapply_promo_code now total_amount od d =
     (case o_promo_code_id od of
        None \<Rightarrow> Inr (od, d)
      | Some pid \<Rightarrow>
          (case one_or_none (filter (\<lambda>pc. pc_id pc = pid) (promo_codes d)) of
             Inl e \<Rightarrow> Inl e
           | Inr None \<Rightarrow> Inl (ApiError ''PROMO_CODE_INVALID'' 422 ''Promo code invalid'' None)
           | Inr (Some promo) \<Rightarrow>
               (case validate_promo_basic now True promo of
                  Inl e \<Rightarrow> Inl e
                | Inr _ \<Rightarrow>
                    if total_amount < pc_min_order_amount promo
                    then Inr (od\<lparr>o_promo_code_id := None\<rparr>,
                              if pc_current_uses promo > 0
                              then d\<lparr>promo_codes := add_uses (pc_id promo) (- 1) (promo_codes d)\<rparr> else d)
                    else
                      (case calculate_discount promo total_amount of
                         Inl e \<Rightarrow> Inl e
                       | Inr discount \<Rightarrow>
                           Inr (od\<lparr>o_discount_amount := discount, o_total_amount := total_amount - discount\<rparr>, d)))))"

definition update_order_body ::
  "settings \<Rightarrow> (money \<Rightarrow> money) \<Rightarrow> clock \<Rightarrow> new_ids \<Rightarrow> order_item_create list \<Rightarrow> user \<Rightarrow> order_row \<Rightarrow>
     db \<Rightarrow> exn + uuid \<times> db" where
  "update_order_body cfg numeric clk ids payload_items user od d =
     (let requested = requested_quantities payload_items in
      case check_rate_limit cfg (rate_now clk) d (u_id user) UPDATE_ORDER of
        Inl e \<Rightarrow> Inl e
      | Inr _ \<Rightarrow>
          (let product_ids = map fst requested @ map oi_product_id (o_items od);
               d1 = d\<lparr>products := restock (o_items od) (products d)\<rparr>;
               product_map = fetch_product_map (products d1) product_ids
           in case check_stock product_map requested of
                Inl e \<Rightarrow> Inl e
              | Inr _ \<Rightarrow>
                  (let d2 = d1\<lparr>products := deduct_stock requested (products d1)\<rparr>;
                       product_map2 = fetch_product_map (products d2) product_ids
                   in case collect_items numeric product_map2 (new_item_id ids) 0 payload_items 0 [] of
                        Inl e \<Rightarrow> Inl e
                      | Inr (total_amount, new_items) \<Rightarrow>
                          (let od1 = od\<lparr>o_items := new_items, o_discount_amount := 0, o_total_amount := total_amount\<rparr>
                           in case reapply_promo_code (promo_now clk) total_amount od1 d2 of
                                Inl e \<Rightarrow> Inl e
                              | Inr (od2, d3) \<Rightarrow>
                                  (let od3 = write_order numeric od2
                                   in Inr (o_id od3,
                                           log_operation (new_operation_id ids) (u_id user) UPDATE_ORDER (db_now clk)
                                             (put_order od3 d3)))))))"

text \<open>The start of the two handlers that change an order: load it, check its owner and its status.\<close>

definition with_order ::
  "uuid \<Rightarrow> user \<Rightarrow> order_status set \<Rightarrow> session \<Rightarrow> (order_row \<Rightarrow> session \<Rightarrow> (exn + 'a) \<times> session) \<Rightarrow>
     (exn + 'a) \<times> session" where
  "with_order oid user allowed s0 f =
     (let s = autobegin s0 in
      case one_or_none (filter (\<lambda>od. o_id od = oid) (orders (work s))) of
        Inl e \<Rightarrow> (Inl e, s)
      | Inr None \<Rightarrow> (Inl (ApiError ''ORDER_NOT_FOUND'' 404 ''Order not found'' None), s)
      | Inr (Some od) \<Rightarrow>
          (case require_order_owner od user of
             Inl e \<Rightarrow> (Inl e, s)
           | Inr _ \<Rightarrow>
               if o_status od \<notin> allowed
               then (Inl (ApiError ''INVALID_STATE_TRANSITION'' 409 ''Invalid state transition'' None), s)
               else f od s))"

definition update_order ::
  "settings \<Rightarrow> (money \<Rightarrow> money) \<Rightarrow> clock \<Rightarrow> new_ids \<Rightarrow> uuid \<Rightarrow> order_item_create list \<Rightarrow> user \<Rightarrow>
     session \<Rightarrow> (exn + order_response) \<times> session" where
  "update_order cfg numeric clk ids oid payload_items user s0 =
     with_order oid user {CREATED} s0
       (\<lambda>od s. order_result
          (with_transaction (db_now clk) s (update_order_body cfg numeric clk ids payload_items user od)))"

section \<open>POST /orders/{id}/cancel\<close>

definition cancel_order_body :: "order_row \<Rightarrow> db \<Rightarrow> exn + uuid \<times> db" where
  "cancel_order_body od d =
     (let d1 = d\<lparr>products := restock (o_items od) (products d)\<rparr>;
          canceled = (\<lambda>d'. Inr (o_id od, put_order (od\<lparr>o_status := CANCELED\<rparr>) d'))
      in case o_promo_code_id od of
           None \<Rightarrow> canceled d1
         | Some pid \<Rightarrow>
             (case one_or_none (filter (\<lambda>pc. pc_id pc = pid) (promo_codes d1)) of
                Inl e \<Rightarrow> Inl e
              | Inr None \<Rightarrow> canceled d1
              | Inr (Some promo) \<Rightarrow>
                  if pc_current_uses promo > 0
                  then canceled (d1\<lparr>promo_codes := add_uses (pc_id promo) (- 1) (promo_codes d1)\<rparr>)
                  else canceled d1))"

definition cancel_order ::
  "clock \<Rightarrow> uuid \<Rightarrow> user \<Rightarrow> session \<Rightarrow> (exn + order_response) \<times> session" where
  "cancel_order clk oid user s0 =
     with_order oid user {CREATED, PAYMENT_PENDING} s0
       (\<lambda>od s. order_result (with_transaction (db_now clk) s (cancel_order_body od)))"

end
