(* ===== verification/Order_Lemmas.thy ===== *)
theory Order_Lemmas
  imports Orders
begin

text \<open>
  What the order handlers do on each branch: the facts about products, money and promo codes that a
  successful body establishes, and the contract \<open>db_operation\<close> of the handlers.
\<close>

section \<open>Products and prices\<close>

abbreviation product_in :: "product list \<Rightarrow> uuid \<Rightarrow> product option" where
  "product_in rows \<equiv> (\<lambda>k. find_by p_id k rows)"

lemma fetch_key: "fetch_product_map rows ids k = Some p \<Longrightarrow> p_id p = k"
  unfolding fetch_product_map_def by (blast dest: find_by_SomeD)

lemma price_in_same:
  assumes "list_all2 same_but_stock rows rows'"
  shows "price_in (product_in rows') k = price_in (product_in rows) k"
  using same_rows_lookup [OF assms, of k]
  by (cases "find_by p_id k rows"; cases "find_by p_id k rows'")
    (auto simp: price_in_def dest: same_but_stockD)

lemma gross_amount_cong:
  "(\<And>item. item \<in> set items \<Longrightarrow> price_in m (oc_product_id item) = price_in m' (oc_product_id item)) \<Longrightarrow>
     gross_amount m items = gross_amount m' items"
  unfolding gross_amount_def by (rule arg_cong [where f = sum_list]) simp

lemma made_items_cong:
  "(\<And>item. item \<in> set items \<Longrightarrow> price_in m (oc_product_id item) = price_in m' (oc_product_id item)) \<Longrightarrow>
     made_items numeric m gen k items = made_items numeric m' gen k items"
  by (induction items arbitrary: k) (simp_all add: made_items_Cons)

lemma collect_requested:
  assumes same: "list_all2 same_but_stock rows rows'"
    and ids: "oc_product_id ` set items \<subseteq> set ids"
    and found: "\<forall>item\<in>set items. find_by p_id (oc_product_id item) rows \<noteq> None"
  shows "collect_items numeric (fetch_product_map rows' ids) gen 0 items 0 [] =
     Inr (gross_amount (product_in rows) items, made_items numeric (product_in rows) gen 0 items)"
proof -
  let ?m = "fetch_product_map rows' ids"
  have look: "?m (oc_product_id item) = find_by p_id (oc_product_id item) rows'" if "item \<in> set items" for item
    using that ids by auto
  have price: "price_in ?m (oc_product_id item) = price_in (product_in rows) (oc_product_id item)"
    if "item \<in> set items" for item
    using look [OF that] price_in_same [OF same] by (simp add: price_in_def)
  have "\<forall>item\<in>set items. ?m (oc_product_id item) \<noteq> None"
    using look found same_rows_keys [OF same] by (auto simp: find_by_None_iff simp flip: set_map)
  then have "collect_items numeric ?m gen 0 items 0 [] = Inr (0 + gross_amount ?m items, [] @ made_items numeric ?m gen 0 items)"
    by (intro collect_items_Inr fetch_key)
  then show ?thesis
    using gross_amount_cong [of items, OF price] made_items_cong [of items, OF price] by simp
qed

lemma check_requested:
  assumes "check_stock (fetch_product_map rows ids) (requested_quantities items) = Inr ()"
    and "oc_product_id ` set items \<subseteq> set ids" and "item \<in> set items"
  shows "\<exists>p. find_by p_id (oc_product_id item) rows = Some p \<and> p_status p = ACTIVE \<and>
           quantity_of items (oc_product_id item) \<le> p_stock p"
proof -
  have "oc_product_id item \<in> fst ` set (requested_quantities items)"
    using assms(3) by (simp add: requested_quantities_keys)
  then obtain n where n: "(oc_product_id item, n) \<in> set (requested_quantities items)" by auto
  then have "n = quantity_of items (oc_product_id item)" by (rule requested_quantities_mem)
  with n assms show ?thesis by (fastforce simp: check_stock_Inr)
qed

lemma requested_keys [simp]: "fst ` set (requested_quantities items) = oc_product_id ` set items"
  by (rule requested_quantities_keys)

section \<open>Promo codes\<close>

lemma apply_promo_code_None: "truthy code = None \<Longrightarrow> apply_promo_code now code amt od d = Inr (od, d)"
  by (simp add: apply_promo_code_def)

lemma apply_promo_code_Inr:
  assumes "apply_promo_code now code amt od d = Inr (od', d')"
  obtains (none) "truthy code = None" and "od' = od" and "d' = d"
  | (promo) c promo discount where "truthy code = Some c"
      and "one_or_none (filter (\<lambda>pc. pc_code pc = c) (promo_codes d)) = Inr (Some promo)" and "promo \<in> set (promo_codes d)" and "pc_code promo = c"
      and "validate_promo_basic now False promo = Inr ()" and "calculate_discount promo amt = Inr discount"
      and "od' = od\<lparr>o_promo_code_id := Some (pc_id promo), o_discount_amount := discount,
                    o_total_amount := amt - discount\<rparr>"
      and "d' = d\<lparr>promo_codes := add_uses (pc_id promo) 1 (promo_codes d)\<rparr>"
proof (cases "truthy code")
  case None
  with assms show thesis by (intro none) (simp_all add: apply_promo_code_def)
next
  case (Some c)
  from assms Some obtain pc where
      pc: "one_or_none (filter (\<lambda>pc. pc_code pc = c) (promo_codes d)) = Inr (Some pc)"
    by (auto simp: apply_promo_code_def split: sum.splits option.splits)
  from assms Some pc obtain discount where
      "validate_promo_basic now False pc = Inr ()" "calculate_discount pc amt = Inr discount"
      "od' = od\<lparr>o_promo_code_id := Some (pc_id pc), o_discount_amount := discount, o_total_amount := amt - discount\<rparr>"
      "d' = d\<lparr>promo_codes := add_uses (pc_id pc) 1 (promo_codes d)\<rparr>"
    by (auto simp: apply_promo_code_def split: sum.splits)
  with Some pc one_or_none_SomeD [OF pc] show thesis by (intro promo) auto
qed

lemma reapply_promo_code_None: "o_promo_code_id od = None \<Longrightarrow> reapply_promo_code now amt od d = Inr (od, d)"
  by (simp add: reapply_promo_code_def)

lemma reapply_promo_code_Inr:
  assumes "reapply_promo_code now amt od d = Inr (od', d')"
  obtains (none) "o_promo_code_id od = None" and "od' = od" and "d' = d"
  | (dropped) promo where "promo \<in> set (promo_codes d)" and "o_promo_code_id od = Some (pc_id promo)"
      and "validate_promo_basic now True promo = Inr ()" and "amt < pc_min_order_amount promo"
      and "od' = od\<lparr>o_promo_code_id := None\<rparr>"
      and "d' = (if pc_current_uses promo > 0
                 then d\<lparr>promo_codes := add_uses (pc_id promo) (- 1) (promo_codes d)\<rparr> else d)"
  | (kept) promo discount where "promo \<in> set (promo_codes d)" and "o_promo_code_id od = Some (pc_id promo)"
      and "validate_promo_basic now True promo = Inr ()" and "calculate_discount promo amt = Inr discount"
      and "od' = od\<lparr>o_discount_amount := discount, o_total_amount := amt - discount\<rparr>" and "d' = d"
proof (cases "o_promo_code_id od")
  case None
  with assms show thesis by (intro none) (simp_all add: reapply_promo_code_def)
next
  case (Some pid)
  from assms Some obtain pc where
      pc: "one_or_none (filter (\<lambda>pc. pc_id pc = pid) (promo_codes d)) = Inr (Some pc)"
    by (auto simp: reapply_promo_code_def split: sum.splits option.splits)
  from assms Some pc have valid: "validate_promo_basic now True pc = Inr ()"
    by (auto simp: reapply_promo_code_def split: sum.splits)
  show thesis
  proof (cases "amt < pc_min_order_amount pc")
    case True
    with assms Some pc valid one_or_none_SomeD [OF pc] show thesis
      by (intro dropped [of pc]) (auto simp: reapply_promo_code_def)
  next
    case False
    with assms Some pc valid obtain discount where "calculate_discount pc amt = Inr discount"
        "od' = od\<lparr>o_discount_amount := discount, o_total_amount := amt - discount\<rparr>" "d' = d"
      by (auto simp: reapply_promo_code_def split: sum.splits)
    with Some valid one_or_none_SomeD [OF pc] show thesis by (intro kept [of pc discount]) auto
  qed
qed

text \<open>The promo step reads and writes nothing but the promo codes.\<close>

lemma reapply_promo_code_products:
  assumes "reapply_promo_code now amt od (d\<lparr>products := ps\<rparr>) = Inr (od', d')"
  shows "reapply_promo_code now amt od d = Inr (od', d\<lparr>promo_codes := promo_codes d'\<rparr>)"
    and "d' = d\<lparr>products := ps, promo_codes := promo_codes d'\<rparr>"
  using assms
  by (simp_all add: reapply_promo_code_def split: option.splits sum.splits if_splits) (auto split: if_splits)

section \<open>The bodies\<close>

text \<open>The new order before the money columns are written.\<close>

definition base_order :: "(money \<Rightarrow> money) \<Rightarrow> clock \<Rightarrow> new_ids \<Rightarrow> order_create_request \<Rightarrow> user \<Rightarrow> db \<Rightarrow> order_row" where
  "base_order numeric clk ids payload u d =
     \<lparr>o_id = new_order_id ids, o_user_id = u_id u, o_status = CREATED, o_promo_code_id = None,
      o_total_amount = gross_amount (product_in (products d)) (ocr_items payload), o_discount_amount = 0,
      o_items = made_items numeric (product_in (products d)) (new_item_id ids) 0 (ocr_items payload),
      o_created_at = db_now clk, o_updated_at = db_now clk\<rparr>"

lemma create_order_body_Inr:
  assumes "create_order_body cfg numeric clk ids payload u d = Inr (oid, w)"
  obtains od pcs where "oid = new_order_id ids"
    and "check_rate_limit cfg (rate_now clk) d (u_id u) CREATE_ORDER = Inr ()"
    and "active_orders d (u_id u) = []"
    and "\<forall>item\<in>set (ocr_items payload). \<exists>p. find_by p_id (oc_product_id item) (products d) = Some p \<and>
           p_status p = ACTIVE \<and> quantity_of (ocr_items payload) (oc_product_id item) \<le> p_stock p"
    and "apply_promo_code (promo_now clk) (ocr_promo_code payload)
           (gross_amount (product_in (products d)) (ocr_items payload)) (base_order numeric clk ids payload u d) d =
         Inr (od, d\<lparr>promo_codes := pcs\<rparr>)"
    and "w = \<lparr>users = users d, products = deduct_stock (requested_quantities (ocr_items payload)) (products d),
              orders = orders d @ [write_order numeric od], promo_codes = pcs,
              user_operations = user_operations d @
                [\<lparr>uo_id = new_operation_id ids, uo_user_id = u_id u, uo_operation_type = CREATE_ORDER,
                  uo_created_at = db_now clk\<rparr>]\<rparr>"
proof -
  let ?items = "ocr_items payload"
  let ?req = "requested_quantities ?items"
  let ?d1 = "d\<lparr>products := deduct_stock ?req (products d)\<rparr>"
  let ?m = "product_in (products d)"
  let ?od0 = "(base_order numeric clk ids payload u d)\<lparr>o_items := []\<rparr>"
  have ids: "oc_product_id ` set ?items \<subseteq> set (map fst ?req)" by simp
  from assms have rate: "check_rate_limit cfg (rate_now clk) d (u_id u) CREATE_ORDER = Inr ()"
    and active: "active_orders d (u_id u) = []"
    and chk: "check_stock (fetch_product_map (products d) (map fst ?req)) ?req = Inr ()"
    by (auto simp: create_order_body_def Let_def query_simps split: sum.splits if_splits)
  have found: "\<forall>item\<in>set ?items. \<exists>p. find_by p_id (oc_product_id item) (products d) = Some p \<and>
           p_status p = ACTIVE \<and> quantity_of ?items (oc_product_id item) \<le> p_stock p"
    using check_requested [OF chk ids] by blast
  then have "collect_items numeric (fetch_product_map (products ?d1) (map fst ?req)) (new_item_id ids) 0 ?items 0 [] =
      Inr (gross_amount ?m ?items, made_items numeric ?m (new_item_id ids) 0 ?items)"
    by (intro collect_requested) (use deduct_stock_same in auto)
  with assms rate active chk obtain od1 d2 where
      ap: "apply_promo_code (promo_now clk) (ocr_promo_code payload) (gross_amount ?m ?items) ?od0 ?d1 = Inr (od1, d2)"
      and oid: "oid = o_id od1"
      and w: "w = log_operation (new_operation_id ids) (u_id u) CREATE_ORDER (db_now clk)
               (add_order (write_order numeric (od1\<lparr>o_items := o_items (base_order numeric clk ids payload u d)\<rparr>)) d2)"
    by (auto simp: create_order_body_def Let_def query_simps base_order_def write_order_def split: sum.splits prod.splits)
  from ap show thesis
  proof (cases rule: apply_promo_code_Inr)
    case none
    show thesis
      by (rule that [of "base_order numeric clk ids payload u d" "promo_codes d"])
        (use none oid w rate active found in
          \<open>auto simp: apply_promo_code_def base_order_def log_operation_def add_order_def\<close>)
  next
    case (promo c pc discount)
    let ?od = "(base_order numeric clk ids payload u d)\<lparr>o_promo_code_id := Some (pc_id pc), o_discount_amount := discount,
                    o_total_amount := gross_amount ?m ?items - discount\<rparr>"
    have "apply_promo_code (promo_now clk) (ocr_promo_code payload) (gross_amount ?m ?items)
            (base_order numeric clk ids payload u d) d = Inr (?od, d\<lparr>promo_codes := add_uses (pc_id pc) 1 (promo_codes d)\<rparr>)"
      using promo by (simp add: apply_promo_code_def)
    then show thesis
      by (rule that [rotated 4])
        (use promo oid w rate active found in \<open>auto simp: base_order_def log_operation_def add_order_def\<close>)
  qed
qed

text \<open>An update: the order with its new items before the promo code is looked at again.\<close>

definition edited_order ::
  "(money \<Rightarrow> money) \<Rightarrow> new_ids \<Rightarrow> order_item_create list \<Rightarrow> order_row \<Rightarrow> db \<Rightarrow> order_row" where
  "edited_order numeric ids items od d =
     od\<lparr>o_items := made_items numeric (product_in (products d)) (new_item_id ids) 0 items,
        o_discount_amount := 0, o_total_amount := gross_amount (product_in (products d)) items\<rparr>"

lemma update_order_body_Inr:
  assumes "update_order_body cfg numeric clk ids items u od d = Inr (oid, w)"
  obtains od' pcs where "oid = o_id od"
    and "check_rate_limit cfg (rate_now clk) d (u_id u) UPDATE_ORDER = Inr ()"
    and "\<forall>item\<in>set items. \<exists>p. find_by p_id (oc_product_id item) (restock (o_items od) (products d)) = Some p \<and>
           p_status p = ACTIVE \<and> quantity_of items (oc_product_id item) \<le> p_stock p"
    and "reapply_promo_code (promo_now clk) (gross_amount (product_in (products d)) items)
           (edited_order numeric ids items od d) d = Inr (od', d\<lparr>promo_codes := pcs\<rparr>)"
    and "w = \<lparr>users = users d,
              products = deduct_stock (requested_quantities items) (restock (o_items od) (products d)),
              orders = replace_by o_id (write_order numeric od') (orders d), promo_codes = pcs,
              user_operations = user_operations d @
                [\<lparr>uo_id = new_operation_id ids, uo_user_id = u_id u, uo_operation_type = UPDATE_ORDER,
                  uo_created_at = db_now clk\<rparr>]\<rparr>"
proof -
  let ?req = "requested_quantities items"
  let ?pids = "map fst ?req @ map oi_product_id (o_items od)"
  let ?rows = "restock (o_items od) (products d)"
  let ?d2 = "d\<lparr>products := deduct_stock ?req ?rows\<rparr>"
  let ?m = "product_in (products d)"
  have ids: "oc_product_id ` set items \<subseteq> set ?pids" by auto
  from assms have rate: "check_rate_limit cfg (rate_now clk) d (u_id u) UPDATE_ORDER = Inr ()"
    and chk: "check_stock (fetch_product_map ?rows ?pids) ?req = Inr ()"
    by (auto simp: update_order_body_def Let_def split: sum.splits)
  have found: "\<forall>item\<in>set items. \<exists>p. find_by p_id (oc_product_id item) ?rows = Some p \<and>
           p_status p = ACTIVE \<and> quantity_of items (oc_product_id item) \<le> p_stock p"
    using check_requested [OF chk ids] by blast
  have same: "list_all2 same_but_stock (products d) (products ?d2)"
    using list_all2_trans [OF same_but_stock_trans restock_same deduct_stock_same] by simp
  have keys: "p_id ` set ?rows = p_id ` set (products d)"
    using same_rows_keys [OF restock_same [of "products d" "o_items od"]] by (metis set_map)
  have "\<forall>item\<in>set items. find_by p_id (oc_product_id item) (products d) \<noteq> None"
  proof
    fix item
    assume "item \<in> set items"
    with found have "find_by p_id (oc_product_id item) ?rows \<noteq> None" by fastforce
    then show "find_by p_id (oc_product_id item) (products d) \<noteq> None"
      using keys by (simp add: find_by_None_iff)
  qed
  from collect_requested [OF same ids this]
  have col: "collect_items numeric (fetch_product_map (products ?d2) ?pids) (new_item_id ids) 0 items 0 [] =
      Inr (gross_amount ?m items, made_items numeric ?m (new_item_id ids) 0 items)" .
  from assms rate chk col obtain od2 d3 where
      rp: "reapply_promo_code (promo_now clk) (gross_amount ?m items) (edited_order numeric ids items od d) ?d2 = Inr (od2, d3)"
      and oid: "oid = o_id od2"
      and w: "w = log_operation (new_operation_id ids) (u_id u) UPDATE_ORDER (db_now clk)
               (put_order (write_order numeric od2) d3)"
    by (auto simp: update_order_body_def Let_def edited_order_def write_order_def split: sum.splits prod.splits)
  have key: "o_id od2 = o_id od"
    using rp by (auto simp: edited_order_def elim!: reapply_promo_code_Inr)
  have db: "d3 = d\<lparr>products := deduct_stock ?req ?rows, promo_codes := promo_codes d3\<rparr>"
    by (rule reapply_promo_code_products(2) [OF rp])
  show thesis
  proof (rule that [OF _ rate found reapply_promo_code_products(1) [OF rp]])
    show "oid = o_id od" using oid key by simp
    show "w = \<lparr>users = users d, products = deduct_stock ?req ?rows,
              orders = replace_by o_id (write_order numeric od2) (orders d), promo_codes = promo_codes d3,
              user_operations = user_operations d @
                [\<lparr>uo_id = new_operation_id ids, uo_user_id = u_id u, uo_operation_type = UPDATE_ORDER,
                  uo_created_at = db_now clk\<rparr>]\<rparr>"
      unfolding w by (subst (1) db) (simp add: log_operation_def put_order_def)
  qed
qed

lemma cancel_order_body_Inr:
  assumes "cancel_order_body od d = Inr (oid, w)"
  obtains pcs where "oid = o_id od"
    and "w = d\<lparr>products := restock (o_items od) (products d),
               orders := replace_by o_id (od\<lparr>o_status := CANCELED\<rparr>) (orders d), promo_codes := pcs\<rparr>"
    and "(pcs = promo_codes d \<and>
          (\<forall>pid. o_promo_code_id od = Some pid \<longrightarrow>
             (\<forall>pc\<in>set (promo_codes d). pc_id pc = pid \<longrightarrow> pc_current_uses pc \<le> 0))) \<or>
         (\<exists>pc\<in>set (promo_codes d). o_promo_code_id od = Some (pc_id pc) \<and> 0 < pc_current_uses pc \<and>
            pcs = add_uses (pc_id pc) (- 1) (promo_codes d))"
proof -
  let ?w = "\<lambda>pcs. d\<lparr>products := restock (o_items od) (products d),
               orders := replace_by o_id (od\<lparr>o_status := CANCELED\<rparr>) (orders d), promo_codes := pcs\<rparr>"
  let ?rows = "\<lambda>pid. filter (\<lambda>pc. pc_id pc = pid) (promo_codes d)"
  consider (none) "o_promo_code_id od = None" "w = ?w (promo_codes d)"
    | (gone) pid where "o_promo_code_id od = Some pid" "one_or_none (?rows pid) = Inr None" "w = ?w (promo_codes d)"
    | (unused) pid pc where "o_promo_code_id od = Some pid" "one_or_none (?rows pid) = Inr (Some pc)"
        "pc_current_uses pc \<le> 0" "w = ?w (promo_codes d)"
    | (used) pid pc where "o_promo_code_id od = Some pid" "one_or_none (?rows pid) = Inr (Some pc)"
        "0 < pc_current_uses pc" "w = ?w (add_uses (pc_id pc) (- 1) (promo_codes d))"
  proof (cases "o_promo_code_id od")
    case None
    with assms show ?thesis
      by (intro none) (auto simp: cancel_order_body_def put_order_def)
  next
    case (Some pid)
    with assms obtain r where r: "one_or_none (?rows pid) = Inr r"
      by (cases "one_or_none (?rows pid)") (simp_all add: cancel_order_body_def)
    show ?thesis
    proof (cases r)
      case None
      with assms Some r show ?thesis
        by (intro gone [of pid]) (auto simp: cancel_order_body_def put_order_def)
    next
      case (Some pc)
      with assms \<open>o_promo_code_id od = Some pid\<close> r show ?thesis
        by (cases "pc_current_uses pc > 0")
          ((intro used [of pid pc]; auto simp: cancel_order_body_def put_order_def),
           (intro unused [of pid pc]; auto simp: cancel_order_body_def put_order_def))
    qed
  qed
  note branches = this
  have oid: "oid = o_id od"
    using assms by (auto simp: cancel_order_body_def Let_def split: option.splits sum.splits if_splits)
  from branches show thesis
  proof cases
    case none
    show thesis by (rule that [OF oid none(2)]) (simp add: none(1))
  next
    case gone
    have "\<forall>pc\<in>set (promo_codes d). pc_id pc \<noteq> pid"
      using one_or_none_NoneD [OF gone(2)] by auto
    then show thesis by (intro that [OF oid gone(3)]) (simp add: gone(1))
  next
    case unused
    have single: "?rows pid = [pc]"
      using unused(2) by (auto simp: one_or_none_def split: list.splits)
    have "pc_current_uses q \<le> 0" if "q \<in> set (promo_codes d)" "pc_id q = pid" for q
    proof -
      from that have "q \<in> set (?rows pid)" by simp
      with single unused(3) show ?thesis by simp
    qed
    then show thesis by (intro that [OF oid unused(4)]) (simp add: unused(1))
  next
    case used
    have "pc \<in> set (promo_codes d)" "pc_id pc = pid" using one_or_none_SomeD [OF used(2)] by auto
    with used show thesis by (intro that [OF oid used(4)]) auto
  qed
qed

section \<open>The handlers\<close>

lemma order_result_Inr:
  assumes "clean s" and "db_fits (durable s)"
    and "order_result (with_transaction now s body) = (Inr resp, s')"
  obtains oid w od where "body (durable s) = Inr (oid, w)"
    and "durable s' = touch now (durable s) w" and "db_fits (durable s')"
    and "find_by o_id oid (orders (durable s')) = Some od" and "resp = to_order_response od"
proof -
  obtain oid s1 where wt: "with_transaction now s body = (Inr oid, s1)"
    and r: "and_then (refresh (\<lambda>d. find_by o_id oid (orders d)) s1) (\<lambda>od s2. (Inr (to_order_response od), s2)) = (Inr resp, s')"
    using assms(3) by (auto simp: order_result_def and_then_def split: sum.splits prod.splits)
  from with_transaction_Inr [OF assms(1,2) wt] obtain w where
      w: "body (durable s) = Inr (oid, w)" "db_fits (touch now (durable s) w)"
        "durable s1 = touch now (durable s) w" "work s1 = durable s1" .
  from r obtain od where "find_by o_id oid (orders (work s1)) = Some od" "resp = to_order_response od" "durable s' = durable s1"
    by (auto simp: refresh_def Let_def split: option.splits)
  with w that show thesis by simp
qed

lemma order_result_Inl:
  assumes "clean s" and "db_fits (durable s)"
    and "order_result (with_transaction now s body) = (Inl e, s')"
    and "\<And>oid w. body (durable s) = Inr (oid, w) \<Longrightarrow> oid \<in> o_id ` set (orders w)"
  shows "durable s' = durable s"
proof (cases "with_transaction now s body")
  case (Pair r s1)
  show ?thesis
  proof (cases r)
    case (Inl e')
    with Pair assms(3) have "s' = s1" by (simp add: order_result_def)
    with with_transaction_Inl [OF assms(1,2)] Pair Inl show ?thesis by simp
  next
    case (Inr oid)
    with Pair have wt: "with_transaction now s body = (Inr oid, s1)" by simp
    from with_transaction_Inr [OF assms(1,2) wt] obtain w where
      w: "body (durable s) = Inr (oid, w)" "durable s1 = touch now (durable s) w" "work s1 = durable s1" .
    from assms(4) [OF w(1)] have "find_by o_id oid (orders (work s1)) \<noteq> None"
      by (auto simp: w find_by_None_iff image_iff)
    with assms(3) wt show ?thesis
      by (auto simp: order_result_def refresh_def Let_def split: option.splits)
  qed
qed

lemma base_order_promo_id:
  assumes "apply_promo_code now code amt od d = Inr (od', d')"
  shows "o_id od' = o_id od" and "o_user_id od' = o_user_id od" and "o_status od' = o_status od"
    and "o_items od' = o_items od"
  using assms by (auto elim!: apply_promo_code_Inr)

lemma reapply_promo_code_frame:
  assumes "reapply_promo_code now amt od d = Inr (od', d')"
  shows "o_id od' = o_id od" and "o_user_id od' = o_user_id od" and "o_status od' = o_status od"
    and "o_items od' = o_items od"
  using assms by (auto elim!: reapply_promo_code_Inr)

lemma write_order_frame [simp]:
  "o_id (write_order numeric od) = o_id od" "o_user_id (write_order numeric od) = o_user_id od"
  "o_status (write_order numeric od) = o_status od" "o_items (write_order numeric od) = o_items od"
  "o_promo_code_id (write_order numeric od) = o_promo_code_id od"
  "o_total_amount (write_order numeric od) = numeric (o_total_amount od)"
  "o_discount_amount (write_order numeric od) = numeric (o_discount_amount od)"
  by (simp_all add: write_order_def)

lemma create_order_body_id:
  "create_order_body cfg numeric clk ids payload u d = Inr (oid, w) \<Longrightarrow> oid \<in> o_id ` set (orders w)"
  by (erule create_order_body_Inr) (auto dest!: base_order_promo_id(1) simp: base_order_def)

interpretation create_order_op: db_operation "create_order cfg numeric clk ids payload u"
  for cfg numeric clk ids payload u
  unfolding create_order_def
  by unfold_locales (blast intro: order_result_Inl create_order_body_id, blast elim: order_result_Inr)


lemma update_order_body_id:
  assumes "update_order_body cfg numeric clk ids items u od d = Inr (oid, w)" and "od \<in> set (orders d)"
  shows "oid \<in> o_id ` set (orders w)"
  using assms(1)
proof (cases rule: update_order_body_Inr)
  case (1 od' pcs)
  have "map o_id (orders w) = map o_id (orders d)" by (simp add: 1)
  then have "o_id ` set (orders w) = o_id ` set (orders d)" by (metis set_map)
  with assms(2) 1(1) show ?thesis by simp
qed

lemma cancel_order_body_id:
  assumes "cancel_order_body od d = Inr (oid, w)" and "od \<in> set (orders d)"
  shows "oid \<in> o_id ` set (orders w)"
  using assms(1)
proof (cases rule: cancel_order_body_Inr)
  case (1 pcs)
  have "map o_id (orders w) = map o_id (orders d)" by (simp add: 1)
  then have "o_id ` set (orders w) = o_id ` set (orders d)" by (metis set_map)
  with assms(2) 1(1) show ?thesis by simp
qed

text \<open>An order handler either stops at a guard, the session untouched, or runs its body on the order.\<close>

lemma with_order_cases:
  assumes "with_order oid u allowed s f = (r, s')"
  obtains (stopped) e where "r = Inl e" and "s' = autobegin s"
  | (runs) od where "od \<in> set (orders (work s))" and "o_id od = oid" and "require_order_owner od u = Inr ()"
      and "o_status od \<in> allowed" and "f od (autobegin s) = (r, s')"
proof (cases "one_or_none (filter (\<lambda>od. o_id od = oid) (orders (work s)))")
  case (Inl e)
  with assms show thesis by (intro stopped [of e]) (auto simp: with_order_def)
next
  case (Inr row)
  show thesis
  proof (cases row)
    case None
    with assms Inr show thesis by (intro stopped) (auto simp: with_order_def)
  next
    case (Some od)
    have od: "od \<in> set (orders (work s))" "o_id od = oid"
      using Inr Some by (auto dest: one_or_none_SomeD)
    show thesis
    proof (cases "require_order_owner od u")
      case (Inl e)
      with assms \<open>_ = Inr row\<close> Some show thesis by (intro stopped [of e]) (auto simp: with_order_def)
    next
      case owner: (Inr x)
      show thesis
      proof (cases "o_status od \<in> allowed")
        case True
        with assms Inr Some owner od show thesis by (intro runs [of od]) (simp_all add: with_order_def)
      next
        case False
        with assms Inr Some owner show thesis by (intro stopped) (auto simp: with_order_def)
      qed
    qed
  qed
qed

lemma update_order_Inr:
  assumes "clean s" and "db_fits (durable s)"
    and "update_order cfg numeric clk ids oid items u s = (Inr resp, s')"
  obtains od w od' where "od \<in> set (orders (durable s))" and "o_id od = oid" and "require_order_owner od u = Inr ()"
    and "o_status od = CREATED"
    and "update_order_body cfg numeric clk ids items u od (durable s) = Inr (oid, w)"
    and "durable s' = touch (db_now clk) (durable s) w" and "db_fits (durable s')"
    and "find_by o_id oid (orders (durable s')) = Some od'" and "resp = to_order_response od'"
  using assms(3) unfolding update_order_def
proof (cases rule: with_order_cases)
  case (stopped e)
  then show thesis by simp
next
  case (runs od)
  have "clean (autobegin s)" "db_fits (durable (autobegin s))" using assms by simp_all
  from order_result_Inr [OF this runs(5)] obtain oid' w od' where
    r: "update_order_body cfg numeric clk ids items u od (durable (autobegin s)) = Inr (oid', w)"
      "durable s' = touch (db_now clk) (durable (autobegin s)) w" "db_fits (durable s')"
      "find_by o_id oid' (orders (durable s')) = Some od'" "resp = to_order_response od'" .
  from r(1) runs(2) have "oid' = oid" by (auto elim: update_order_body_Inr)
  with r runs assms(1) that show thesis by (auto simp: clean_def)
qed

lemma cancel_order_Inr:
  assumes "clean s" and "db_fits (durable s)"
    and "cancel_order clk oid u s = (Inr resp, s')"
  obtains od w od' where "od \<in> set (orders (durable s))" and "o_id od = oid" and "require_order_owner od u = Inr ()"
    and "o_status od \<in> {CREATED, PAYMENT_PENDING}"
    and "cancel_order_body od (durable s) = Inr (oid, w)"
    and "durable s' = touch (db_now clk) (durable s) w" and "db_fits (durable s')"
    and "find_by o_id oid (orders (durable s')) = Some od'" and "resp = to_order_response od'"
  using assms(3) unfolding cancel_order_def
proof (cases rule: with_order_cases)
  case (stopped e)
  then show thesis by simp
next
  case (runs od)
  have "clean (autobegin s)" "db_fits (durable (autobegin s))" using assms by simp_all
  from order_result_Inr [OF this runs(5)] obtain oid' w od' where
    r: "cancel_order_body od (durable (autobegin s)) = Inr (oid', w)"
      "durable s' = touch (db_now clk) (durable (autobegin s)) w" "db_fits (durable s')"
      "find_by o_id oid' (orders (durable s')) = Some od'" "resp = to_order_response od'" .
  from r(1) runs(2) have "oid' = oid" by (auto elim: cancel_order_body_Inr)
  with r runs assms(1) that show thesis by (auto simp: clean_def)
qed

lemma update_order_Inl:
  assumes "clean s" and "db_fits (durable s)"
    and "update_order cfg numeric clk ids oid items u s = (Inl e, s')"
  shows "durable s' = durable s"
  using assms(3) unfolding update_order_def
proof (cases rule: with_order_cases)
  case (stopped e)
  then show ?thesis by simp
next
  case (runs od)
  from assms(1) runs(1) have "od \<in> set (orders (durable s))" by (simp add: clean_def)
  with order_result_Inl [OF _ _ runs(5)] assms(1,2) update_order_body_id show ?thesis by simp
qed

lemma cancel_order_Inl:
  assumes "clean s" and "db_fits (durable s)" and "cancel_order clk oid u s = (Inl e, s')"
  shows "durable s' = durable s"
  using assms(3) unfolding cancel_order_def
proof (cases rule: with_order_cases)
  case (stopped e)
  then show ?thesis by simp
next
  case (runs od)
  from assms(1) runs(1) have "od \<in> set (orders (durable s))" by (simp add: clean_def)
  with order_result_Inl [OF _ _ runs(5)] assms(1,2) cancel_order_body_id show ?thesis by simp
qed

lemma get_order_frame: "get_order oid u s = (r, s') \<Longrightarrow> s' = autobegin s"
  by (auto simp: get_order_def Let_def split: sum.splits option.splits)

interpretation update_order_op: db_operation "update_order cfg numeric clk ids oid items u"
  for cfg numeric clk ids oid items u
  by unfold_locales (blast intro: update_order_Inl, blast elim: update_order_Inr)

interpretation cancel_order_op: db_operation "cancel_order clk oid u" for clk oid u
  by unfold_locales (blast intro: cancel_order_Inl, blast elim: cancel_order_Inr)

interpretation get_order_op: db_operation "get_order oid u" for oid u
  by unfold_locales (auto dest!: get_order_frame)

end
