(* ===== verification/Marketplace.thy ===== *)
theory Marketplace
  imports Order_Lemmas
begin

text \<open>
  The application: the endpoints with their dependencies, as one function from a request and the
  database to a response and the database, and what the interface description promises about the
  payloads that reach a handler. The abstract specification that every request refines is in the
  theory Market_Steps.
\<close>

section \<open>Requests and replies\<close>

datatype public_request =
    Register register_request
  | Login login_request
  | Refresh string

datatype user_request =
    ListProducts nat nat "product_status option" "string option"
  | CreateProduct product_create
  | GetProduct uuid
  | UpdateProduct uuid product_update
  | DeleteProduct uuid
  | CreateOrder order_create_request
  | GetOrder uuid
  | UpdateOrder uuid "order_item_create list"
  | CancelOrder uuid
  | CreatePromoCode promo_code_create

datatype request = Public public_request | AsUser user_request

datatype reply =
    Registered register_response
  | Tokens token_response
  | ProductPage product_list_response
  | OneProduct product_response
  | NoContent
  | OneOrder order_response
  | OnePromoCode promo_code_response

text \<open>
  What an installation fixes: the settings, the libraries, the columns' rounding, the scan order of
  a table, and \<open>validate\<close>, the check of a request by the classes that are generated from the
  interface description (the errors it finds). What changes from request to request is a \<open>tick\<close>.
\<close>

record deployment =
  dp_settings :: settings
  dp_jose :: jose
  dp_hash :: "string \<Rightarrow> string option"
  dp_verify :: "string \<Rightarrow> string \<Rightarrow> bool"
  dp_numeric :: "money \<Rightarrow> money"
  dp_scan :: "product list \<Rightarrow> product list"
  dp_validate :: "request \<Rightarrow> pydantic_error list"

record tick =
  tk_auth_now :: instant
  tk_clock :: clock
  tk_new_id :: uuid
  tk_new_ids :: new_ids

section \<open>The payloads that the interface description allows\<close>

definition decimal_above_cent :: "money \<Rightarrow> bool" where
  "decimal_above_cent x \<longleftrightarrow> 1 / 100 < x"

definition length_between :: "nat \<Rightarrow> nat \<Rightarrow> string \<Rightarrow> bool" where
  "length_between lo hi s \<longleftrightarrow> lo \<le> length s \<and> length s \<le> hi"

definition promo_char :: "char \<Rightarrow> bool" where
  "promo_char c \<longleftrightarrow>
     (let n = (of_char c :: nat) in 65 \<le> n \<and> n \<le> 90 \<or> 48 \<le> n \<and> n \<le> 57 \<or> n = 95)"

definition promo_pattern :: "string \<Rightarrow> bool" where
  "promo_pattern s \<longleftrightarrow> length_between 4 20 s \<and> list_all promo_char s"

definition given :: "('a \<Rightarrow> bool) \<Rightarrow> 'a option option \<Rightarrow> bool" where
  "given P field = (case field of Some (Some v) \<Rightarrow> P v | _ \<Rightarrow> True)"

definition order_items_ok :: "order_item_create list \<Rightarrow> bool" where
  "order_items_ok items \<longleftrightarrow>
     1 \<le> length items \<and> length items \<le> 50 \<and>
     list_all (\<lambda>item. 1 \<le> oc_quantity item \<and> oc_quantity item \<le> 999) items"

fun schema_ok :: "request \<Rightarrow> bool" where
  "schema_ok (Public (Register p)) =
     (length_between 6 255 (rr_password p) \<and>
      (case rr_role p of None \<Rightarrow> True | Some v \<Rightarrow> enum_value v \<in> {''USER'', ''SELLER'', ''ADMIN''}))"
| "schema_ok (Public (Login p)) = length_between 6 255 (lr_password p)"
| "schema_ok (Public (Refresh tok)) = True"
| "schema_ok (AsUser (ListProducts page n status category)) = (1 \<le> n)"
| "schema_ok (AsUser (CreateProduct p)) =
     (length_between 1 255 (cr_name p) \<and>
      (case cr_description p of None \<Rightarrow> True | Some s \<Rightarrow> length s \<le> 4000) \<and>
      decimal_above_cent (cr_price p) \<and> 0 \<le> cr_stock p \<and> length_between 1 100 (cr_category p) \<and>
      enum_value (cr_status p) \<in> {''ACTIVE'', ''INACTIVE'', ''ARCHIVED''})"
| "schema_ok (AsUser (GetProduct pid)) = True"
| "schema_ok (AsUser (UpdateProduct pid p)) =
     (given (length_between 1 255) (up_name p) \<and> given (\<lambda>s. length s \<le> 4000) (up_description p) \<and>
      given decimal_above_cent (up_price p) \<and> given (\<lambda>n. 0 \<le> n) (up_stock p) \<and>
      given (length_between 1 100) (up_category p) \<and>
      given (\<lambda>v. enum_value v \<in> {''ACTIVE'', ''INACTIVE'', ''ARCHIVED''}) (up_status p))"
| "schema_ok (AsUser (DeleteProduct pid)) = True"
| "schema_ok (AsUser (CreateOrder p)) =
     (order_items_ok (ocr_items p) \<and> (case ocr_promo_code p of None \<Rightarrow> True | Some c \<Rightarrow> promo_pattern c))"
| "schema_ok (AsUser (GetOrder oid)) = True"
| "schema_ok (AsUser (UpdateOrder oid items)) = order_items_ok items"
| "schema_ok (AsUser (CancelOrder oid)) = True"
| "schema_ok (AsUser (CreatePromoCode p)) =
     (promo_pattern (pcr_code p) \<and> enum_value (pcr_discount_type p) \<in> {''PERCENTAGE'', ''FIXED_AMOUNT''} \<and>
      decimal_above_cent (pcr_discount_value p) \<and> 0 \<le> pcr_min_order_amount p \<and> 1 \<le> pcr_max_uses p)"

text \<open>
  What is assumed of the generated classes: a request they accept is one the description allows.
  What is assumed of the \<open>Numeric(12, 2)\<close> columns: they hold the nearest amount of whole cents.
\<close>

definition follows_schema :: "deployment \<Rightarrow> bool" where
  "follows_schema D \<longleftrightarrow> (\<forall>req. dp_validate D req = [] \<longrightarrow> schema_ok req)"

definition is_cents :: "money \<Rightarrow> bool" where
  "is_cents x \<longleftrightarrow> of_int \<lfloor>x * 100\<rfloor> = x * 100"

definition rounds_to_cents :: "(money \<Rightarrow> money) \<Rightarrow> bool" where
  "rounds_to_cents numeric \<longleftrightarrow> (\<forall>x. \<bar>numeric x - x\<bar> \<le> 1 / 200 \<and> is_cents (numeric x))"

section \<open>The endpoints\<close>

definition validated ::
  "deployment \<Rightarrow> request \<Rightarrow> (session \<Rightarrow> (exn + 'a) \<times> session) \<Rightarrow> session \<Rightarrow> (exn + 'a) \<times> session" where
  "validated D req f s =
     (if dp_validate D req \<noteq> [] then (Inl (RequestValidationError (dp_validate D req)), s) else f s)"

definition reply_with :: "('a \<Rightarrow> reply) \<Rightarrow> (exn + 'a) \<times> session \<Rightarrow> (exn + reply) \<times> session" where
  "reply_with f m = (case m of (Inl e, s) \<Rightarrow> (Inl e, s) | (Inr x, s) \<Rightarrow> (Inr (f x), s))"

text \<open>The dependency of an endpoint that runs for a user: any user, or one with a role of a list.\<close>

datatype guard = CurrentUser | Roles "string list"

fun endpoint_guard :: "user_request \<Rightarrow> guard" where
  "endpoint_guard (ListProducts _ _ _ _) = CurrentUser"
| "endpoint_guard (GetProduct _) = CurrentUser"
| "endpoint_guard (CreateProduct _) = Roles [''SELLER'', ''ADMIN'']"
| "endpoint_guard (UpdateProduct _ _) = Roles [''SELLER'', ''ADMIN'']"
| "endpoint_guard (DeleteProduct _) = Roles [''SELLER'', ''ADMIN'']"
| "endpoint_guard (CreateOrder _) = Roles [''USER'', ''ADMIN'']"
| "endpoint_guard (GetOrder _) = Roles [''USER'', ''ADMIN'']"
| "endpoint_guard (UpdateOrder _ _) = Roles [''USER'', ''ADMIN'']"
| "endpoint_guard (CancelOrder _) = Roles [''USER'', ''ADMIN'']"
| "endpoint_guard (CreatePromoCode _) = Roles [''SELLER'', ''ADMIN'']"

definition run_guard :: "deployment \<Rightarrow> tick \<Rightarrow> string option \<Rightarrow> guard \<Rightarrow> session \<Rightarrow> (exn + user) \<times> session" where
  "run_guard D t credentials g s =
     (case g of
        CurrentUser \<Rightarrow> get_current_user (dp_jose D) (dp_settings D) (tk_auth_now t) credentials s
      | Roles roles \<Rightarrow> require_roles roles (dp_jose D) (dp_settings D) (tk_auth_now t) credentials s)"

text \<open>The handlers that need no user, and those that run for the user the dependency found.\<close>

fun public_handler :: "deployment \<Rightarrow> tick \<Rightarrow> public_request \<Rightarrow> session \<Rightarrow> (exn + reply) \<times> session" where
  "public_handler D t (Register p) s =
     reply_with Registered (register_user (dp_hash D) (db_now (tk_clock t)) (tk_new_id t) p s)"
| "public_handler D t (Login p) s =
     reply_with Tokens (login_user (dp_verify D) (dp_jose D) (dp_settings D) (tk_auth_now t) p s)"
| "public_handler D t (Refresh tok) s =
     reply_with Tokens (refresh_token (dp_jose D) (dp_settings D) (tk_auth_now t) tok s)"

fun user_handler :: "deployment \<Rightarrow> tick \<Rightarrow> user_request \<Rightarrow> user \<Rightarrow> session \<Rightarrow> (exn + reply) \<times> session" where
  "user_handler D t (ListProducts page n status category) u s =
     reply_with ProductPage (list_products (dp_scan D) page n status category s)"
| "user_handler D t (CreateProduct p) u s =
     reply_with OneProduct (create_product (dp_numeric D) (db_now (tk_clock t)) (tk_new_id t) p u s)"
| "user_handler D t (GetProduct pid) u s = reply_with OneProduct (get_product pid s)"
| "user_handler D t (UpdateProduct pid p) u s =
     reply_with OneProduct (update_product (dp_numeric D) (db_now (tk_clock t)) pid p u s)"
| "user_handler D t (DeleteProduct pid) u s =
     reply_with (\<lambda>_. NoContent) (delete_product (db_now (tk_clock t)) pid u s)"
| "user_handler D t (CreateOrder p) u s =
     reply_with OneOrder (create_order (dp_settings D) (dp_numeric D) (tk_clock t) (tk_new_ids t) p u s)"
| "user_handler D t (GetOrder oid) u s = reply_with OneOrder (get_order oid u s)"
| "user_handler D t (UpdateOrder oid items) u s =
     reply_with OneOrder (update_order (dp_settings D) (dp_numeric D) (tk_clock t) (tk_new_ids t) oid items u s)"
| "user_handler D t (CancelOrder oid) u s = reply_with OneOrder (cancel_order (tk_clock t) oid u s)"
| "user_handler D t (CreatePromoCode p) u s =
     reply_with OnePromoCode (create_promo_code (dp_numeric D) (db_now (tk_clock t)) (tk_new_id t) p s)"

text \<open>
  Dependencies run first: a request without rights is refused before its payload is looked at.
\<close>

fun endpoint :: "deployment \<Rightarrow> tick \<Rightarrow> string option \<Rightarrow> request \<Rightarrow> session \<Rightarrow> (exn + reply) \<times> session" where
  "endpoint D t credentials (Public req) s = validated D (Public req) (public_handler D t req) s"
| "endpoint D t credentials (AsUser req) s =
     and_then (run_guard D t credentials (endpoint_guard req) s)
       (\<lambda>u. validated D (AsUser req) (user_handler D t req u))"

definition serve :: "deployment \<Rightarrow> tick \<Rightarrow> string option \<Rightarrow> request \<Rightarrow> db \<Rightarrow> (exn + reply) \<times> db" where
  "serve D t credentials req = get_db (endpoint D t credentials req)"

end
