(* ===== verification/Market_Steps.thy ===== *)
theory Market_Steps
  imports Marketplace
begin

text \<open>
  The abstract specification of the application: \<open>market_step\<close>, the changes that a request can make
  to the stored data, one rule per writing endpoint. The refinement lemmas show that every request
  that \<open>serve\<close> answers is such a step or leaves the data alone, and that it leaves them alone
  whenever it raises.
\<close>

section \<open>Who may make a request\<close>

fun role_allowed :: "guard \<Rightarrow> user \<Rightarrow> bool" where
  "role_allowed CurrentUser u = True"
| "role_allowed (Roles roles) u = (user_role_value (u_role u) \<in> set roles)"

text \<open>The caller of a user request that reaches its handler.\<close>

definition may_request :: "deployment \<Rightarrow> db \<Rightarrow> user \<Rightarrow> user_request \<Rightarrow> bool" where
  "may_request D d u req \<longleftrightarrow>
     u \<in> set (users d) \<and> role_allowed (endpoint_guard req) u \<and> dp_validate D (AsUser req) = []"

lemma run_guard_frame:
  assumes "run_guard D t cred g s = (r, s')"
  shows "durable s' = durable s" and "clean s' = clean s"
  using assms get_current_user_frame require_roles_frame
  by (auto simp: run_guard_def split: guard.splits)

lemma run_guard_Inr:
  assumes "run_guard D t cred g s = (Inr u, s')"
  shows "get_current_user (dp_jose D) (dp_settings D) (tk_auth_now t) cred s = (Inr u, s')"
    and "u \<in> set (users (work s))" and "role_allowed g u"
proof -
  show g: "get_current_user (dp_jose D) (dp_settings D) (tk_auth_now t) cred s = (Inr u, s')"
    using assms by (auto simp: run_guard_def dest: require_roles_Inr(1) split: guard.splits)
  show "u \<in> set (users (work s))" by (rule get_current_user_Inr [OF g])
  show "role_allowed g u"
    using assms by (cases g) (auto simp: run_guard_def dest: require_roles_Inr(2))
qed

section \<open>Every endpoint keeps the contract of an operation\<close>

lemma reply_with_cases:
  assumes "reply_with f m = (r, s')"
  obtains e where "m = (Inl e, s')" and "r = Inl e" | x where "m = (Inr x, s')" and "r = Inr (f x)"
  using assms by (auto simp: reply_with_def split: prod.splits sum.splits)

lemma db_operation_reply:
  assumes "db_operation f"
  shows "db_operation (\<lambda>s. reply_with g (f s))"
proof
  fix s e s'
  assume s: "clean s" "db_fits (durable s)" and "reply_with g (f s) = (Inl e, s')"
  then have "f s = (Inl e, s')" by (auto elim: reply_with_cases)
  with s show "durable s' = durable s" by (rule db_operation.raises_unchanged [OF assms])
next
  fix s x s'
  assume s: "clean s" "db_fits (durable s)" and "reply_with g (f s) = (Inr x, s')"
  then obtain y where "f s = (Inr y, s')" by (auto elim: reply_with_cases)
  with s show "db_fits (durable s')" by (rule db_operation.returns_fits [OF assms])
qed

lemma db_operation_validated:
  assumes "db_operation f"
  shows "db_operation (validated D req f)"
  by unfold_locales
    (auto simp: validated_def split: if_splits
      intro: db_operation.raises_unchanged [OF assms] db_operation.returns_fits [OF assms])

lemma db_operation_guarded:
  assumes "\<And>u. db_operation (f u)"
  shows "db_operation (\<lambda>s. and_then (run_guard D t cred g s) f)"
proof
  fix s e s'
  assume s: "clean s" "db_fits (durable s)" and r: "and_then (run_guard D t cred g s) f = (Inl e, s')"
  obtain r1 s1 where g: "run_guard D t cred g s = (r1, s1)" by (cases "run_guard D t cred g s")
  with s have s1: "clean s1" "durable s1 = durable s" by (simp_all add: run_guard_frame [OF g])
  show "durable s' = durable s"
  proof (cases r1)
    case (Inl e1)
    with r g s1 show ?thesis by simp
  next
    case (Inr u)
    with r g have "f u s1 = (Inl e, s')" by simp
    from db_operation.raises_unchanged [OF assms _ _ this] s s1 show ?thesis by simp
  qed
next
  fix s x s'
  assume s: "clean s" "db_fits (durable s)" and r: "and_then (run_guard D t cred g s) f = (Inr x, s')"
  obtain r1 s1 where g: "run_guard D t cred g s = (r1, s1)" by (cases "run_guard D t cred g s")
  with s have s1: "clean s1" "durable s1 = durable s" by (simp_all add: run_guard_frame [OF g])
  from r g obtain u where "f u s1 = (Inr x, s')" by (cases r1) simp_all
  from db_operation.returns_fits [OF assms _ _ this] s s1 show "db_fits (durable s')" by simp
qed

lemma public_handler_op: "db_operation (public_handler D t req)"
  by (cases req)
    (simp_all add: public_handler.simps [abs_def] db_operation_reply register_op.db_operation_axioms
      login_op.db_operation_axioms refresh_op.db_operation_axioms)

lemma user_handler_op: "db_operation (user_handler D t req u)"
  by (cases req)
    (simp_all add: user_handler.simps [abs_def] db_operation_reply list_products_op.db_operation_axioms
      create_product_op.db_operation_axioms get_product_op.db_operation_axioms
      update_product_op.db_operation_axioms delete_product_op.db_operation_axioms
      create_order_op.db_operation_axioms get_order_op.db_operation_axioms
      update_order_op.db_operation_axioms cancel_order_op.db_operation_axioms
      create_promo_code_op.db_operation_axioms)

interpretation endpoint_op: db_operation "endpoint D t cred req" for D t cred req
  by (cases req)
    (simp_all add: endpoint.simps [abs_def] db_operation_validated db_operation_guarded
      public_handler_op user_handler_op)

section \<open>The abstract steps\<close>

inductive market_step :: "deployment \<Rightarrow> db \<Rightarrow> db \<Rightarrow> bool" for D where
  step_register:
    "dp_validate D (Public (Register p)) = [] \<Longrightarrow> dp_hash D (rr_password p) = Some hashed \<Longrightarrow>
     user_role_of (requested_role p) = Inr role \<Longrightarrow> rr_email p \<notin> u_email ` set (users d) \<Longrightarrow>
     market_step D d (add_user (new_user now new_id p hashed role) d)"
| step_create_product:
    "may_request D d u (CreateProduct p) \<Longrightarrow> choose_seller p u d = Inr seller_id \<Longrightarrow>
     product_status_of (enum_value (cr_status p)) = Inr st \<Longrightarrow>
     market_step D d (touch now d (add_product (new_product (dp_numeric D) now new_id p seller_id st) d))"
| step_update_product:
    "may_request D d u (UpdateProduct (p_id p) upd) \<Longrightarrow> p \<in> set (products d) \<Longrightarrow>
     require_product_owner p u = Inr () \<Longrightarrow> updated_status upd = Inr status \<Longrightarrow>
     updated_product (dp_numeric D) upd status p = Some p' \<Longrightarrow>
     market_step D d (touch now d (put_product p' d))"
| step_delete_product:
    "may_request D d u (DeleteProduct (p_id p)) \<Longrightarrow> p \<in> set (products d) \<Longrightarrow>
     require_product_owner p u = Inr () \<Longrightarrow>
     market_step D d (touch now d (put_product (p\<lparr>p_status := ARCHIVED\<rparr>) d))"
| step_create_order:
    "may_request D d u (CreateOrder p) \<Longrightarrow>
     create_order_body (dp_settings D) (dp_numeric D) clk ids p u d = Inr (oid, w) \<Longrightarrow>
     market_step D d (touch (db_now clk) d w)"
| step_update_order:
    "may_request D d u (UpdateOrder (o_id od) items) \<Longrightarrow> od \<in> set (orders d) \<Longrightarrow>
     require_order_owner od u = Inr () \<Longrightarrow> o_status od = CREATED \<Longrightarrow>
     update_order_body (dp_settings D) (dp_numeric D) clk ids items u od d = Inr (oid, w) \<Longrightarrow>
     market_step D d (touch (db_now clk) d w)"
| step_cancel_order:
    "may_request D d u (CancelOrder (o_id od)) \<Longrightarrow> od \<in> set (orders d) \<Longrightarrow>
     require_order_owner od u = Inr () \<Longrightarrow> o_status od \<in> {CREATED, PAYMENT_PENDING} \<Longrightarrow>
     cancel_order_body od d = Inr (oid, w) \<Longrightarrow>
     market_step D d (touch now d w)"
| step_create_promo_code:
    "may_request D d u (CreatePromoCode p) \<Longrightarrow> discount_type_of (enum_value (pcr_discount_type p)) = Inr dt \<Longrightarrow>
     market_step D d (add_promo_code (new_promo_code (dp_numeric D) now new_id p dt) d)"

inductive_cases market_stepE: "market_step D d d'"

section \<open>Refinement\<close>

lemma public_handler_steps:
  assumes "public_handler D t req s = (Inr rep, s')" and "clean s" and "dp_validate D (Public req) = []"
  shows "durable s' = durable s \<or> market_step D (durable s) (durable s')"
proof (cases req)
  case (Register p)
  with assms(1) obtain resp where
    "register_user (dp_hash D) (db_now (tk_clock t)) (tk_new_id t) p s = (Inr resp, s')"
    by (auto elim: reply_with_cases)
  from register_user_Inr [OF assms(2) this] assms(3) Register show ?thesis
    by (metis step_register)
next
  case (Login p)
  with assms(1) show ?thesis by (auto elim!: reply_with_cases dest: login_user_frame)
next
  case (Refresh tok)
  with assms(1) show ?thesis by (auto elim!: reply_with_cases dest: refresh_token_frame)
qed

lemma user_handler_steps:
  assumes "user_handler D t req u s = (Inr rep, s')" and "clean s" and "db_fits (durable s)"
    and "may_request D (durable s) u req"
  shows "durable s' = durable s \<or> market_step D (durable s) (durable s')"
proof (cases req)
  case (ListProducts page n status category)
  with assms(1) show ?thesis by (auto elim!: reply_with_cases dest: list_products_frame)
next
  case (CreateProduct p)
  with assms(1) obtain resp where
    "create_product (dp_numeric D) (db_now (tk_clock t)) (tk_new_id t) p u s = (Inr resp, s')"
    by (auto elim: reply_with_cases)
  then show ?thesis
    by (rule create_product_Inr [OF assms(2)]) (metis CreateProduct assms(4) step_create_product)
next
  case (GetProduct pid)
  with assms(1) show ?thesis by (auto elim!: reply_with_cases dest: get_product_frame)
next
  case (UpdateProduct pid upd)
  with assms(1) obtain resp where
    "update_product (dp_numeric D) (db_now (tk_clock t)) pid upd u s = (Inr resp, s')"
    by (auto elim: reply_with_cases)
  then show ?thesis
    by (rule update_product_Inr [OF assms(2)]) (metis UpdateProduct assms(4) step_update_product)
next
  case (DeleteProduct pid)
  with assms(1) obtain x where "delete_product (db_now (tk_clock t)) pid u s = (Inr x, s')"
    by (auto elim: reply_with_cases)
  from delete_product_cases [OF this assms(2)] show ?thesis
    by (metis DeleteProduct assms(4) step_delete_product)
next
  case (CreateOrder p)
  with assms(1) obtain resp where
    "create_order (dp_settings D) (dp_numeric D) (tk_clock t) (tk_new_ids t) p u s = (Inr resp, s')"
    by (auto elim: reply_with_cases)
  then show ?thesis unfolding create_order_def
    by (rule order_result_Inr [OF assms(2,3)]) (metis CreateOrder assms(4) step_create_order)
next
  case (GetOrder oid)
  with assms(1) show ?thesis by (auto elim!: reply_with_cases dest: get_order_frame)
next
  case (UpdateOrder oid items)
  with assms(1) obtain resp where
    "update_order (dp_settings D) (dp_numeric D) (tk_clock t) (tk_new_ids t) oid items u s = (Inr resp, s')"
    by (auto elim: reply_with_cases)
  then show ?thesis
    by (rule update_order_Inr [OF assms(2,3)]) (metis UpdateOrder assms(4) step_update_order)
next
  case (CancelOrder oid)
  with assms(1) obtain resp where "cancel_order (tk_clock t) oid u s = (Inr resp, s')"
    by (auto elim: reply_with_cases)
  then show ?thesis
    by (rule cancel_order_Inr [OF assms(2,3)]) (metis CancelOrder assms(4) step_cancel_order)
next
  case (CreatePromoCode p)
  with assms(1) obtain resp where
    "create_promo_code (dp_numeric D) (db_now (tk_clock t)) (tk_new_id t) p s = (Inr resp, s')"
    by (auto elim: reply_with_cases)
  then show ?thesis
    by (rule create_promo_code_Inr [OF assms(2)]) (metis CreatePromoCode assms(4) step_create_promo_code)
qed

lemma serve_raises: "db_fits d \<Longrightarrow> serve D t cred req d = (Inl e, d') \<Longrightarrow> d' = d"
  unfolding serve_def by (rule endpoint_op.request_raises)

lemma serve_fits: "db_fits d \<Longrightarrow> serve D t cred req d = (r, d') \<Longrightarrow> db_fits d'"
  unfolding serve_def by (rule endpoint_op.request_fits)

lemma serve_user_Inr:
  assumes "serve D t cred (AsUser req) d = (Inr rep, d')"
  obtains u s1 s' where "run_guard D t cred (endpoint_guard req) (SessionLocal d) = (Inr u, s1)"
    and "may_request D d u req" and "clean s1" and "durable s1 = d"
    and "user_handler D t req u s1 = (Inr rep, s')" and "d' = durable s'"
proof -
  obtain r1 s1 where g: "run_guard D t cred (endpoint_guard req) (SessionLocal d) = (r1, s1)"
    by (cases "run_guard D t cred (endpoint_guard req) (SessionLocal d)")
  have s1: "clean s1" "durable s1 = d"
    using run_guard_frame [OF g] by (simp_all add: SessionLocal_def clean_def)
  from assms g obtain u s' where u: "r1 = Inr u" "validated D (AsUser req) (user_handler D t req u) s1 = (Inr rep, s')"
      and d': "d' = durable s'"
    by (cases r1) (auto simp: serve_def get_db_def close_def split: prod.splits)
  then have v: "dp_validate D (AsUser req) = []" and h: "user_handler D t req u s1 = (Inr rep, s')"
    by (auto simp: validated_def split: if_splits)
  from g u(1) have g': "run_guard D t cred (endpoint_guard req) (SessionLocal d) = (Inr u, s1)" by simp
  have "may_request D d u req"
    using run_guard_Inr(2,3) [OF g'] v by (simp add: may_request_def SessionLocal_def)
  with that g' s1 h d' show thesis by blast
qed

text \<open>Every request is an abstract step or changes nothing.\<close>

lemma serve_steps:
  assumes "db_fits d" and "serve D t cred req d = (r, d')"
  shows "d' = d \<or> market_step D d d'"
proof (cases r)
  case (Inl e)
  with assms serve_raises show ?thesis by simp
next
  case (Inr rep)
  show ?thesis
  proof (cases req)
    case (Public preq)
    with assms Inr obtain s' where "public_handler D t preq (SessionLocal d) = (Inr rep, s')"
        "d' = durable s'" "dp_validate D (Public preq) = []"
      by (auto simp: serve_def get_db_def close_def validated_def split: prod.splits if_splits)
    with public_handler_steps [of D t preq "SessionLocal d"] show ?thesis
      by (simp add: SessionLocal_def clean_def)
  next
    case (AsUser ureq)
    with assms(2) Inr have "serve D t cred (AsUser ureq) d = (Inr rep, d')" by simp
    then obtain u s1 s' where "may_request D d u ureq" "clean s1" "durable s1 = d"
        "user_handler D t ureq u s1 = (Inr rep, s')" "d' = durable s'"
      by (rule serve_user_Inr)
    with user_handler_steps [of D t ureq u s1 rep s'] assms(1) show ?thesis by simp
  qed
qed

section \<open>Reachable states\<close>

inductive reachable :: "deployment \<Rightarrow> db \<Rightarrow> bool" for D where
  start: "reachable D empty_db"
| request: "reachable D d \<Longrightarrow> serve D t cred req d = (r, d') \<Longrightarrow> reachable D d'"

lemma reachable_fits: "reachable D d \<Longrightarrow> db_fits d"
  by (induction rule: reachable.induct) (auto intro: db_fits_empty serve_fits)

end
