(* ===== verification/Invariants.thy ===== *)
theory Invariants
  imports Market_Steps
begin

text \<open>
  What stays true of the stored data whatever requests the application serves. An invariant is an
  instance of the locale \<open>store_invariant\<close>: it holds of the empty database and every abstract step
  keeps it, under a condition on the deployment. The steps are first brought into the form the
  invariants need: which rows they add or write.
\<close>

section \<open>Interface: an invariant of the store\<close>

locale store_invariant =
  fixes good :: "deployment \<Rightarrow> bool"
    and inv :: "db \<Rightarrow> bool"
  assumes inv_empty: "inv empty_db"
    and inv_step: "good D \<Longrightarrow> inv d \<Longrightarrow> db_fits d \<Longrightarrow> db_fits d' \<Longrightarrow> market_step D d d' \<Longrightarrow> inv d'"
begin

lemma request_keeps:
  "good D \<Longrightarrow> inv d \<Longrightarrow> db_fits d \<Longrightarrow> serve D t cred req d = (r, d') \<Longrightarrow> inv d'"
  using serve_steps serve_fits inv_step by metis

lemma reachable_inv:
  assumes "good D" and "reachable D d"
  shows "inv d"
  using assms(2)
  by (induction rule: reachable.induct) (auto intro: inv_empty request_keeps assms(1) reachable_fits)

end

section \<open>The rows an order step writes\<close>

text \<open>A new order with the use of its promo code.\<close>

lemma create_order_rows:
  assumes "create_order_body cfg numeric clk ids p u d = Inr (oid, w)"
  obtains od pcs where "users w = users d"
    and "products w = deduct_stock (requested_quantities (ocr_items p)) (products d)"
    and "orders w = orders d @ [od]" and "promo_codes w = pcs"
    and "user_operations w = user_operations d @
           [\<lparr>uo_id = new_operation_id ids, uo_user_id = u_id u, uo_operation_type = CREATE_ORDER,
             uo_created_at = db_now clk\<rparr>]"
    and "o_id od = oid" and "o_user_id od = u_id u" and "o_status od = CREATED"
    and "o_items od = made_items numeric (product_in (products d)) (new_item_id ids) 0 (ocr_items p)"
    and "active_orders d (u_id u) = []"
    and "\<forall>item\<in>set (ocr_items p). \<exists>q. find_by p_id (oc_product_id item) (products d) = Some q \<and>
           p_status q = ACTIVE \<and> quantity_of (ocr_items p) (oc_product_id item) \<le> p_stock q"
    and "(o_promo_code_id od = None \<and> pcs = promo_codes d \<and> o_discount_amount od = numeric 0 \<and>
            o_total_amount od = numeric (gross_amount (product_in (products d)) (ocr_items p))) \<or>
         (\<exists>pc discount. pc \<in> set (promo_codes d) \<and> o_promo_code_id od = Some (pc_id pc) \<and>
            validate_promo_basic (promo_now clk) False pc = Inr () \<and>
            calculate_discount pc (gross_amount (product_in (products d)) (ocr_items p)) = Inr discount \<and>
            pcs = add_uses (pc_id pc) 1 (promo_codes d) \<and> o_discount_amount od = numeric discount \<and>
            o_total_amount od = numeric (gross_amount (product_in (products d)) (ocr_items p) - discount))"
  using assms
proof (cases rule: create_order_body_Inr)
  case (1 od pcs)
  note frame = base_order_promo_id [OF 1(5)]
  show thesis
  proof (rule that [of "write_order numeric od" pcs])
    from 1(5) show "(o_promo_code_id (write_order numeric od) = None \<and> pcs = promo_codes d \<and>
            o_discount_amount (write_order numeric od) = numeric 0 \<and>
            o_total_amount (write_order numeric od) =
              numeric (gross_amount (product_in (products d)) (ocr_items p))) \<or>
         (\<exists>pc discount. pc \<in> set (promo_codes d) \<and> o_promo_code_id (write_order numeric od) = Some (pc_id pc) \<and>
            validate_promo_basic (promo_now clk) False pc = Inr () \<and>
            calculate_discount pc (gross_amount (product_in (products d)) (ocr_items p)) = Inr discount \<and>
            pcs = add_uses (pc_id pc) 1 (promo_codes d) \<and>
            o_discount_amount (write_order numeric od) = numeric discount \<and>
            o_total_amount (write_order numeric od) =
              numeric (gross_amount (product_in (products d)) (ocr_items p) - discount))"
    proof (cases rule: apply_promo_code_Inr)
      case none
      have "promo_codes (d\<lparr>promo_codes := pcs\<rparr>) = promo_codes d" by (simp add: none(3))
      with none(2) show ?thesis by (simp add: base_order_def)
    next
      case (promo c pc discount)
      have "promo_codes (d\<lparr>promo_codes := pcs\<rparr>) = add_uses (pc_id pc) 1 (promo_codes d)" by (simp add: promo(8))
      with promo show ?thesis by (intro disjI2 exI [of _ pc] exI [of _ discount]) (simp add: base_order_def)
    qed
  qed (use 1 frame in \<open>simp_all add: base_order_def\<close>)
qed

text \<open>An order with new items.\<close>

lemma update_order_rows:
  assumes "update_order_body cfg numeric clk ids items u od d = Inr (oid, w)"
  obtains od' pcs where "users w = users d"
    and "products w = deduct_stock (requested_quantities items) (restock (o_items od) (products d))"
    and "orders w = replace_by o_id od' (orders d)" and "promo_codes w = pcs"
    and "user_operations w = user_operations d @
           [\<lparr>uo_id = new_operation_id ids, uo_user_id = u_id u, uo_operation_type = UPDATE_ORDER,
             uo_created_at = db_now clk\<rparr>]"
    and "o_id od' = o_id od" and "o_user_id od' = o_user_id od" and "o_status od' = o_status od"
    and "o_created_at od' = o_created_at od"
    and "o_items od' = made_items numeric (product_in (products d)) (new_item_id ids) 0 items"
    and "\<forall>item\<in>set items. \<exists>q. find_by p_id (oc_product_id item) (restock (o_items od) (products d)) = Some q \<and>
           p_status q = ACTIVE \<and> quantity_of items (oc_product_id item) \<le> p_stock q"
    and "(o_promo_code_id od' = None \<and> o_discount_amount od' = numeric 0 \<and>
            o_total_amount od' = numeric (gross_amount (product_in (products d)) items) \<and>
            (o_promo_code_id od = None \<and> pcs = promo_codes d \<or>
             (\<exists>pc\<in>set (promo_codes d). o_promo_code_id od = Some (pc_id pc) \<and>
                pcs = (if pc_current_uses pc > 0 then add_uses (pc_id pc) (- 1) (promo_codes d) else promo_codes d)))) \<or>
         (\<exists>pc discount. pc \<in> set (promo_codes d) \<and> o_promo_code_id od = Some (pc_id pc) \<and>
            o_promo_code_id od' = o_promo_code_id od \<and> pcs = promo_codes d \<and>
            calculate_discount pc (gross_amount (product_in (products d)) items) = Inr discount \<and>
            o_discount_amount od' = numeric discount \<and>
            o_total_amount od' = numeric (gross_amount (product_in (products d)) items - discount))"
  using assms
proof (cases rule: update_order_body_Inr)
  case (1 od' pcs)
  note frame = reapply_promo_code_frame [OF 1(4)]
  have created: "o_created_at od' = o_created_at od"
    using 1(4) by (auto simp: edited_order_def elim!: reapply_promo_code_Inr)
  show thesis
  proof (rule that [of "write_order numeric od'" pcs])
    show "o_created_at (write_order numeric od') = o_created_at od"
      by (simp add: write_order_def created)
    from 1(4) show "(o_promo_code_id (write_order numeric od') = None \<and>
            o_discount_amount (write_order numeric od') = numeric 0 \<and>
            o_total_amount (write_order numeric od') = numeric (gross_amount (product_in (products d)) items) \<and>
            (o_promo_code_id od = None \<and> pcs = promo_codes d \<or>
             (\<exists>pc\<in>set (promo_codes d). o_promo_code_id od = Some (pc_id pc) \<and>
                pcs = (if pc_current_uses pc > 0 then add_uses (pc_id pc) (- 1) (promo_codes d) else promo_codes d)))) \<or>
         (\<exists>pc discount. pc \<in> set (promo_codes d) \<and> o_promo_code_id od = Some (pc_id pc) \<and>
            o_promo_code_id (write_order numeric od') = o_promo_code_id od \<and> pcs = promo_codes d \<and>
            calculate_discount pc (gross_amount (product_in (products d)) items) = Inr discount \<and>
            o_discount_amount (write_order numeric od') = numeric discount \<and>
            o_total_amount (write_order numeric od') = numeric (gross_amount (product_in (products d)) items - discount))"
    proof (cases rule: reapply_promo_code_Inr)
      case none
      have "promo_codes (d\<lparr>promo_codes := pcs\<rparr>) = promo_codes d" by (simp add: none(3))
      with none(1,2) show ?thesis by (simp add: edited_order_def)
    next
      case (dropped pc)
      have "promo_codes (d\<lparr>promo_codes := pcs\<rparr>) =
          (if pc_current_uses pc > 0 then add_uses (pc_id pc) (- 1) (promo_codes d) else promo_codes d)"
        by (subst dropped(6)) simp
      then have "\<exists>pc\<in>set (promo_codes d). o_promo_code_id od = Some (pc_id pc) \<and>
          pcs = (if pc_current_uses pc > 0 then add_uses (pc_id pc) (- 1) (promo_codes d) else promo_codes d)"
        using dropped(1,2) by (intro bexI [of _ pc]) (simp_all add: edited_order_def)
      with dropped(5) show ?thesis by (simp add: edited_order_def)
    next
      case (kept pc discount)
      have "promo_codes (d\<lparr>promo_codes := pcs\<rparr>) = promo_codes d" by (simp add: kept(6))
      with kept show ?thesis
        by (intro disjI2 exI [of _ pc] exI [of _ discount]) (simp add: edited_order_def)
    qed
  qed (use 1 frame in \<open>simp_all add: edited_order_def\<close>)
qed

end
