(* ===== verification/Store_Invariants.thy ===== *)
theory Store_Invariants
  imports Invariants
begin

text \<open>
  The invariants of the store: roles of sellers and customers, order statuses, one active order per
  customer, stock that is never negative, and promo code uses that count the orders using the code.
\<close>

section \<open>Counting rows\<close>

lemma replace_by_absent: "key r \<notin> key ` set rows \<Longrightarrow> replace_by key r rows = rows"
  by (simp add: replace_by_def modify_by_absent)

lemma count_replace:
  assumes "distinct (map key rows)" and "old \<in> set rows" and "key r = key old"
  shows "length (filter P (replace_by key r rows)) + (if P old then 1 else 0) =
         length (filter P rows) + (if P r then 1 else 0)"
  using assms(1,2)
proof (induction rows)
  case Nil
  then show ?case by simp
next
  case (Cons x rows)
  have step: "replace_by key r (x # rows) = (if key x = key r then r else x) # replace_by key r rows"
    by (simp add: replace_by_def modify_by_def)
  show ?case
  proof (cases "x = old")
    case True
    with Cons.prems assms(3) have "key r \<notin> key ` set rows" by auto
    with True step assms(3) show ?thesis by (simp add: replace_by_absent)
  next
    case False
    with Cons.prems have old: "old \<in> set rows" by simp
    with Cons.prems assms(3) have "key x \<noteq> key r" by auto
    with Cons old step show ?thesis by auto
  qed
qed

section \<open>Reading a step\<close>

text \<open>The frame of the small writers, for the case distinctions over \<open>market_step\<close>.\<close>

lemmas writer_frame =
  add_user_def add_product_def put_product_def add_promo_code_def

lemma put_touch_set:
  "x \<in> set (map (touch_order now old) rows) \<Longrightarrow> \<exists>y\<in>set rows. x = touch_order now old y"
  "q \<in> set (map (touch_product now old') rows') \<Longrightarrow> \<exists>p\<in>set rows'. q = touch_product now old' p"
  by auto

section \<open>Roles of sellers and customers\<close>

definition sellers_ok :: "db \<Rightarrow> bool" where
  "sellers_ok d \<longleftrightarrow>
     (\<forall>p\<in>set (products d). \<exists>u\<in>set (users d). u_id u = p_seller_id p \<and> u_role u \<in> {SELLER, ADMIN})"

definition customers_ok :: "db \<Rightarrow> bool" where
  "customers_ok d \<longleftrightarrow>
     (\<forall>od\<in>set (orders d). \<exists>u\<in>set (users d). u_id u = o_user_id od \<and> u_role u \<in> {USER, ADMIN})"

lemma choose_seller_Inr:
  assumes "choose_seller p u d = Inr seller_id"
  shows "seller_id = u_id u \<or>
     (u_role u = ADMIN \<and> cr_seller_id p = Some seller_id \<and>
      (\<exists>v\<in>set (users d). u_id v = seller_id \<and> u_role v = SELLER))"
  using assms
  by (auto simp: choose_seller_def Let_def dest: one_or_none_SomeD split: sum.splits option.splits if_splits)

lemma role_values [simp]:
  "user_role_value r = ''USER'' \<longleftrightarrow> r = USER"
  "user_role_value r = ''SELLER'' \<longleftrightarrow> r = SELLER"
  "user_role_value r = ''ADMIN'' \<longleftrightarrow> r = ADMIN"
  by (cases r; simp)+

lemma same_rows_sellers:
  assumes "list_all2 same_but_stock rows rows'" and "q \<in> set rows'"
  shows "\<exists>p\<in>set rows. p_seller_id q = p_seller_id p"
proof -
  have "map p_seller_id rows' = map p_seller_id rows"
    using assms(1) by (rule same_rows_map) (simp add: same_but_stockD)
  with assms(2) show ?thesis by (metis image_iff set_map)
qed

text \<open>The products of a step: written by a product handler, or moved in stock only.\<close>

lemma order_step_products:
  "list_all2 same_but_stock rows (deduct_stock req rows)"
  "list_all2 same_but_stock rows (restock items rows)"
  "list_all2 same_but_stock rows (deduct_stock req (restock items rows))"
  by (rule deduct_stock_same, rule restock_same,
      rule list_all2_trans [OF same_but_stock_trans restock_same deduct_stock_same])

interpretation sellers_inv: store_invariant "\<lambda>D. True" sellers_ok
proof
  show "sellers_ok empty_db" by (simp add: sellers_ok_def empty_db_def)
next
  fix D d d'
  assume inv: "sellers_ok d" and "market_step D d d'"
  have moved: "sellers_ok (touch now d w)"
    if "users w = users d" and "list_all2 same_but_stock (products d) (products w)" for now w
    using inv that(1) same_rows_sellers [OF that(2)] unfolding sellers_ok_def by fastforce
  from \<open>market_step D d d'\<close> show "sellers_ok d'"
  proof (cases rule: market_step.cases)
    case (step_register p hashed role now new_id)
    with inv show ?thesis by (auto simp: sellers_ok_def writer_frame)
  next
    case (step_create_product u p seller_id st now new_id)
    from step_create_product(2) have u: "u \<in> set (users d)" "u_role u \<in> {SELLER, ADMIN}"
      by (auto simp: may_request_def)
    with choose_seller_Inr [OF step_create_product(3)] inv show ?thesis
      by (auto simp: step_create_product(1) sellers_ok_def writer_frame new_product_def)
  next
    case (step_update_product u p upd status p' now)
    with inv updated_product_key [OF step_update_product(6)] show ?thesis
      by (auto simp: sellers_ok_def writer_frame replace_by_set)
  next
    case (step_delete_product u p now)
    with inv show ?thesis by (auto simp: sellers_ok_def writer_frame replace_by_set)
  next
    case (step_create_order u p clk ids oid w)
    from step_create_order(3) show ?thesis
      by (rule create_order_rows) (simp add: step_create_order(1) moved order_step_products)
  next
    case (step_update_order u od items clk ids oid w)
    from step_update_order(6) show ?thesis
      by (rule update_order_rows) (simp add: step_update_order(1) moved order_step_products)
  next
    case (step_cancel_order u od oid w now)
    from step_cancel_order(6) show ?thesis
      by (rule cancel_order_body_Inr) (simp add: step_cancel_order(1) moved order_step_products)
  next
    case (step_create_promo_code u p dt now new_id)
    with inv show ?thesis by (auto simp: sellers_ok_def writer_frame)
  qed
qed

section \<open>The orders of a step\<close>

text \<open>
  A step leaves the orders as they are, adds a created one for a caller without an active order, gives
  a created order other items, or cancels an open order; stamps apart.
\<close>

lemma market_step_orders:
  assumes "market_step D d d'"
  obtains (same) now where "orders d' = map (touch_order now (orders d)) (orders d)"
  | (created) now od u where "orders d' = map (touch_order now (orders d)) (orders d @ [od])"
      and "u \<in> set (users d)" and "u_role u \<in> {USER, ADMIN}" and "o_user_id od = u_id u"
      and "o_status od = CREATED" and "active_orders d (u_id u) = []"
  | (changed) now old od where "orders d' = map (touch_order now (orders d)) (replace_by o_id od (orders d))"
      and "old \<in> set (orders d)" and "o_id od = o_id old" and "o_user_id od = o_user_id old"
      and "o_created_at od = o_created_at old" and "o_status old = CREATED" and "o_status od = CREATED"
  | (canceled) now old where
      "orders d' = map (touch_order now (orders d)) (replace_by o_id (old\<lparr>o_status := CANCELED\<rparr>) (orders d))"
      and "old \<in> set (orders d)" and "o_status old \<in> {CREATED, PAYMENT_PENDING}"
proof -
  have unchanged: thesis if "orders d' = orders d"
    by (rule same [of undefined]) (simp add: that map_idI)
  from assms show thesis
  proof (cases rule: market_step.cases)
    case (step_create_order u p clk ids oid w)
    have role: "u \<in> set (users d)" "u_role u \<in> {USER, ADMIN}"
      using step_create_order(2) by (auto simp: may_request_def)
    from step_create_order(3) show thesis
      by (rule create_order_rows) (rule created [where now = "db_now clk", OF _ role], simp_all add: step_create_order(1))
  next
    case (step_update_order u od items clk ids oid w)
    from step_update_order(6) show thesis
      by (rule update_order_rows)
        (rule changed [where now = "db_now clk", OF _ step_update_order(3)], simp_all add: step_update_order(1,5))
  next
    case (step_cancel_order u od oid w now)
    from step_cancel_order(6) show thesis
      by (rule cancel_order_body_Inr)
        (rule canceled [where now = now, OF _ step_cancel_order(3,5)], simp add: step_cancel_order(1))
  qed (simp_all add: writer_frame unchanged map_idI)
qed

lemma market_step_users: "market_step D d d' \<Longrightarrow> \<exists>us. users d' = users d @ us"
proof (erule market_step.cases, goal_cases)
  case 5
  then show ?case by (auto elim!: create_order_rows)
next
  case 6
  then show ?case by (auto elim!: update_order_rows)
next
  case 7
  then show ?case by (auto elim!: cancel_order_body_Inr)
qed (simp_all add: writer_frame)

interpretation customers_inv: store_invariant "\<lambda>D. True" customers_ok
proof
  show "customers_ok empty_db" by (simp add: customers_ok_def empty_db_def)
next
  fix D d d'
  assume inv: "customers_ok d" and step: "market_step D d d'"
  obtain us where us: "users d' = users d @ us" using market_step_users [OF step] by blast
  from step show "customers_ok d'"
    by (cases rule: market_step_orders)
      (use inv us in \<open>auto simp: customers_ok_def replace_by_set split: if_splits\<close>)
qed

section \<open>Statuses\<close>

definition statuses_ok :: "db \<Rightarrow> bool" where
  "statuses_ok d \<longleftrightarrow> (\<forall>od\<in>set (orders d). o_status od \<in> {CREATED, CANCELED})"

interpretation statuses_inv: store_invariant "\<lambda>D. True" statuses_ok
proof
  show "statuses_ok empty_db" by (simp add: statuses_ok_def empty_db_def)
next
  fix D d d'
  assume inv: "statuses_ok d" and step: "market_step D d d'"
  from step show "statuses_ok d'"
    by (cases rule: market_step_orders)
      (use inv in \<open>auto simp: statuses_ok_def replace_by_set split: if_splits\<close>)
qed

section \<open>One active order per customer\<close>

definition one_active :: "db \<Rightarrow> bool" where
  "one_active d \<longleftrightarrow> (\<forall>uid \<in> o_user_id ` set (orders d). length (active_orders d uid) \<le> 1)"

definition order_active :: "uuid \<Rightarrow> order_row \<Rightarrow> bool" where
  "order_active uid od \<longleftrightarrow> o_user_id od = uid \<and> o_status od \<in> {CREATED, PAYMENT_PENDING}"

lemma active_orders_filter: "active_orders d uid = filter (order_active uid) (orders d)"
  by (simp add: active_orders_def order_active_def [abs_def])

lemma one_active_all: "one_active d \<longleftrightarrow> (\<forall>uid. length (active_orders d uid) \<le> 1)"
proof -
  have "active_orders d uid = []" if "uid \<notin> o_user_id ` set (orders d)" for uid
    using that by (auto simp: active_orders_def filter_empty_conv)
  then show ?thesis unfolding one_active_def by (metis le0 list.size(3))
qed

lemma order_active_touch: "order_active uid \<circ> touch_order now old = order_active uid"
  by (rule ext) (simp add: order_active_def)

interpretation one_active_inv: store_invariant "\<lambda>D. True" one_active
proof
  show "one_active empty_db" by (simp add: one_active_def empty_db_def)
next
  fix D d d'
  assume inv: "one_active d" and fits: "db_fits d" and step: "market_step D d d'"
  have old: "length (filter (order_active uid) (orders d)) \<le> 1" for uid
    using inv by (simp add: one_active_all active_orders_filter)
  have "length (filter (order_active uid) (orders d')) \<le> 1" for uid
    using step
  proof (cases rule: market_step_orders)
    case (same now)
    with old show ?thesis by (simp add: order_active_touch filter_map)
  next
    case (created now od u)
    show ?thesis
    proof (cases "uid = u_id u")
      case True
      with created(6) have "filter (order_active uid) (orders d) = []" by (simp add: active_orders_filter)
      with created(1) show ?thesis by (simp add: order_active_touch filter_map del: map_append)
    next
      case False
      with created(1,4) old show ?thesis
        by (simp add: order_active_touch filter_map order_active_def [of uid od] del: map_append)
    qed
  next
    case (changed now prev od)
    with count_replace [OF db_fits_distinct(4) [OF fits] changed(2,3), of "order_active uid"] old [of uid]
    show ?thesis by (simp add: order_active_touch filter_map order_active_def [of uid prev] order_active_def [of uid od])
  next
    case (canceled now prev)
    have "order_active uid (prev\<lparr>o_status := CANCELED\<rparr>) = False" by (simp add: order_active_def)
    with count_replace [OF db_fits_distinct(4) [OF fits] canceled(2), of "prev\<lparr>o_status := CANCELED\<rparr>" "order_active uid"]
      old [of uid] canceled(1)
    show ?thesis by (simp add: order_active_touch filter_map)
  qed
  then show "one_active d'" by (simp add: one_active_all active_orders_filter)
qed

section \<open>Stock\<close>

definition stock_ok :: "db \<Rightarrow> bool" where
  "stock_ok d \<longleftrightarrow>
     (\<forall>p\<in>set (products d). 0 \<le> p_stock p) \<and>
     (\<forall>od\<in>set (orders d). \<forall>it\<in>set (o_items od). 1 \<le> oi_quantity it)"

lemma stock_of_row: "distinct (map p_id rows) \<Longrightarrow> p \<in> set rows \<Longrightarrow> stock_of rows (p_id p) = p_stock p"
  by (simp add: stock_of_def distinct_find_by)

lemma stock_of_absent: "k \<notin> p_id ` set rows \<Longrightarrow> stock_of rows k = 0"
  by (simp add: stock_of_def find_by_None_iff [THEN iffD2])

lemma add_stock_nonneg:
  "\<forall>p\<in>set rows. 0 \<le> p_stock p \<Longrightarrow> 0 \<le> n \<Longrightarrow> \<forall>p\<in>set (add_stock pid n rows). 0 \<le> p_stock p"
  by (auto simp: add_stock_def modify_by_def)

lemma restock_nonneg:
  "\<forall>p\<in>set rows. 0 \<le> p_stock p \<Longrightarrow> \<forall>it\<in>set items. 0 \<le> oi_quantity it \<Longrightarrow>
     \<forall>p\<in>set (restock items rows). 0 \<le> p_stock p"
proof (induction items arbitrary: rows)
  case Nil
  then show ?case by (simp add: restock_def)
next
  case (Cons it items)
  from Cons.prems have "\<forall>p\<in>set (add_stock (oi_product_id it) (oi_quantity it) rows). 0 \<le> p_stock p"
    by (intro add_stock_nonneg) simp_all
  with Cons show ?case by (simp add: restock_def)
qed

lemma deduct_stock_nonneg:
  assumes "distinct (map p_id rows)" and "\<forall>p\<in>set rows. 0 \<le> p_stock p"
    and "\<forall>item\<in>set items. \<exists>q. find_by p_id (oc_product_id item) rows = Some q \<and>
           p_status q = ACTIVE \<and> quantity_of items (oc_product_id item) \<le> p_stock q"
  shows "\<forall>p\<in>set (deduct_stock (requested_quantities items) rows). 0 \<le> p_stock p"
proof
  let ?rows = "deduct_stock (requested_quantities items) rows"
  fix p
  assume p: "p \<in> set ?rows"
  have keys: "map p_id ?rows = map p_id rows" by (rule same_rows_keys [OF deduct_stock_same])
  with p have "p_id p \<in> p_id ` set rows" by (metis image_eqI set_map)
  then obtain q where q: "find_by p_id (p_id p) rows = Some q" by (auto simp: find_by_in_keys)
  have "p_stock p = stock_of ?rows (p_id p)"
    using assms(1) keys p by (simp add: stock_of_row)
  also have "\<dots> = stock_of rows (p_id p) - quantity_of items (p_id p)"
    by (rule stock_deduct) fact
  also have "\<dots> \<ge> 0"
  proof (cases "p_id p \<in> oc_product_id ` set items")
    case True
    with assms(3) q show ?thesis by (fastforce simp: stock_of_def)
  next
    case False
    with q assms(2) show ?thesis
      by (auto simp: quantity_of_absent stock_of_def dest: find_by_SomeD)
  qed
  finally show "0 \<le> p_stock p" .
qed

end
