(* ===== verification/Store_Accounts.thy ===== *)
theory Store_Accounts
  imports Store_Invariants
begin

text \<open>
  The counters of the store against the orders in it: stock is never negative, and the uses of a
  promo code are the orders, not canceled, that carry it, at most as many as the code allows. Both
  rest on the payload bounds of the interface description (\<open>follows_schema\<close>).
\<close>

section \<open>What the description gives a step\<close>

lemma accepted_schema: "follows_schema D \<Longrightarrow> may_request D d u req \<Longrightarrow> schema_ok (AsUser req)"
  by (simp add: follows_schema_def may_request_def)

lemma accepted_items:
  assumes "follows_schema D"
  shows "may_request D d u (CreateOrder p) \<Longrightarrow> item \<in> set (ocr_items p) \<Longrightarrow> 1 \<le> oc_quantity item"
    and "may_request D d u (UpdateOrder oid items) \<Longrightarrow> item \<in> set items \<Longrightarrow> 1 \<le> oc_quantity item"
  using accepted_schema [OF assms, of d u "CreateOrder p"] accepted_schema [OF assms, of d u "UpdateOrder oid items"]
  by (auto simp: order_items_ok_def list_all_iff)

lemma made_items_mem:
  assumes "it \<in> set (made_items numeric m gen k items)"
  obtains item where "item \<in> set items" and "oi_quantity it = oc_quantity item"
    and "oi_product_id it = oc_product_id item" and "oi_price_at_order it = numeric (price_in m (oc_product_id item))"
  using assms by (auto simp: made_items_def dest: set_zip_rightD)

section \<open>Stock\<close>

lemma stock_ok_touch:
  assumes "\<forall>p\<in>set (products w). 0 \<le> p_stock p" and "\<forall>od\<in>set (orders w). \<forall>it\<in>set (o_items od). 1 \<le> oi_quantity it"
  shows "stock_ok (touch now d w)"
  using assms by (auto simp: stock_ok_def)

lemma updated_product_stock:
  "updated_product numeric upd status p = Some p' \<Longrightarrow> given (\<lambda>n. 0 \<le> n) (up_stock upd) \<Longrightarrow> 0 \<le> p_stock p \<Longrightarrow>
     0 \<le> p_stock p'"
  by (auto simp: updated_product_def set_column_def given_def split: option.splits)

interpretation stock_inv: store_invariant follows_schema stock_ok
proof
  show "stock_ok empty_db" by (simp add: stock_ok_def empty_db_def)
next
  fix D d d'
  assume D: "follows_schema D" and inv: "stock_ok d" and fits: "db_fits d" and "market_step D d d'"
  have p0: "\<forall>p\<in>set (products d). 0 \<le> p_stock p" and q1: "\<forall>od\<in>set (orders d). \<forall>it\<in>set (o_items od). 1 \<le> oi_quantity it"
    using inv by (simp_all add: stock_ok_def)
  have restocked: "\<forall>p\<in>set (restock (o_items od) (products d)). 0 \<le> p_stock p" if "od \<in> set (orders d)" for od
    by (rule restock_nonneg [OF p0]) (use q1 that in force)
  have made: "1 \<le> oi_quantity it"
    if "\<And>item. item \<in> set items \<Longrightarrow> 1 \<le> oc_quantity item" "it \<in> set (made_items numeric m gen k items)"
    for it items numeric m gen k
    using that(2) by (rule made_items_mem) (simp add: that(1))
  from \<open>market_step D d d'\<close> show "stock_ok d'"
  proof (cases rule: market_step.cases)
    case (step_register p hashed role now new_id)
    with inv show ?thesis by (simp add: stock_ok_def writer_frame)
  next
    case (step_create_product u p seller_id st now new_id)
    from accepted_schema [OF D step_create_product(2)] p0 q1 show ?thesis
      unfolding step_create_product(1) by (intro stock_ok_touch) (auto simp: writer_frame new_product_def)
  next
    case (step_update_product u p upd status p' now)
    from accepted_schema [OF D step_update_product(2)] p0 step_update_product(3)
    have "0 \<le> p_stock p'" by (intro updated_product_stock [OF step_update_product(6)]) simp_all
    with p0 q1 show ?thesis
      unfolding step_update_product(1) by (intro stock_ok_touch) (auto simp: writer_frame replace_by_set)
  next
    case (step_delete_product u p now)
    with p0 q1 show ?thesis
      unfolding step_delete_product(1) by (intro stock_ok_touch) (auto simp: writer_frame replace_by_set)
  next
    case (step_create_order u p clk ids oid w)
    note q = accepted_items(1) [OF D step_create_order(2)]
    from step_create_order(3) show ?thesis unfolding step_create_order(1)
    proof (rule create_order_rows, intro stock_ok_touch)
      fix od
      assume w: "products w = deduct_stock (requested_quantities (ocr_items p)) (products d)"
        "orders w = orders d @ [od]" "o_items od = made_items (dp_numeric D) (product_in (products d)) (new_item_id ids) 0 (ocr_items p)"
        and enough: "\<forall>item\<in>set (ocr_items p). \<exists>q. find_by p_id (oc_product_id item) (products d) = Some q \<and>
           p_status q = ACTIVE \<and> quantity_of (ocr_items p) (oc_product_id item) \<le> p_stock q"
      show "\<forall>p\<in>set (products w). 0 \<le> p_stock p"
        unfolding w by (rule deduct_stock_nonneg [OF db_fits_distinct(3) [OF fits] p0 enough])
      show "\<forall>od\<in>set (orders w). \<forall>it\<in>set (o_items od). 1 \<le> oi_quantity it"
        using q1 made [OF q] by (auto simp: w)
    qed
  next
    case (step_update_order u od items clk ids oid w)
    note q = accepted_items(2) [OF D step_update_order(2)]
    let ?rows = "restock (o_items od) (products d)"
    have dist: "distinct (map p_id ?rows)"
      using db_fits_distinct(3) [OF fits] by (simp add: same_rows_keys [OF restock_same])
    from step_update_order(6) show ?thesis unfolding step_update_order(1)
    proof (rule update_order_rows, intro stock_ok_touch)
      fix od'
      assume w: "products w = deduct_stock (requested_quantities items) ?rows"
        "orders w = replace_by o_id od' (orders d)" "o_items od' = made_items (dp_numeric D) (product_in (products d)) (new_item_id ids) 0 items"
        and enough: "\<forall>item\<in>set items. \<exists>q. find_by p_id (oc_product_id item) ?rows = Some q \<and>
           p_status q = ACTIVE \<and> quantity_of items (oc_product_id item) \<le> p_stock q"
      show "\<forall>p\<in>set (products w). 0 \<le> p_stock p"
        unfolding w by (rule deduct_stock_nonneg [OF dist restocked [OF step_update_order(3)] enough])
      show "\<forall>od\<in>set (orders w). \<forall>it\<in>set (o_items od). 1 \<le> oi_quantity it"
        using q1 made [OF q] by (auto simp: w replace_by_set split: if_splits)
    qed
  next
    case (step_cancel_order u od oid w now)
    from step_cancel_order(6) show ?thesis unfolding step_cancel_order(1)
      by (rule cancel_order_body_Inr, intro stock_ok_touch)
        (use restocked q1 step_cancel_order(3) in \<open>auto simp: replace_by_set\<close>)
  next
    case (step_create_promo_code u p dt now new_id)
    with inv show ?thesis by (simp add: stock_ok_def writer_frame)
  qed
qed

section \<open>Uses of promo codes\<close>

definition carries_code :: "uuid \<Rightarrow> order_row \<Rightarrow> bool" where
  "carries_code pid od \<longleftrightarrow> o_status od \<noteq> CANCELED \<and> o_promo_code_id od = Some pid"

definition code_orders :: "db \<Rightarrow> uuid \<Rightarrow> nat" where
  "code_orders d pid = length (filter (carries_code pid) (orders d))"

definition uses_ok :: "db \<Rightarrow> bool" where
  "uses_ok d \<longleftrightarrow>
     (\<forall>pc\<in>set (promo_codes d). pc_current_uses pc = int (code_orders d (pc_id pc)) \<and> pc_current_uses pc \<le> pc_max_uses pc)"

lemma carries_code_touch: "carries_code pid \<circ> touch_order now old = carries_code pid"
  by (rule ext) (simp add: carries_code_def)

lemma code_orders_touch [simp]: "code_orders (touch now d w) pid = code_orders w pid"
  by (simp add: code_orders_def filter_map carries_code_touch)

lemma add_uses_mem:
  "pc' \<in> set (add_uses pid n rows) \<Longrightarrow>
     \<exists>pc\<in>set rows. pc_id pc' = pc_id pc \<and> pc_max_uses pc' = pc_max_uses pc \<and>
       pc_discount_value pc' = pc_discount_value pc \<and>
       pc_current_uses pc' = pc_current_uses pc + (if pc_id pc = pid then n else 0)"
  by (auto simp: add_uses_def modify_by_def)

lemma uses_ok_same:
  assumes "uses_ok d" and "promo_codes w = promo_codes d" and "\<And>pid. code_orders w pid = code_orders d pid"
  shows "uses_ok (touch now d w)"
  unfolding uses_ok_def
proof
  fix pc
  assume "pc \<in> set (promo_codes (touch now d w))"
  with assms(1,2) have "pc_current_uses pc = int (code_orders d (pc_id pc))" "pc_current_uses pc \<le> pc_max_uses pc"
    unfolding uses_ok_def by simp_all metis+
  then show "pc_current_uses pc = int (code_orders (touch now d w) (pc_id pc)) \<and> pc_current_uses pc \<le> pc_max_uses pc"
    by (simp add: assms(3))
qed

lemma uses_ok_moved:
  assumes "uses_ok d" and "promo_codes w = add_uses pid n (promo_codes d)"
    and "\<And>k. int (code_orders w k) = int (code_orders d k) + (if k = pid then n else 0)"
    and "\<And>pc. pc \<in> set (promo_codes d) \<Longrightarrow> pc_id pc = pid \<Longrightarrow> pc_current_uses pc + n \<le> pc_max_uses pc"
  shows "uses_ok (touch now d w)"
  unfolding uses_ok_def
proof
  fix pc'
  assume "pc' \<in> set (promo_codes (touch now d w))"
  then obtain pc where pc: "pc \<in> set (promo_codes d)" "pc_id pc' = pc_id pc" "pc_max_uses pc' = pc_max_uses pc"
      "pc_current_uses pc' = pc_current_uses pc + (if pc_id pc = pid then n else 0)"
    using add_uses_mem [of pc' pid n "promo_codes d"] by (auto simp: assms(2))
  with assms(1,4) show "pc_current_uses pc' = int (code_orders (touch now d w) (pc_id pc')) \<and> pc_current_uses pc' \<le> pc_max_uses pc'"
    by (auto simp: uses_ok_def assms(3))
qed

lemma code_orders_replace:
  assumes "db_fits d" and "old \<in> set (orders d)" and "o_id od = o_id old" and "orders w = replace_by o_id od (orders d)"
  shows "int (code_orders w pid) =
     int (code_orders d pid) + (if carries_code pid od then 1 else 0) - (if carries_code pid old then 1 else 0)"
  using count_replace [OF db_fits_distinct(4) [OF assms(1)] assms(2,3), of "carries_code pid"]
  by (auto simp: code_orders_def assms(4) split: if_splits)

lemma code_orders_pos: "od \<in> set (orders d) \<Longrightarrow> carries_code pid od \<Longrightarrow> 0 < code_orders d pid"
  by (auto simp: code_orders_def filter_empty_conv)

interpretation uses_inv: store_invariant follows_schema uses_ok
proof
  show "uses_ok empty_db" by (simp add: uses_ok_def empty_db_def)
next
  fix D d d'
  assume D: "follows_schema D" and inv: "uses_ok d" and fits: "db_fits d" and fits': "db_fits d'"
    and "market_step D d d'"
  have used: "0 < pc_current_uses pc"
    if "pc \<in> set (promo_codes d)" "od \<in> set (orders d)" "carries_code (pc_id pc) od" for pc od
    using that inv code_orders_pos by (fastforce simp: uses_ok_def)
  have unique: "q = pc" if "pc \<in> set (promo_codes d)" "q \<in> set (promo_codes d)" "pc_id q = pc_id pc" for pc q
    using that db_fits_distinct(5) [OF fits] by (metis distinct_find_by option.inject)
  have bound: "pc_current_uses pc - 1 \<le> pc_max_uses pc" if "pc \<in> set (promo_codes d)" for pc
    using that inv unfolding uses_ok_def by fastforce
  from \<open>market_step D d d'\<close> show "uses_ok d'"
  proof (cases rule: market_step.cases)
    case (step_register p hashed role now new_id)
    have "code_orders d' pid = code_orders d pid" for pid
      by (simp add: code_orders_def step_register(1) writer_frame)
    moreover have "promo_codes d' = promo_codes d"
      by (simp add: step_register(1) writer_frame)
    ultimately show ?thesis using inv unfolding uses_ok_def by presburger
  next
    case (step_create_product u p seller_id st now new_id)
    show ?thesis unfolding step_create_product(1)
      by (rule uses_ok_same [OF inv]) (simp_all add: writer_frame code_orders_def)
  next
    case (step_update_product u p upd status p' now)
    show ?thesis unfolding step_update_product(1)
      by (rule uses_ok_same [OF inv]) (simp_all add: writer_frame code_orders_def)
  next
    case (step_delete_product u p now)
    show ?thesis unfolding step_delete_product(1)
      by (rule uses_ok_same [OF inv]) (simp_all add: writer_frame code_orders_def)
  next
    case (step_create_order u p clk ids oid w)
    from step_create_order(3) show ?thesis unfolding step_create_order(1)
    proof (rule create_order_rows, elim disjE exE conjE)
      fix od pcs
      assume w: "orders w = orders d @ [od]" "promo_codes w = pcs" "pcs = promo_codes d" "o_promo_code_id od = None"
      show "uses_ok (touch (db_now clk) d w)"
        by (rule uses_ok_same [OF inv]) (simp_all add: w code_orders_def carries_code_def)
    next
      fix od pcs pc
      assume w: "orders w = orders d @ [od]" "promo_codes w = pcs" "pcs = add_uses (pc_id pc) 1 (promo_codes d)"
          "o_promo_code_id od = Some (pc_id pc)" "o_status od = CREATED"
        and pc: "pc \<in> set (promo_codes d)" "validate_promo_basic (promo_now clk) False pc = Inr ()"
      show "uses_ok (touch (db_now clk) d w)"
        by (rule uses_ok_moved [OF inv, of _ "pc_id pc" 1])
          (use pc in \<open>auto simp: w code_orders_def carries_code_def validate_promo_basic_Inr dest: unique [OF pc(1)]\<close>)
    qed
  next
    case (step_update_order u od items clk ids oid w)
    have held: "carries_code pid od \<longleftrightarrow> o_promo_code_id od = Some pid" for pid
      using step_update_order(5) by (simp add: carries_code_def)
    from step_update_order(6) show ?thesis unfolding step_update_order(1)
    proof (rule update_order_rows)
      fix od' pcs
      assume w: "orders w = replace_by o_id od' (orders d)" "promo_codes w = pcs" "o_id od' = o_id od"
          "o_status od' = o_status od"
        and promo: "(o_promo_code_id od' = None \<and> o_discount_amount od' = dp_numeric D 0 \<and>
            o_total_amount od' = dp_numeric D (gross_amount (product_in (products d)) items) \<and>
            (o_promo_code_id od = None \<and> pcs = promo_codes d \<or>
             (\<exists>pc\<in>set (promo_codes d). o_promo_code_id od = Some (pc_id pc) \<and>
                pcs = (if pc_current_uses pc > 0 then add_uses (pc_id pc) (- 1) (promo_codes d) else promo_codes d)))) \<or>
         (\<exists>pc discount. pc \<in> set (promo_codes d) \<and> o_promo_code_id od = Some (pc_id pc) \<and>
            o_promo_code_id od' = o_promo_code_id od \<and> pcs = promo_codes d \<and>
            calculate_discount pc (gross_amount (product_in (products d)) items) = Inr discount \<and>
            o_discount_amount od' = dp_numeric D discount \<and>
            o_total_amount od' = dp_numeric D (gross_amount (product_in (products d)) items - discount))"
      note count = code_orders_replace [OF fits step_update_order(3) w(3,1)]
      have held': "carries_code pid od' \<longleftrightarrow> o_promo_code_id od' = Some pid" for pid
        using step_update_order(5) w(4) by (simp add: carries_code_def)
      from promo consider (same) "o_promo_code_id od' = o_promo_code_id od" "pcs = promo_codes d"
        | (dropped) pc where "o_promo_code_id od' = None" "pc \<in> set (promo_codes d)" "o_promo_code_id od = Some (pc_id pc)"
            "pcs = (if pc_current_uses pc > 0 then add_uses (pc_id pc) (- 1) (promo_codes d) else promo_codes d)"
        by fastforce
      then show "uses_ok (touch (db_now clk) d w)"
      proof cases
        case same
        have "code_orders w pid = code_orders d pid" for pid
          using count [of pid] held held' same(1) by auto
        then show ?thesis by (intro uses_ok_same [OF inv]) (simp_all add: w same(2))
      next
        case dropped
        have "0 < pc_current_uses pc"
          using used [OF dropped(2) step_update_order(3)] held dropped(3) by simp
        with dropped(4) have pcs: "promo_codes w = add_uses (pc_id pc) (- 1) (promo_codes d)" by (simp add: w)
        show ?thesis
          by (rule uses_ok_moved [OF inv pcs])
            (use count held held' dropped(1,3) bound in auto)
      qed
    qed
  next
    case (step_cancel_order u od oid w now)
    have open_od: "carries_code pid od \<longleftrightarrow> o_promo_code_id od = Some pid" for pid
      using step_cancel_order(5) by (auto simp: carries_code_def)
    have gone: "\<not> carries_code pid (od\<lparr>o_status := CANCELED\<rparr>)" for pid by (simp add: carries_code_def)
    from step_cancel_order(6) show ?thesis unfolding step_cancel_order(1)
    proof (rule cancel_order_body_Inr, elim disjE bexE conjE)
      fix pcs
      assume w: "w = d\<lparr>products := restock (o_items od) (products d),
               orders := replace_by o_id (od\<lparr>o_status := CANCELED\<rparr>) (orders d), promo_codes := pcs\<rparr>"
          "pcs = promo_codes d"
        and unused: "\<forall>pid. o_promo_code_id od = Some pid \<longrightarrow>
             (\<forall>pc\<in>set (promo_codes d). pc_id pc = pid \<longrightarrow> pc_current_uses pc \<le> 0)"
      have "o_promo_code_id od \<noteq> Some pid" for pid
      proof
        assume pid: "o_promo_code_id od = Some pid"
        then obtain pc where "pc \<in> set (promo_codes d)" "pc_id pc = pid"
          using db_fits_foreign_keys(4) [OF fits step_cancel_order(3)] by blast
        with used [of pc od] step_cancel_order(3) open_od pid unused show False by fastforce
      qed
      with code_orders_replace [OF fits step_cancel_order(3), of "od\<lparr>o_status := CANCELED\<rparr>" w] open_od gone w
      show "uses_ok (touch now d w)" by (intro uses_ok_same [OF inv]) simp_all
    next
      fix pcs pc
      assume w: "w = d\<lparr>products := restock (o_items od) (products d),
               orders := replace_by o_id (od\<lparr>o_status := CANCELED\<rparr>) (orders d), promo_codes := pcs\<rparr>"
          "pcs = add_uses (pc_id pc) (- 1) (promo_codes d)"
        and pc: "pc \<in> set (promo_codes d)" "o_promo_code_id od = Some (pc_id pc)"
      have count: "int (code_orders w k) = int (code_orders d k) + (if k = pc_id pc then - 1 else 0)" for k
        using code_orders_replace [OF fits step_cancel_order(3), of "od\<lparr>o_status := CANCELED\<rparr>" w k] open_od gone pc(2)
        by (auto simp: w)
      show "uses_ok (touch now d w)"
        by (rule uses_ok_moved [OF inv _ count]) (use bound in \<open>auto simp: w\<close>)
    qed
  next
    case (step_create_promo_code u p dt now new_id)
    from accepted_schema [OF D step_create_promo_code(2)] have max: "1 \<le> pcr_max_uses p" by simp
    from db_fits_distinct(5) [OF fits'] have "new_id \<notin> pc_id ` set (promo_codes d)"
      by (simp add: step_create_promo_code(1) writer_frame new_promo_code_def)
    then have "code_orders d new_id = 0"
      using db_fits_foreign_keys(4) [OF fits] by (auto simp: code_orders_def carries_code_def filter_empty_conv)
    with inv max show ?thesis
      by (auto simp: step_create_promo_code(1) uses_ok_def writer_frame new_promo_code_def code_orders_def)
  qed
qed

end
