(* ===== verification/Store_Amounts.thy ===== *)
theory Store_Amounts
  imports Store_Accounts
begin

text \<open>
  Money: prices are positive amounts of whole cents, and an order's total and discount are not
  negative and add up to the price of its items, to within the cent that rounding the two columns
  separately can cost.
\<close>

section \<open>Whole cents\<close>

lemma is_centsI: "x * 100 = of_int n \<Longrightarrow> is_cents x"
  by (simp add: is_cents_def)

lemma is_centsE:
  assumes "is_cents x"
  obtains n :: int where "x = of_int n / 100"
proof (rule that)
  show "x = of_int \<lfloor>x * 100\<rfloor> / 100"
    using assms unfolding is_cents_def by linarith
qed

lemma is_cents_0 [simp]: "is_cents 0"
  by (simp add: is_cents_def)

lemma is_cents_add: "is_cents x \<Longrightarrow> is_cents y \<Longrightarrow> is_cents (x + y)"
  by (elim is_centsE) (rule is_centsI [of _ "_ + _"], simp)

lemma is_cents_mult: "is_cents x \<Longrightarrow> is_cents (x * of_int k)"
proof (erule is_centsE)
  fix n
  assume "x = of_int n / 100"
  then show "is_cents (x * of_int k)" by (intro is_centsI [of _ "n * k"]) simp
qed

lemma numeric_cents:
  assumes "rounds_to_cents numeric" and "is_cents x"
  shows "numeric x = x"
proof -
  have near: "\<bar>numeric x - x\<bar> \<le> 1 / 200" and cents: "is_cents (numeric x)"
    using assms(1) by (simp_all add: rounds_to_cents_def)
  obtain n m :: int where n: "x = of_int n / 100" and m: "numeric x = of_int m / 100"
    using assms(2) cents by (elim is_centsE)
  have "\<bar>of_int m / 100 - of_int n / 100\<bar> \<le> (1 / 200 :: rat)"
    using near unfolding m unfolding n .
  then have "m = n" by linarith
  with n m show ?thesis by simp
qed

lemma numeric_near: "rounds_to_cents numeric \<Longrightarrow> \<bar>numeric x - x\<bar> \<le> 1 / 200"
  by (simp add: rounds_to_cents_def)

lemma numeric_is_cents: "rounds_to_cents numeric \<Longrightarrow> is_cents (numeric x)"
  by (simp add: rounds_to_cents_def)

lemma numeric_nonneg:
  assumes "rounds_to_cents numeric" and "0 \<le> x"
  shows "0 \<le> numeric x"
proof -
  obtain m :: int where m: "numeric x = of_int m / 100"
    using numeric_is_cents [OF assms(1), of x] by (rule is_centsE)
  have "- (1 / 200) \<le> numeric x" using numeric_near [OF assms(1), of x] assms(2) by linarith
  then have "- (1 / 2) \<le> (of_int m :: rat)" by (simp add: m field_simps)
  then have "0 \<le> m" by linarith
  then show ?thesis by (simp add: m)
qed

section \<open>Amounts of products and orders\<close>

definition items_amount :: "order_item list \<Rightarrow> money" where
  "items_amount items = (\<Sum>it\<leftarrow>items. oi_price_at_order it * of_int (oi_quantity it))"

definition order_amounts_ok :: "order_row \<Rightarrow> bool" where
  "order_amounts_ok od \<longleftrightarrow>
     0 \<le> o_total_amount od \<and> 0 \<le> o_discount_amount od \<and>
     \<bar>o_total_amount od + o_discount_amount od - items_amount (o_items od)\<bar> \<le> 1 / 100"

definition amounts_ok :: "db \<Rightarrow> bool" where
  "amounts_ok d \<longleftrightarrow>
     (\<forall>p\<in>set (products d). 0 < p_price p \<and> is_cents (p_price p)) \<and>
     (\<forall>pc\<in>set (promo_codes d). 0 \<le> pc_discount_value pc) \<and>
     (\<forall>od\<in>set (orders d). order_amounts_ok od)"

lemma price_in_cents: "(\<And>k p. m k = Some p \<Longrightarrow> is_cents (p_price p)) \<Longrightarrow> is_cents (price_in m k)"
  by (simp add: price_in_def split: option.splits)

lemma gross_amount_cents:
  assumes "\<And>k p. m k = Some p \<Longrightarrow> is_cents (p_price p)"
  shows "is_cents (gross_amount m items)"
  by (induction items) (simp_all add: gross_amount_def is_cents_add is_cents_mult price_in_cents [OF assms])

lemma items_amount_made:
  assumes "\<And>k. numeric (price_in m k) = price_in m k"
  shows "items_amount (made_items numeric m gen k items) = gross_amount m items"
  by (induction items arbitrary: k) (simp_all add: items_amount_def gross_amount_def made_items_Cons assms)

lemma product_in_row: "product_in rows k = Some p \<Longrightarrow> p \<in> set rows"
  by (blast dest: find_by_SomeD)

text \<open>The two ways in which a handler fills in the amounts of an order both keep them in order.\<close>

lemma order_amounts_made:
  assumes R: "rounds_to_cents numeric" and inv: "amounts_ok d"
    and items: "o_items od = made_items numeric (product_in (products d)) gen k items"
    and qty: "\<And>item. item \<in> set items \<Longrightarrow> 1 \<le> oc_quantity item"
    and amounts: "o_discount_amount od = numeric 0 \<and> o_total_amount od = numeric (gross_amount (product_in (products d)) items) \<or>
      (\<exists>pc discount. pc \<in> set (promo_codes d) \<and>
         calculate_discount pc (gross_amount (product_in (products d)) items) = Inr discount \<and>
         o_discount_amount od = numeric discount \<and>
         o_total_amount od = numeric (gross_amount (product_in (products d)) items - discount))"
  shows "order_amounts_ok od"
proof -
  let ?m = "product_in (products d)"
  let ?g = "gross_amount ?m items"
  have price: "0 < p_price p" "is_cents (p_price p)" if "?m k = Some p" for k p
    using product_in_row [OF that] inv by (auto simp: amounts_ok_def)
  have cents: "is_cents (price_in ?m k)" for k by (rule price_in_cents) (rule price(2))
  have sum: "items_amount (o_items od) = ?g"
    unfolding items by (rule items_amount_made) (rule numeric_cents [OF R cents])
  have g: "0 \<le> ?g" "is_cents ?g"
    using price qty by (intro gross_amount_nonneg gross_amount_cents; force)+
  from amounts show ?thesis
  proof (elim disjE conjE exE)
    assume "o_discount_amount od = numeric 0" "o_total_amount od = numeric ?g"
    then show ?thesis
      using g numeric_cents [OF R] by (simp add: order_amounts_ok_def sum)
  next
    fix pc discount
    assume pc: "pc \<in> set (promo_codes d)" "calculate_discount pc ?g = Inr discount"
      and od: "o_discount_amount od = numeric discount" "o_total_amount od = numeric (?g - discount)"
    have "0 \<le> pc_discount_value pc" using inv pc(1) by (simp add: amounts_ok_def)
    with discount_bounds(1,2) [OF pc(2) g(1)] have "0 \<le> discount" "0 \<le> ?g - discount" by simp_all
    then have "0 \<le> o_discount_amount od" "0 \<le> o_total_amount od"
      by (simp_all add: od numeric_nonneg [OF R])
    moreover have "\<bar>o_total_amount od + o_discount_amount od - ?g\<bar> \<le> 1 / 100"
      using numeric_near [OF R, of discount] numeric_near [OF R, of "?g - discount"] unfolding od by linarith
    ultimately show ?thesis by (simp add: order_amounts_ok_def sum)
  qed
qed

section \<open>The invariant\<close>

definition sound_deployment :: "deployment \<Rightarrow> bool" where
  "sound_deployment D \<longleftrightarrow> follows_schema D \<and> rounds_to_cents (dp_numeric D)"

lemma order_amounts_frame [simp]:
  "order_amounts_ok (touch_order now old od) = order_amounts_ok od"
  "order_amounts_ok (od\<lparr>o_status := st\<rparr>) = order_amounts_ok od"
  by (simp_all add: order_amounts_ok_def)

lemma amounts_ok_touch:
  assumes "\<forall>p\<in>set (products w). 0 < p_price p \<and> is_cents (p_price p)"
    and "\<forall>pc\<in>set (promo_codes w). 0 \<le> pc_discount_value pc" and "\<forall>od\<in>set (orders w). order_amounts_ok od"
  shows "amounts_ok (touch now d w)"
  using assms by (auto simp: amounts_ok_def)

lemma same_rows_price:
  assumes "list_all2 same_but_stock rows rows'" and "\<forall>p\<in>set rows. P (p_price p)"
  shows "\<forall>p\<in>set rows'. P (p_price p)"
proof -
  have "map p_price rows' = map p_price rows"
    using assms(1) by (rule same_rows_map) (simp add: same_but_stockD)
  then have "p_price ` set rows' = p_price ` set rows" by (metis set_map)
  with assms(2) show ?thesis by (metis image_iff)
qed

lemma numeric_price:
  assumes "rounds_to_cents numeric" and "decimal_above_cent x"
  shows "0 < numeric x" and "is_cents (numeric x)"
proof -
  show "0 < numeric x"
    using numeric_near [OF assms(1), of x] assms(2) unfolding decimal_above_cent_def by linarith
  show "is_cents (numeric x)" by (rule numeric_is_cents [OF assms(1)])
qed

lemma updated_product_price:
  assumes "updated_product numeric upd status p = Some p'" and "rounds_to_cents numeric"
    and "given decimal_above_cent (up_price upd)" and "0 < p_price p \<and> is_cents (p_price p)"
  shows "0 < p_price p' \<and> is_cents (p_price p')"
proof -
  have "p_price p' = p_price p \<or> (\<exists>x. up_price upd = Some (Some x) \<and> p_price p' = numeric x)"
    using assms(1) by (auto simp: updated_product_def set_column_def split: option.splits)
  with assms(2-4) numeric_price show ?thesis by (auto simp: given_def)
qed

interpretation amounts_inv: store_invariant sound_deployment amounts_ok
proof
  show "amounts_ok empty_db" by (simp add: amounts_ok_def empty_db_def)
next
  fix D d d'
  assume "sound_deployment D" and inv: "amounts_ok d" and "market_step D d d'"
  then have D: "follows_schema D" and R: "rounds_to_cents (dp_numeric D)" by (simp_all add: sound_deployment_def)
  have p0: "\<forall>p\<in>set (products d). 0 < p_price p \<and> is_cents (p_price p)"
    and c0: "\<forall>pc\<in>set (promo_codes d). 0 \<le> pc_discount_value pc" and o0: "\<forall>od\<in>set (orders d). order_amounts_ok od"
    using inv by (simp_all add: amounts_ok_def)
  have moved: "\<forall>p\<in>set rows. 0 < p_price p \<and> is_cents (p_price p)"
    if "list_all2 same_but_stock (products d) rows" for rows
    using that p0 by (rule same_rows_price)
  have uses: "\<forall>pc\<in>set (add_uses k n (promo_codes d)). 0 \<le> pc_discount_value pc" for k n
    using c0 add_uses_mem [of _ k n "promo_codes d"] by fastforce
  from \<open>market_step D d d'\<close> show "amounts_ok d'"
  proof (cases rule: market_step.cases)
    case (step_register p hashed role now new_id)
    with inv show ?thesis by (simp add: amounts_ok_def writer_frame)
  next
    case (step_create_product u p seller_id st now new_id)
    from accepted_schema [OF D step_create_product(2)] have "decimal_above_cent (cr_price p)" by simp
    with numeric_price [OF R] p0 c0 o0 show ?thesis
      unfolding step_create_product(1) by (intro amounts_ok_touch) (auto simp: writer_frame new_product_def)
  next
    case (step_update_product u p upd status p' now)
    from accepted_schema [OF D step_update_product(2)] p0 step_update_product(3)
    have "0 < p_price p' \<and> is_cents (p_price p')"
      by (intro updated_product_price [OF step_update_product(6) R]) simp_all
    with p0 c0 o0 show ?thesis
      unfolding step_update_product(1) by (intro amounts_ok_touch) (auto simp: writer_frame replace_by_set)
  next
    case (step_delete_product u p now)
    with p0 c0 o0 show ?thesis
      unfolding step_delete_product(1) by (intro amounts_ok_touch) (auto simp: writer_frame replace_by_set)
  next
    case (step_create_order u p clk ids oid w)
    note q = accepted_items(1) [OF D step_create_order(2)]
    from step_create_order(3) show ?thesis unfolding step_create_order(1)
    proof (rule create_order_rows, intro amounts_ok_touch)
      fix od pcs
      assume w: "products w = deduct_stock (requested_quantities (ocr_items p)) (products d)"
          "orders w = orders d @ [od]" "promo_codes w = pcs"
        and items: "o_items od = made_items (dp_numeric D) (product_in (products d)) (new_item_id ids) 0 (ocr_items p)"
        and promo: "(o_promo_code_id od = None \<and> pcs = promo_codes d \<and> o_discount_amount od = dp_numeric D 0 \<and>
            o_total_amount od = dp_numeric D (gross_amount (product_in (products d)) (ocr_items p))) \<or>
         (\<exists>pc discount. pc \<in> set (promo_codes d) \<and> o_promo_code_id od = Some (pc_id pc) \<and>
            validate_promo_basic (promo_now clk) False pc = Inr () \<and>
            calculate_discount pc (gross_amount (product_in (products d)) (ocr_items p)) = Inr discount \<and>
            pcs = add_uses (pc_id pc) 1 (promo_codes d) \<and> o_discount_amount od = dp_numeric D discount \<and>
            o_total_amount od = dp_numeric D (gross_amount (product_in (products d)) (ocr_items p) - discount))"
      show "\<forall>p\<in>set (products w). 0 < p_price p \<and> is_cents (p_price p)"
        unfolding w by (rule moved [OF order_step_products(1)])
      show "\<forall>pc\<in>set (promo_codes w). 0 \<le> pc_discount_value pc" using promo c0 uses by (auto simp: w)
      have "order_amounts_ok od" by (rule order_amounts_made [OF R inv items q]) (use promo in auto)
      with o0 show "\<forall>od\<in>set (orders w). order_amounts_ok od" by (auto simp: w)
    qed
  next
    case (step_update_order u od items clk ids oid w)
    note q = accepted_items(2) [OF D step_update_order(2)]
    from step_update_order(6) show ?thesis unfolding step_update_order(1)
    proof (rule update_order_rows, intro amounts_ok_touch)
      fix od' pcs
      assume w: "products w = deduct_stock (requested_quantities items) (restock (o_items od) (products d))"
          "orders w = replace_by o_id od' (orders d)" "promo_codes w = pcs"
        and made: "o_items od' = made_items (dp_numeric D) (product_in (products d)) (new_item_id ids) 0 items"
        and promo: "(o_promo_code_id od' = None \<and> o_discount_amount od' = dp_numeric D 0 \<and>
            o_total_amount od' = dp_numeric D (gross_amount (product_in (products d)) items) \<and>
            (o_promo_code_id od = None \<and> pcs = promo_codes d \<or>
             (\<exists>pc\<in>set (promo_codes d). o_promo_code_id od = Some (pc_id pc) \<and>
                pcs = (if pc_current_uses pc > 0 then add_uses (pc_id pc) (- 1) (promo_codes d) else promo_codes d)))) \<or>
         (\<exists>pc discount. pc \<in> set (promo_codes d) \<and> o_promo_code_id od = Some (pc_id pc) \<and>
            o_promo_code_id od' = o_promo_code_id od \<and> pcs = promo_codes d \<and>
            calculate_discount pc (gross_amount (product_in (products d)) items) = Inr discount \<and>
            o_discount_amount od' = dp_numeric D discount \<and>
            o_total_amount od' = dp_numeric D (gross_amount (product_in (products d)) items - discount))"
      show "\<forall>p\<in>set (products w). 0 < p_price p \<and> is_cents (p_price p)"
        unfolding w by (rule moved [OF order_step_products(3)])
      show "\<forall>pc\<in>set (promo_codes w). 0 \<le> pc_discount_value pc"
        using promo c0 uses by (auto simp: w split: if_splits)
      have "order_amounts_ok od'" by (rule order_amounts_made [OF R inv made q]) (use promo in auto)
      with o0 show "\<forall>od\<in>set (orders w). order_amounts_ok od"
        by (auto simp: w replace_by_set split: if_splits)
    qed
  next
    case (step_cancel_order u od oid w now)
    from step_cancel_order(6) show ?thesis unfolding step_cancel_order(1)
      by (rule cancel_order_body_Inr, intro amounts_ok_touch)
        (use moved order_step_products(2) uses c0 o0 step_cancel_order(3) in \<open>auto simp: replace_by_set split: if_splits\<close>)
  next
    case (step_create_promo_code u p dt now new_id)
    from accepted_schema [OF D step_create_promo_code(2)] have "0 \<le> pcr_discount_value p"
      by (simp add: decimal_above_cent_def)
    with numeric_nonneg [OF R] inv show ?thesis
      by (auto simp: step_create_promo_code(1) amounts_ok_def writer_frame new_promo_code_def)
  qed
qed

end
