(* ===== verification/Store_History.thy ===== *)
theory Store_History
  imports Store_Amounts "HOL-Library.Sublist"
begin

text \<open>
  What never changes about a stored row. A relation between an earlier and a later state is an
  instance of the locale \<open>store_relation\<close>; \<open>run_requests\<close> serves a list of requests in order.
\<close>

section \<open>Serving a list of requests\<close>

fun run_requests :: "deployment \<Rightarrow> (tick \<times> string option \<times> request) list \<Rightarrow> db \<Rightarrow> db" where
  "run_requests D [] d = d"
| "run_requests D ((t, cred, req) # reqs) d = run_requests D reqs (snd (serve D t cred req d))"

lemma run_requests_fits: "db_fits d \<Longrightarrow> db_fits (run_requests D reqs d)"
proof (induction reqs arbitrary: d)
  case (Cons r reqs)
  obtain t cred req where "r = (t, cred, req)" by (cases r)
  with Cons serve_fits [of d D t cred req] show ?case by (metis prod.collapse run_requests.simps(2))
qed simp

lemma run_requests_reachable: "reachable D d \<Longrightarrow> reachable D (run_requests D reqs d)"
proof (induction reqs arbitrary: d)
  case (Cons r reqs)
  obtain t cred req where "r = (t, cred, req)" by (cases r)
  with Cons reachable.request [of D d t cred req] show ?case by (metis prod.collapse run_requests.simps(2))
qed simp

section \<open>Interface: a relation that every step keeps\<close>

locale store_relation =
  fixes rel :: "db \<Rightarrow> db \<Rightarrow> bool"
  assumes rel_refl: "rel d d"
    and rel_trans: "rel d d1 \<Longrightarrow> rel d1 d2 \<Longrightarrow> rel d d2"
    and rel_step: "db_fits d \<Longrightarrow> market_step D d d' \<Longrightarrow> rel d d'"
begin

lemma serve_rel: "db_fits d \<Longrightarrow> serve D t cred req d = (r, d') \<Longrightarrow> rel d d'"
  using serve_steps rel_step rel_refl by metis

lemma run_rel: "db_fits d \<Longrightarrow> rel d (run_requests D reqs d)"
proof (induction reqs arbitrary: d)
  case Nil
  show ?case by (simp add: rel_refl)
next
  case (Cons r reqs)
  obtain t cred req where r: "r = (t, cred, req)" by (cases r)
  obtain rep d1 where s: "serve D t cred req d = (rep, d1)" by (cases "serve D t cred req d")
  from serve_rel [OF Cons.prems s] Cons.IH [OF serve_fits [OF Cons.prems s]] show ?case
    by (simp add: r s rel_trans)
qed

end

section \<open>Users and operations are only appended\<close>

lemma market_step_operations: "market_step D d d' \<Longrightarrow> prefix (user_operations d) (user_operations d')"
proof (erule market_step.cases, goal_cases)
  case 5
  then show ?case by (auto elim!: create_order_body_Inr)
next
  case 6
  then show ?case by (auto elim!: update_order_body_Inr)
next
  case 7
  then show ?case by (auto elim!: cancel_order_body_Inr)
qed (simp_all add: writer_frame)

interpretation users_grow: store_relation "\<lambda>d d'. prefix (users d) (users d')"
  by unfold_locales (auto dest: market_step_users)

interpretation operations_grow: store_relation "\<lambda>d d'. prefix (user_operations d) (user_operations d')"
  by unfold_locales (auto dest: market_step_operations)

section \<open>Orders keep their owner and move along the edges of their status\<close>

fun status_edge :: "order_status \<Rightarrow> order_status \<Rightarrow> bool" where
  "status_edge CREATED CANCELED = True"
| "status_edge PAYMENT_PENDING CANCELED = True"
| "status_edge s t = (s = t)"

lemma status_edge_refl [simp]: "status_edge s s"
  by (cases s) simp_all

lemma status_edge_cancel: "s \<in> {CREATED, PAYMENT_PENDING} \<Longrightarrow> status_edge s CANCELED"
  by auto

lemma status_edge_trans: "status_edge s t \<Longrightarrow> status_edge t u \<Longrightarrow> status_edge s u"
  by (cases s; cases t; cases u) simp_all

definition order_follows :: "order_row \<Rightarrow> order_row \<Rightarrow> bool" where
  "order_follows od od' \<longleftrightarrow>
     o_id od' = o_id od \<and> o_user_id od' = o_user_id od \<and> o_created_at od' = o_created_at od \<and>
     status_edge (o_status od) (o_status od')"

definition orders_follow :: "db \<Rightarrow> db \<Rightarrow> bool" where
  "orders_follow d d' \<longleftrightarrow> (\<forall>od\<in>set (orders d). \<exists>od'\<in>set (orders d'). order_follows od od')"

lemma order_follows_touch: "order_follows od od' \<Longrightarrow> order_follows od (touch_order now old od')"
  by (simp add: order_follows_def)

lemma order_follows_refl [simp]: "order_follows od od"
  by (simp add: order_follows_def)

lemma order_follows_trans: "order_follows a b \<Longrightarrow> order_follows b c \<Longrightarrow> order_follows a c"
  unfolding order_follows_def by (metis status_edge_trans)

text \<open>Writing one row that follows the row it replaces.\<close>

lemma follows_put:
  assumes "distinct (map o_id rows)" and "prev \<in> set rows" and "order_follows prev r"
  shows "\<forall>od\<in>set rows. \<exists>od'\<in>set (map (touch_order now old) (replace_by o_id r rows)). order_follows od od'"
proof
  fix od
  assume od: "od \<in> set rows"
  have key: "o_id r = o_id prev" using assms(3) by (simp add: order_follows_def)
  obtain od' where "od' \<in> set (replace_by o_id r rows)" "order_follows od od'"
  proof (cases "o_id od = o_id prev")
    case True
    with assms(1,2) od have "od = prev" by (metis distinct_find_by option.inject)
    with that [of r] assms(2,3) key show thesis by (auto simp: replace_by_set)
  next
    case False
    with that [of od] od key show thesis by (auto simp: replace_by_set)
  qed
  then show "\<exists>od'\<in>set (map (touch_order now old) (replace_by o_id r rows)). order_follows od od'"
    by (auto intro: order_follows_touch)
qed

interpretation orders_follow: store_relation orders_follow
proof
  show "orders_follow d d" for d
    unfolding orders_follow_def by (blast intro: order_follows_refl)
  show "orders_follow d d2" if "orders_follow d d1" "orders_follow d1 d2" for d d1 d2
    using that unfolding orders_follow_def by (meson order_follows_trans)
next
  fix D d d'
  assume fits: "db_fits d" and step: "market_step D d d'"
  note put = follows_put [OF db_fits_distinct(4) [OF fits]]
  have stay: "\<forall>od\<in>set (orders d). \<exists>od'\<in>set (map (touch_order now old) (orders d @ more_rows)). order_follows od od'"
    for now old more_rows
  proof
    fix od
    assume "od \<in> set (orders d)"
    then show "\<exists>od'\<in>set (map (touch_order now old) (orders d @ more_rows)). order_follows od od'"
      by (intro bexI [of _ "touch_order now old od"] order_follows_touch) auto
  qed
  from step show "orders_follow d d'"
  proof (cases rule: market_step_orders)
    case (same now)
    with stay [of now "orders d" "[]"] show ?thesis by (simp add: orders_follow_def)
  next
    case (created now od u)
    with stay [of now "orders d" "[od]"] show ?thesis by (simp add: orders_follow_def)
  next
    case (changed now prev od)
    with put [OF changed(2), of od now "orders d"] show ?thesis
      unfolding orders_follow_def by (simp add: order_follows_def)
  next
    case (canceled now prev)
    then have "order_follows prev (prev\<lparr>o_status := CANCELED\<rparr>)"
      by (simp add: order_follows_def status_edge_cancel)
    from put [OF canceled(2) this, of now "orders d"] canceled(1) show ?thesis
      unfolding orders_follow_def by simp
  qed
qed

section \<open>Products keep their seller\<close>

definition product_follows :: "product \<Rightarrow> product \<Rightarrow> bool" where
  "product_follows p p' \<longleftrightarrow>
     p_id p' = p_id p \<and> p_seller_id p' = p_seller_id p \<and> p_created_at p' = p_created_at p"

definition products_follow :: "db \<Rightarrow> db \<Rightarrow> bool" where
  "products_follow d d' \<longleftrightarrow> (\<forall>p\<in>set (products d). \<exists>p'\<in>set (products d'). product_follows p p')"

lemma product_follows_touch: "product_follows p p' \<Longrightarrow> product_follows p (touch_product now old p')"
  by (simp add: product_follows_def)

lemma product_follows_moved:
  assumes "list_all2 same_but_stock rows rows'"
  shows "\<forall>p\<in>set rows. \<exists>p'\<in>set (map (touch_product now old) rows'). product_follows p p'"
proof
  fix p
  assume "p \<in> set rows"
  with assms obtain p' where "p' \<in> set rows'" "same_but_stock p p'"
    by (metis in_set_conv_nth list_all2_conv_all_nth)
  then have "product_follows p (touch_product now old p')"
    by (intro product_follows_touch) (simp add: product_follows_def same_but_stockD)
  with \<open>p' \<in> set rows'\<close> show "\<exists>p'\<in>set (map (touch_product now old) rows'). product_follows p p'" by auto
qed

lemma product_follows_put:
  assumes "distinct (map p_id rows)" and "prev \<in> set rows" and "product_follows prev r"
  shows "\<forall>p\<in>set rows. \<exists>p'\<in>set (map (touch_product now old) (replace_by p_id r rows)). product_follows p p'"
proof
  fix p
  assume p: "p \<in> set rows"
  have key: "p_id r = p_id prev" using assms(3) by (simp add: product_follows_def)
  obtain p' where "p' \<in> set (replace_by p_id r rows)" "product_follows p p'"
  proof (cases "p_id p = p_id prev")
    case True
    with assms(1,2) p have "p = prev" by (metis distinct_find_by option.inject)
    with that [of r] assms(2,3) key show thesis by (auto simp: replace_by_set)
  next
    case False
    with that [of p] p key show thesis by (auto simp: replace_by_set product_follows_def)
  qed
  then show "\<exists>p'\<in>set (map (touch_product now old) (replace_by p_id r rows)). product_follows p p'"
    by (auto intro: product_follows_touch)
qed

interpretation products_follow: store_relation products_follow
proof
  show "products_follow d d" for d
    unfolding products_follow_def product_follows_def by blast
  show "products_follow d d2" if "products_follow d d1" "products_follow d1 d2" for d d1 d2
    using that unfolding products_follow_def product_follows_def by metis
next
  fix D d d'
  assume fits: "db_fits d" and "market_step D d d'"
  note put = product_follows_put [OF db_fits_distinct(3) [OF fits]]
  have stay: "products_follow d w" if "set (products d) \<subseteq> set (products w)" for w
    using that unfolding products_follow_def product_follows_def by blast
  have moved: "products_follow d (touch now d w)" if "list_all2 same_but_stock (products d) (products w)" for now w
    using product_follows_moved [OF that] by (simp add: products_follow_def)
  from \<open>market_step D d d'\<close> show "products_follow d d'"
  proof (cases rule: market_step.cases)
    case (step_create_product u p seller_id st now new_id)
    show ?thesis unfolding step_create_product(1)
      by (rule stay) (auto simp: writer_frame map_idI)
  next
    case (step_update_product u p upd status p' now)
    from updated_product_key [OF step_update_product(6)] have "product_follows p p'"
      by (simp add: product_follows_def)
    from put [OF step_update_product(3) this] show ?thesis
      unfolding step_update_product(1) by (simp add: products_follow_def writer_frame)
  next
    case (step_delete_product u p now)
    have "product_follows p (p\<lparr>p_status := ARCHIVED\<rparr>)" by (simp add: product_follows_def)
    from put [OF step_delete_product(3) this] show ?thesis
      unfolding step_delete_product(1) by (simp add: products_follow_def writer_frame)
  next
    case (step_create_order u p clk ids oid w)
    from step_create_order(3) show ?thesis unfolding step_create_order(1)
      by (rule create_order_rows) (simp add: moved order_step_products)
  next
    case (step_update_order u od items clk ids oid w)
    from step_update_order(6) show ?thesis unfolding step_update_order(1)
      by (rule update_order_rows) (simp add: moved order_step_products)
  next
    case (step_cancel_order u od oid w now)
    from step_cancel_order(6) show ?thesis unfolding step_cancel_order(1)
      by (rule cancel_order_body_Inr) (simp add: moved order_step_products)
  qed (simp_all add: stay writer_frame)
qed

end
