(* ===== verification/Sample.thy ===== *)
theory Sample
  imports Store_History
begin

text \<open>
  A small installation to try the development on: concrete libraries, a few accounts, products and
  a promo code, and a run of requests. Nothing here models code; the examples of the other theories
  evaluate on it.
\<close>

section \<open>An installation\<close>

definition sample_numeric :: "money \<Rightarrow> money" where
  "sample_numeric x = of_int \<lfloor>x * 100 + 1 / 2\<rfloor> / 100"

text \<open>Tokens that name their subject, role and type in the clear.\<close>

definition sample_encode :: "claims \<Rightarrow> string \<Rightarrow> string" where
  "sample_encode c key =
     (case (cl_sub c, cl_role c, cl_type c) of
        (Some sub, Some role, Some ty) \<Rightarrow> join_with '':'' [ty, sub, role, key]
      | _ \<Rightarrow> ''none'')"

definition sample_claims :: "string \<Rightarrow> string \<Rightarrow> string \<Rightarrow> claims" where
  "sample_claims sub role ty =
     token_claims 0 sub role ty (if ty = ''access'' then minutes 30 else days 14)"

definition sample_decode :: "string \<Rightarrow> string \<Rightarrow> int \<Rightarrow> decoded" where
  "sample_decode tok key now =
     (case List.find (\<lambda>c. sample_encode c key = tok)
             (map (\<lambda>(sub, role, ty). sample_claims sub role ty)
                (List.product [''u1'', ''u2'', ''u3''] (List.product [''USER'', ''SELLER'', ''ADMIN''] [''access'', ''refresh'']))) of
        None \<Rightarrow> JWTError
      | Some c \<Rightarrow> (case cl_exp c of None \<Rightarrow> Payload c | Some e \<Rightarrow> if e < now then ExpiredSignatureError else Payload c))"

definition sample_jose :: jose where
  "sample_jose = \<lparr>jwt_encode = sample_encode, jwt_decode = sample_decode\<rparr>"

definition sample_validate :: "request \<Rightarrow> pydantic_error list" where
  "sample_validate req =
     (if schema_ok req then [] else [\<lparr>pe_loc = Some [LName ''body''], pe_msg = Some ''Invalid value''\<rparr>])"

definition sample_deployment :: deployment where
  "sample_deployment =
     \<lparr>dp_settings = default_settings, dp_jose = sample_jose, dp_hash = (\<lambda>pw. Some (''hash-'' @ pw)),
      dp_verify = (\<lambda>pw h. h = ''hash-'' @ pw), dp_numeric = sample_numeric, dp_scan = (\<lambda>rows. rows),
      dp_validate = sample_validate\<rparr>"

lemma sample_numeric_rounds: "rounds_to_cents sample_numeric"
proof -
  have "\<bar>of_int \<lfloor>x * 100 + 1 / 2\<rfloor> - x * 100\<bar> \<le> 1 / 2" for x :: rat
    by linarith
  then have "\<bar>sample_numeric x - x\<bar> \<le> 1 / 200" for x
    unfolding sample_numeric_def by linarith
  moreover have "is_cents (sample_numeric x)" for x
    by (simp add: sample_numeric_def is_cents_def)
  ultimately show ?thesis by (simp add: rounds_to_cents_def)
qed

lemma sample_sound: "sound_deployment sample_deployment"
  using sample_numeric_rounds
  by (auto simp: sound_deployment_def follows_schema_def sample_deployment_def sample_validate_def split: if_splits)

lemma sample_follows_schema: "follows_schema sample_deployment"
  using sample_sound by (simp add: sound_deployment_def)

section \<open>A run of requests\<close>

definition sample_tick :: "instant \<Rightarrow> uuid \<Rightarrow> uuid \<Rightarrow> tick" where
  "sample_tick now new_id oid =
     \<lparr>tk_auth_now = now, tk_clock = \<lparr>rate_now = now, promo_now = now, db_now = now\<rparr>, tk_new_id = new_id,
      tk_new_ids = \<lparr>new_order_id = oid, new_item_id = (\<lambda>k. oid @ ''-'' @ digits_of_nat k),
                    new_operation_id = oid @ ''-op''\<rparr>\<rparr>"

definition sample_account :: "string \<Rightarrow> string \<Rightarrow> request" where
  "sample_account email role =
     Public (Register \<lparr>rr_email = email, rr_password = ''secret'', rr_role = Some (Member role)\<rparr>)"

definition sample_lamp :: request where
  "sample_lamp =
     AsUser (CreateProduct \<lparr>cr_seller_id = None, cr_name = ''Lamp'', cr_description = None, cr_price = 1005 / 100,
       cr_stock = 5, cr_category = ''home'', cr_status = Member ''ACTIVE''\<rparr>)"

definition sample_code :: request where
  "sample_code =
     AsUser (CreatePromoCode \<lparr>pcr_code = ''HALF'', pcr_discount_type = Member ''PERCENTAGE'', pcr_discount_value = 50,
       pcr_min_order_amount = 10, pcr_max_uses = 2, pcr_valid_from = 0, pcr_valid_until = 1000000000, pcr_active = None\<rparr>)"

definition sample_order :: request where
  "sample_order = AsUser (CreateOrder \<lparr>ocr_items = [\<lparr>oc_product_id = ''p1'', oc_quantity = 1\<rparr>], ocr_promo_code = Some ''HALF''\<rparr>)"

definition access_of :: "string \<Rightarrow> string \<Rightarrow> string option" where
  "access_of sub role = Some (join_with '':'' [''access'', sub, role, ''change_me_access''])"

definition sample_requests :: "(tick \<times> string option \<times> request) list" where
  "sample_requests =
     [(sample_tick 1 ''u1'' ''x'', None, sample_account ''ann@shop.org'' ''USER''),
      (sample_tick 2 ''u2'' ''x'', None, sample_account ''sid@shop.org'' ''SELLER''),
      (sample_tick 3 ''p1'' ''x'', access_of ''u2'' ''SELLER'', sample_lamp),
      (sample_tick 4 ''c1'' ''x'', access_of ''u2'' ''SELLER'', sample_code),
      (sample_tick 5 ''x'' ''o1'', access_of ''u1'' ''USER'', sample_order)]"

definition sample_state :: db where
  "sample_state = run_requests sample_deployment sample_requests empty_db"

lemma sample_state_reachable: "reachable sample_deployment sample_state"
  unfolding sample_state_def by (rule run_requests_reachable) (rule reachable.start)

text \<open>The state before the order, and both states written out.\<close>

definition sample_shop :: db where
  "sample_shop = run_requests sample_deployment (take 4 sample_requests) empty_db"

lemma sample_shop_reachable: "reachable sample_deployment sample_shop"
  unfolding sample_shop_def by (rule run_requests_reachable) (rule reachable.start)

lemma sample_shop_eq: "sample_shop =
  \<lparr>users = [\<lparr>u_id = ''u1'', u_email = ''ann@shop.org'', u_hashed_password = ''hash-secret'', u_role = USER, u_created_at = 1\<rparr>,
            \<lparr>u_id = ''u2'', u_email = ''sid@shop.org'', u_hashed_password = ''hash-secret'', u_role = SELLER, u_created_at = 2\<rparr>],
   products = [\<lparr>p_id = ''p1'', p_name = ''Lamp'', p_description = None, p_price = 201 / 20, p_stock = 5, p_category = ''home'',
                p_status = ACTIVE, p_seller_id = ''u2'', p_created_at = 3, p_updated_at = 3\<rparr>],
   orders = [],
   promo_codes = [\<lparr>pc_id = ''c1'', pc_code = ''HALF'', pc_discount_type = PERCENTAGE, pc_discount_value = 50,
                   pc_min_order_amount = 10, pc_max_uses = 2, pc_current_uses = 0, pc_valid_from = 0,
                   pc_valid_until = 1000000000, pc_active = True, pc_created_at = 4\<rparr>],
   user_operations = []\<rparr>"
  by code_simp

lemma sample_state_eq: "sample_state =
  \<lparr>users = [\<lparr>u_id = ''u1'', u_email = ''ann@shop.org'', u_hashed_password = ''hash-secret'', u_role = USER, u_created_at = 1\<rparr>,
            \<lparr>u_id = ''u2'', u_email = ''sid@shop.org'', u_hashed_password = ''hash-secret'', u_role = SELLER, u_created_at = 2\<rparr>],
   products = [\<lparr>p_id = ''p1'', p_name = ''Lamp'', p_description = None, p_price = 201 / 20, p_stock = 4, p_category = ''home'',
                p_status = ACTIVE, p_seller_id = ''u2'', p_created_at = 3, p_updated_at = 5\<rparr>],
   orders = [\<lparr>o_id = ''o1'', o_user_id = ''u1'', o_status = CREATED, o_promo_code_id = Some ''c1'',
              o_total_amount = 503 / 100, o_discount_amount = 503 / 100,
              o_items = [\<lparr>oi_id = ''o1-0'', oi_product_id = ''p1'', oi_quantity = 1, oi_price_at_order = 201 / 20\<rparr>],
              o_created_at = 5, o_updated_at = 5\<rparr>],
   promo_codes = [\<lparr>pc_id = ''c1'', pc_code = ''HALF'', pc_discount_type = PERCENTAGE, pc_discount_value = 50,
                   pc_min_order_amount = 10, pc_max_uses = 2, pc_current_uses = 1, pc_valid_from = 0,
                   pc_valid_until = 1000000000, pc_active = True, pc_created_at = 4\<rparr>],
   user_operations = [\<lparr>uo_id = ''o1-op'', uo_user_id = ''u1'', uo_operation_type = CREATE_ORDER, uo_created_at = 5\<rparr>]\<rparr>"
  by code_simp
definition sample_buyer :: user where
  "sample_buyer = \<lparr>u_id = ''u1'', u_email = ''ann@shop.org'', u_hashed_password = ''hash-secret'', u_role = USER, u_created_at = 1\<rparr>"

definition sample_clock :: "instant \<Rightarrow> clock" where
  "sample_clock now = \<lparr>rate_now = now, promo_now = now, db_now = now\<rparr>"

definition sample_basket :: order_create_request where
  "sample_basket = \<lparr>ocr_items = [\<lparr>oc_product_id = ''p1'', oc_quantity = 1\<rparr>], ocr_promo_code = None\<rparr>"

lemmas sample_fits = reachable_fits [OF sample_shop_reachable] reachable_fits [OF sample_state_reachable]

end
