(* ===== verification/Market_Properties.thy ===== *)
theory Market_Properties
  imports Sample
begin

text \<open>
  What the application guarantees as a whole: the invariants of every reachable state of the store,
  the atomicity of requests, and what a stored row keeps for ever.
\<close>

section \<open>Reachable states\<close>

text \<open>C1: In every state that requests can lead to, no product has negative stock.\<close>

theorem stock_never_negative:
  assumes "follows_schema D" and "reachable D d" and "p \<in> set (products d)"
  shows "0 \<le> p_stock p"
  using stock_inv.reachable_inv [OF assms(1,2)] assms(3) by (simp add: stock_ok_def)

theorem stock_never_negative_witness:
  "hd (products sample_state) \<in> set (products sample_state) \<and> p_stock (hd (products sample_state)) = 4 \<and>
     0 \<le> p_stock (hd (products sample_state))"
proof -
  have "hd (products sample_state) \<in> set (products sample_state)" by (simp add: sample_state_eq)
  from this stock_never_negative [OF sample_follows_schema sample_state_reachable this] show ?thesis
    by (simp add: sample_state_eq)
qed

text \<open>
  C2: In every state that requests one after the other lead to, no user has two active orders (created or
  waiting for payment) at once. This is not so for requests at the same time: \<open>race_active_orders\<close> of Concurrent_Stock.
\<close>

theorem one_active_order:
  assumes "reachable D d"
  shows "length (active_orders d uid) \<le> 1"
  using one_active_inv.reachable_inv [OF TrueI assms] by (simp add: one_active_all)

theorem one_active_order_witness:
  "length (active_orders sample_state ''u1'') = 1 \<and> length (active_orders sample_state ''u1'') \<le> 1"
  using one_active_order [OF sample_state_reachable, of "''u1''"]
  by (simp add: active_orders_def sample_state_eq)

text \<open>
  C3: In every state that requests one after the other lead to, the counter of a promo code is the number of
  orders, not canceled, that carry the code, and it does not exceed the code's limit. This is not so for
  requests at the same time: \<open>race_promo_code\<close> of Concurrent_Stock.
\<close>

theorem promo_uses_accounted:
  assumes "follows_schema D" and "reachable D d" and "pc \<in> set (promo_codes d)"
  shows "pc_current_uses pc =
      int (length (filter (\<lambda>od. o_status od \<noteq> CANCELED \<and> o_promo_code_id od = Some (pc_id pc)) (orders d))) \<and>
    pc_current_uses pc \<le> pc_max_uses pc"
  using uses_inv.reachable_inv [OF assms(1,2)] assms(3)
  unfolding uses_ok_def code_orders_def carries_code_def [abs_def] by blast

theorem promo_uses_accounted_witness:
  "pc_current_uses (hd (promo_codes sample_state)) = 1 \<and>
   pc_current_uses (hd (promo_codes sample_state)) \<le> pc_max_uses (hd (promo_codes sample_state))"
proof -
  have "hd (promo_codes sample_state) \<in> set (promo_codes sample_state)" by (simp add: sample_state_eq)
  from promo_uses_accounted [OF sample_follows_schema sample_state_reachable this] show ?thesis
    by (simp add: sample_state_eq)
qed



text \<open>
  The cent is lost in reality: the total and the discount are rounded separately, and a half
  price order of one lamp at 10.05 is stored with 5.03 to pay and 5.03 off.
\<close>

theorem rounding_gains_a_cent:
  "\<exists>D d od. follows_schema D \<and> rounds_to_cents (dp_numeric D) \<and> reachable D d \<and> od \<in> set (orders d) \<and>
     o_total_amount od + o_discount_amount od = items_amount (o_items od) + 1 / 100"
proof (intro exI conjI)
  show "follows_schema sample_deployment" by (rule sample_follows_schema)
  show "rounds_to_cents (dp_numeric sample_deployment)" using sample_sound by (simp add: sound_deployment_def)
  show "reachable sample_deployment sample_state" by (rule sample_state_reachable)
  show "hd (orders sample_state) \<in> set (orders sample_state)" by (simp add: sample_state_eq)
  show "o_total_amount (hd (orders sample_state)) + o_discount_amount (hd (orders sample_state)) =
      items_amount (o_items (hd (orders sample_state))) + 1 / 100"
    by (simp add: sample_state_eq items_amount_def)
qed

text \<open>
  C6: Every product belongs to a seller or an administrator, every order to a user or an
  administrator; no endpoint moves an order anywhere but to canceled.
\<close>

theorem roles_and_statuses:
  assumes "reachable D d"
  shows "(p \<in> set (products d) \<longrightarrow> (\<exists>u\<in>set (users d). u_id u = p_seller_id p \<and> u_role u \<in> {SELLER, ADMIN})) \<and>
    (od \<in> set (orders d) \<longrightarrow>
       (\<exists>u\<in>set (users d). u_id u = o_user_id od \<and> u_role u \<in> {USER, ADMIN}) \<and> o_status od \<in> {CREATED, CANCELED})"
  using sellers_inv.reachable_inv [OF TrueI assms] customers_inv.reachable_inv [OF TrueI assms]
    statuses_inv.reachable_inv [OF TrueI assms]
  by (simp add: sellers_ok_def customers_ok_def statuses_ok_def)

theorem roles_and_statuses_witness:
  "o_status (hd (orders sample_state)) \<in> {CREATED, CANCELED} \<and>
   (\<exists>u\<in>set (users sample_state). u_id u = p_seller_id (hd (products sample_state)) \<and> u_role u \<in> {SELLER, ADMIN})"
proof -
  have "hd (products sample_state) \<in> set (products sample_state)" "hd (orders sample_state) \<in> set (orders sample_state)"
    by (simp_all add: sample_state_eq)
  with roles_and_statuses [OF sample_state_reachable, of "hd (products sample_state)" "hd (orders sample_state)"]
  show ?thesis by blast
qed

section \<open>Requests\<close>

text \<open>
  C7: A request is atomic: whatever happens, the constraints of the tables hold afterwards, a request
  that raises leaves the database exactly as it was, and one that returns made one step of the
  abstract specification or changed nothing.
\<close>

theorem request_atomic:
  assumes "db_fits d" and "serve D t cred req d = (r, d')"
  shows "db_fits d' \<and> (case r of Inl e \<Rightarrow> d' = d | Inr rep \<Rightarrow> d' = d \<or> market_step D d d')"
  using serve_fits [OF assms] serve_steps [OF assms] serve_raises [OF assms(1)] assms(2)
  by (cases r) auto

theorem request_atomic_witness:
  "db_fits (snd (serve sample_deployment (sample_tick 9 ''x'' ''o2'') (access_of ''u1'' ''USER'') sample_order sample_shop))"
  using request_atomic [OF sample_fits(1), of sample_deployment "sample_tick 9 ''x'' ''o2''" "access_of ''u1'' ''USER''" sample_order]
  by (metis prod.collapse)

text \<open>
  C8: Only registration changes data without a user: any other request that succeeds carried a
  verified access token of a stored user, and the user had a role that the endpoint allows.
\<close>

theorem success_needs_authority:
  assumes "serve D t cred (AsUser req) d = (Inr rep, d')"
  shows "\<exists>tok payload u. cred = Some tok \<and>
    verify_token (dp_jose D) (dp_settings D) (tk_auth_now t) (py_strip tok) ''access'' = Inr payload \<and>
    cl_sub payload = Some (u_id u) \<and> u \<in> set (users d) \<and> role_allowed (endpoint_guard req) u"
proof -
  from assms obtain u s1 where g: "run_guard D t cred (endpoint_guard req) (SessionLocal d) = (Inr u, s1)"
      and m: "may_request D d u req"
    by (rule serve_user_Inr)
  from run_guard_Inr(1) [OF g] obtain tok payload where "cred = Some tok"
      "verify_token (dp_jose D) (dp_settings D) (tk_auth_now t) (py_strip tok) ''access'' = Inr payload"
      "cl_sub payload = Some (u_id u)"
    by (rule get_current_user_Inr)
  with m show ?thesis unfolding may_request_def by blast
qed

theorem success_needs_authority_witness:
  "\<exists>tok payload u. access_of ''u1'' ''USER'' = Some tok \<and>
    verify_token sample_jose default_settings 9 (py_strip tok) ''access'' = Inr payload \<and>
    cl_sub payload = Some (u_id u) \<and> u \<in> set (users sample_shop) \<and> role_allowed (Roles [''USER'', ''ADMIN'']) u"
proof -
  let ?r = "serve sample_deployment (sample_tick 9 ''x'' ''o2'') (access_of ''u1'' ''USER'') sample_order sample_shop"
  have "isl (fst ?r) = False" unfolding sample_shop_eq by code_simp
  then obtain rep where "?r = (Inr rep, snd ?r)" by (metis isl_def old.sum.exhaust prod.collapse)
  from success_needs_authority [OF this [unfolded sample_order_def]] show ?thesis
    by (simp add: sample_deployment_def sample_tick_def)
qed

section \<open>What a row keeps\<close>

text \<open>
  C9: Whatever requests are served, an order stays in the store with its owner and its creation time,
  and its status only ever moves from an open status to canceled.
\<close>

theorem orders_keep_owner:
  assumes "db_fits d" and "od \<in> set (orders d)"
  shows "\<exists>od'\<in>set (orders (run_requests D reqs d)). o_id od' = o_id od \<and> o_user_id od' = o_user_id od \<and>
    o_created_at od' = o_created_at od \<and>
    (o_status od' = o_status od \<or> o_status od \<in> {CREATED, PAYMENT_PENDING} \<and> o_status od' = CANCELED)"
proof -
  obtain od' where od': "od' \<in> set (orders (run_requests D reqs d))" "order_follows od od'"
    using orders_follow.run_rel [OF assms(1)] assms(2) unfolding orders_follow_def by blast
  then have "status_edge (o_status od) (o_status od')" by (simp add: order_follows_def)
  then have "o_status od' = o_status od \<or> o_status od \<in> {CREATED, PAYMENT_PENDING} \<and> o_status od' = CANCELED"
    by (cases "o_status od"; cases "o_status od'") simp_all
  with od' show ?thesis unfolding order_follows_def by blast
qed

definition sample_cancel :: "(tick \<times> string option \<times> request) list" where
  "sample_cancel = [(sample_tick 20 ''x'' ''x'', access_of ''u1'' ''USER'', AsUser (CancelOrder ''o1''))]"

theorem orders_keep_owner_witness:
  "(\<exists>od'\<in>set (orders (run_requests sample_deployment sample_cancel sample_state)). o_user_id od' = ''u1'') \<and>
   map o_status (orders (run_requests sample_deployment sample_cancel sample_state)) = [CANCELED]"
proof
  have "hd (orders sample_state) \<in> set (orders sample_state)" by (simp add: sample_state_eq)
  from orders_keep_owner [OF sample_fits(2) this, of sample_deployment sample_cancel]
  show "\<exists>od'\<in>set (orders (run_requests sample_deployment sample_cancel sample_state)). o_user_id od' = ''u1''"
    by (auto simp: sample_state_eq)
  show "map o_status (orders (run_requests sample_deployment sample_cancel sample_state)) = [CANCELED]"
    unfolding sample_state_eq by code_simp
qed

text \<open>
  Whatever requests are served, a product stays in the store with its seller, and the users and
  the log of operations are only appended to.
\<close>

theorem rows_are_kept:
  assumes "db_fits d" and "p \<in> set (products d)"
  shows "(\<exists>p'\<in>set (products (run_requests D reqs d)). p_id p' = p_id p \<and> p_seller_id p' = p_seller_id p) \<and>
    prefix (users d) (users (run_requests D reqs d)) \<and>
    prefix (user_operations d) (user_operations (run_requests D reqs d))"
  using products_follow.run_rel [OF assms(1)] users_grow.run_rel [OF assms(1)] operations_grow.run_rel [OF assms(1)] assms(2)
  unfolding products_follow_def product_follows_def by blast

theorem rows_are_kept_witness:
  "\<exists>p'\<in>set (products (run_requests sample_deployment sample_cancel sample_state)). p_id p' = ''p1'' \<and> p_seller_id p' = ''u2''"
proof -
  have "hd (products sample_state) \<in> set (products sample_state)" by (simp add: sample_state_eq)
  from rows_are_kept [OF sample_fits(2) this, of sample_deployment sample_cancel] show ?thesis
    by (auto simp: sample_state_eq)
qed

end
