(* ===== verification/Order_Properties.thy ===== *)
theory Order_Properties
  imports Market_Properties
begin

text \<open>
  The order endpoints seen from outside: what a successful request did to orders, stock, promo codes
  and the log of operations, which guards refuse a request, and the round trip of creating and
  canceling an order.
\<close>

section \<open>Serving an order request\<close>

lemma stock_of_touch [simp]: "stock_of (map (touch_product now old) rows) k = stock_of rows k"
  by (simp add: stock_of_def find_by_map option.case_eq_if option.map_sel)

lemma serve_create_order:
  assumes "db_fits d" and "serve D t cred (AsUser (CreateOrder p)) d = (Inr rep, d')"
  obtains u w od where "may_request D d u (CreateOrder p)"
    and "create_order_body (dp_settings D) (dp_numeric D) (tk_clock t) (tk_new_ids t) p u d = Inr (o_id od, w)"
    and "d' = touch (db_now (tk_clock t)) d w" and "find_by o_id (o_id od) (orders d') = Some od"
    and "rep = OneOrder (to_order_response od)"
proof -
  from assms(2) obtain u s1 s' where may: "may_request D d u (CreateOrder p)" and s1: "clean s1" "durable s1 = d"
      and h: "user_handler D t (CreateOrder p) u s1 = (Inr rep, s')" and d': "d' = durable s'"
    by (rule serve_user_Inr)
  from h obtain resp where rep: "rep = OneOrder resp"
      and c: "create_order (dp_settings D) (dp_numeric D) (tk_clock t) (tk_new_ids t) p u s1 = (Inr resp, s')"
    by (auto elim: reply_with_cases)
  have fits: "db_fits (durable s1)" using assms(1) s1 by simp
  from order_result_Inr [OF s1(1) fits c [unfolded create_order_def]] obtain oid w od where
    "create_order_body (dp_settings D) (dp_numeric D) (tk_clock t) (tk_new_ids t) p u (durable s1) = Inr (oid, w)"
    "durable s' = touch (db_now (tk_clock t)) (durable s1) w"
    "find_by o_id oid (orders (durable s')) = Some od" "resp = to_order_response od" .
  moreover from this(3) have "oid = o_id od" by (auto dest: find_by_SomeD)
  ultimately show thesis using that may rep d' s1(2) by simp
qed

lemma serve_update_order:
  assumes "db_fits d" and "serve D t cred (AsUser (UpdateOrder oid items)) d = (Inr rep, d')"
  obtains u w old od where "may_request D d u (UpdateOrder oid items)"
    and "old \<in> set (orders d)" and "o_id old = oid" and "require_order_owner old u = Inr ()" and "o_status old = CREATED"
    and "update_order_body (dp_settings D) (dp_numeric D) (tk_clock t) (tk_new_ids t) items u old d = Inr (oid, w)"
    and "d' = touch (db_now (tk_clock t)) d w" and "find_by o_id oid (orders d') = Some od"
    and "rep = OneOrder (to_order_response od)"
proof -
  from assms(2) obtain u s1 s' where may: "may_request D d u (UpdateOrder oid items)" and s1: "clean s1" "durable s1 = d"
      and h: "user_handler D t (UpdateOrder oid items) u s1 = (Inr rep, s')" and d': "d' = durable s'"
    by (rule serve_user_Inr)
  from h obtain resp where rep: "rep = OneOrder resp"
      and c: "update_order (dp_settings D) (dp_numeric D) (tk_clock t) (tk_new_ids t) oid items u s1 = (Inr resp, s')"
    by (auto elim: reply_with_cases)
  have fits: "db_fits (durable s1)" using assms(1) s1 by simp
  show thesis
  proof (rule update_order_Inr [OF s1(1) fits c])
    fix old w od
    assume "old \<in> set (orders (durable s1))" "o_id old = oid" "require_order_owner old u = Inr ()" "o_status old = CREATED"
      "update_order_body (dp_settings D) (dp_numeric D) (tk_clock t) (tk_new_ids t) items u old (durable s1) = Inr (oid, w)"
      "durable s' = touch (db_now (tk_clock t)) (durable s1) w"
      "find_by o_id oid (orders (durable s')) = Some od" "resp = to_order_response od"
    then show thesis by (intro that [OF may, of old w od]) (simp_all only: d' rep s1(2))
  qed
qed

lemma serve_cancel_order:
  assumes "db_fits d" and "serve D t cred (AsUser (CancelOrder oid)) d = (Inr rep, d')"
  obtains u w old od where "may_request D d u (CancelOrder oid)"
    and "old \<in> set (orders d)" and "o_id old = oid" and "require_order_owner old u = Inr ()"
    and "o_status old \<in> {CREATED, PAYMENT_PENDING}" and "cancel_order_body old d = Inr (oid, w)"
    and "d' = touch (db_now (tk_clock t)) d w" and "find_by o_id oid (orders d') = Some od"
    and "rep = OneOrder (to_order_response od)"
proof -
  from assms(2) obtain u s1 s' where may: "may_request D d u (CancelOrder oid)" and s1: "clean s1" "durable s1 = d"
      and h: "user_handler D t (CancelOrder oid) u s1 = (Inr rep, s')" and d': "d' = durable s'"
    by (rule serve_user_Inr)
  from h obtain resp where rep: "rep = OneOrder resp"
      and c: "cancel_order (tk_clock t) oid u s1 = (Inr resp, s')"
    by (auto elim: reply_with_cases)
  have fits: "db_fits (durable s1)" using assms(1) s1 by simp
  show thesis
  proof (rule cancel_order_Inr [OF s1(1) fits c])
    fix old w od
    assume "old \<in> set (orders (durable s1))" "o_id old = oid" "require_order_owner old u = Inr ()" "o_status old \<in> {CREATED, PAYMENT_PENDING}"
      "cancel_order_body old (durable s1) = Inr (oid, w)"
      "durable s' = touch (db_now (tk_clock t)) (durable s1) w"
      "find_by o_id oid (orders (durable s')) = Some od" "resp = to_order_response od"
    then show thesis by (intro that [OF may, of old w od]) (simp_all only: d' rep s1(2))
  qed
qed

text \<open>Requested items and stored items compared by product and quantity.\<close>

definition item_demands :: "order_item list \<Rightarrow> (uuid \<times> int) list" where
  "item_demands items = map (\<lambda>it. (oi_product_id it, oi_quantity it)) items"

definition create_demands :: "order_item_create list \<Rightarrow> (uuid \<times> int) list" where
  "create_demands items = map (\<lambda>item. (oc_product_id item, oc_quantity item)) items"

lemma made_items_demands: "item_demands (made_items numeric m gen k items) = create_demands items"
  by (induction items arbitrary: k)
    (simp_all add: item_demands_def create_demands_def made_items_Cons)

lemma touched_orders: "map (touch_order now (orders d)) (orders d @ [od]) = orders d @ [touch_order now (orders d) od]"
  by (simp add: map_idI)

section \<open>POST /orders\<close>

text \<open>
  C11: An order that is created is stored as a new row of the caller, with the requested products and
  quantities in the order of the request; the stock of every product goes down by exactly what was
  requested of it, every requested product was active and had that much, and the operation is logged.
\<close>

theorem create_order_effect:
  assumes "db_fits d" and "serve D t cred (AsUser (CreateOrder p)) d = (Inr rep, d')"
  shows "\<exists>od u. u \<in> set (users d) \<and> rep = OneOrder (to_order_response od) \<and> orders d' = orders d @ [od] \<and>
    o_user_id od = u_id u \<and> o_status od = CREATED \<and> item_demands (o_items od) = create_demands (ocr_items p) \<and>
    (\<forall>k\<in>p_id ` set (products d). stock_of (products d') k = stock_of (products d) k - quantity_of (ocr_items p) k) \<and>
    (\<forall>item\<in>set (ocr_items p). \<exists>q\<in>set (products d). p_id q = oc_product_id item \<and> p_status q = ACTIVE \<and>
       quantity_of (ocr_items p) (p_id q) \<le> p_stock q) \<and>
    users d' = users d \<and>
    (\<exists>uo. user_operations d' = user_operations d @ [uo] \<and> uo_user_id uo = u_id u \<and>
       uo_operation_type uo = CREATE_ORDER \<and> uo_created_at uo = db_now (tk_clock t))"
proof -
  obtain u w od where may: "may_request D d u (CreateOrder p)"
    and body: "create_order_body (dp_settings D) (dp_numeric D) (tk_clock t) (tk_new_ids t) p u d = Inr (o_id od, w)"
    and d': "d' = touch (db_now (tk_clock t)) d w" and found: "find_by o_id (o_id od) (orders d') = Some od"
    and rep: "rep = OneOrder (to_order_response od)"
    by (rule serve_create_order [OF assms])
  from body obtain od0 pcs where w: "users w = users d" "orders w = orders d @ [od0]"
      "products w = deduct_stock (requested_quantities (ocr_items p)) (products d)"
    and op: "user_operations w = user_operations d @
      [\<lparr>uo_id = new_operation_id (tk_new_ids t), uo_user_id = u_id u, uo_operation_type = CREATE_ORDER,
        uo_created_at = db_now (tk_clock t)\<rparr>]"
    and od0: "o_id od0 = o_id od" "o_user_id od0 = u_id u" "o_status od0 = CREATED"
      "o_items od0 = made_items (dp_numeric D) (product_in (products d)) (new_item_id (tk_new_ids t)) 0 (ocr_items p)"
    and enough: "\<forall>item\<in>set (ocr_items p). \<exists>q. find_by p_id (oc_product_id item) (products d) = Some q \<and>
           p_status q = ACTIVE \<and> quantity_of (ocr_items p) (oc_product_id item) \<le> p_stock q"
    by (rule create_order_rows)
  let ?od = "touch_order (db_now (tk_clock t)) (orders d) od0"
  have orders: "orders d' = orders d @ [?od]" by (simp add: d' w(2) touched_orders del: map_append)
  have "o_id ?od = o_id od" using od0 by simp
  moreover have "distinct (map o_id (orders d'))"
    using db_fits_distinct(4) [OF serve_fits [OF assms]] .
  ultimately have "od = ?od"
    using found distinct_find_by [of o_id "orders d'" ?od] orders by simp
  have active: "\<forall>item\<in>set (ocr_items p). \<exists>q\<in>set (products d). p_id q = oc_product_id item \<and> p_status q = ACTIVE \<and>
       quantity_of (ocr_items p) (p_id q) \<le> p_stock q"
  proof
    fix item
    assume "item \<in> set (ocr_items p)"
    with enough obtain q where q: "find_by p_id (oc_product_id item) (products d) = Some q" "p_status q = ACTIVE"
        "quantity_of (ocr_items p) (oc_product_id item) \<le> p_stock q" by blast
    with find_by_SomeD [OF q(1)] show "\<exists>q\<in>set (products d). p_id q = oc_product_id item \<and> p_status q = ACTIVE \<and>
       quantity_of (ocr_items p) (p_id q) \<le> p_stock q" by (intro bexI [of _ q]) simp_all
  qed
  show ?thesis
  proof (intro exI conjI)
    show "u \<in> set (users d)" using may by (simp add: may_request_def)
    show "orders d' = orders d @ [od]" using orders \<open>od = ?od\<close> by simp
    show "user_operations d' = user_operations d @
      [\<lparr>uo_id = new_operation_id (tk_new_ids t), uo_user_id = u_id u, uo_operation_type = CREATE_ORDER,
        uo_created_at = db_now (tk_clock t)\<rparr>]" by (simp add: d' op)
  qed (use \<open>od = ?od\<close> od0 rep active w in \<open>simp_all add: d' made_items_demands stock_deduct\<close>)
qed

theorem create_order_effect_witness:
  "\<exists>od. orders sample_state = [od] \<and> item_demands (o_items od) = [(''p1'', 1)] \<and>
     stock_of (products sample_state) ''p1'' = stock_of (products sample_shop) ''p1'' - 1"
proof -
  let ?p = "\<lparr>ocr_items = [\<lparr>oc_product_id = ''p1'', oc_quantity = 1\<rparr>], ocr_promo_code = Some ''HALF''\<rparr>"
  let ?r = "serve sample_deployment (sample_tick 5 ''x'' ''o1'') (access_of ''u1'' ''USER'') (AsUser (CreateOrder ?p)) sample_shop"
  have "\<not> isl (fst ?r) \<and> snd ?r = sample_state" unfolding sample_shop_eq sample_state_eq by code_simp
  then obtain rep where "?r = (Inr rep, sample_state)" by (metis isl_def old.sum.exhaust prod.collapse)
  from create_order_effect [OF sample_fits(1) this] show ?thesis
    by (auto simp: sample_shop_eq create_demands_def quantity_of_def)
qed

section \<open>POST /orders/{id}/cancel\<close>

lemma replaced_others:
  "od \<in> set rows \<Longrightarrow> key od \<noteq> key r \<Longrightarrow> od \<in> set (replace_by key r rows)"
  by (simp add: replace_by_set)

lemma touched_replaced:
  assumes "od \<in> set (orders d)" and "o_id od \<noteq> o_id r"
  shows "od \<in> set (map (touch_order now (orders d)) (replace_by o_id r (orders d)))"
proof -
  have "od \<in> set (replace_by o_id r (orders d))" using assms by (rule replaced_others)
  moreover have "touch_order now (orders d) od = od" using assms(1) by simp
  ultimately show ?thesis by (metis image_eqI list.set_map)
qed

text \<open>
  C12: An order that is canceled was open, keeps its items, and gives every product back exactly what
  it took; the other orders, the users and the log of operations stay as they are.
\<close>

theorem cancel_order_effect:
  assumes "db_fits d" and "serve D t cred (AsUser (CancelOrder oid)) d = (Inr rep, d')"
  shows "\<exists>old od. old \<in> set (orders d) \<and> o_id old = oid \<and> o_status old \<in> {CREATED, PAYMENT_PENDING} \<and>
    rep = OneOrder (to_order_response od) \<and> find_by o_id oid (orders d') = Some od \<and>
    o_status od = CANCELED \<and> o_items od = o_items old \<and>
    (\<forall>k\<in>p_id ` set (products d). stock_of (products d') k = stock_of (products d) k + item_quantity_of (o_items old) k) \<and>
    (\<forall>od'\<in>set (orders d). o_id od' \<noteq> oid \<longrightarrow> od' \<in> set (orders d')) \<and>
    users d' = users d \<and> user_operations d' = user_operations d"
proof -
  obtain w old od where old: "old \<in> set (orders d)" "o_id old = oid" "o_status old \<in> {CREATED, PAYMENT_PENDING}"
    and body: "cancel_order_body old d = Inr (oid, w)" and d': "d' = touch (db_now (tk_clock t)) d w"
    and found: "find_by o_id oid (orders d') = Some od" and rep: "rep = OneOrder (to_order_response od)"
    by (rule serve_cancel_order [OF assms])
  from body obtain pcs where w: "w = d\<lparr>products := restock (o_items old) (products d),
      orders := replace_by o_id (old\<lparr>o_status := CANCELED\<rparr>) (orders d), promo_codes := pcs\<rparr>"
    by (rule cancel_order_body_Inr)
  have "find_by o_id oid (orders d) \<noteq> None" using old(1,2) by (auto simp: find_by_None_iff)
  then have od: "od = touch_order (db_now (tk_clock t)) (orders d) (old\<lparr>o_status := CANCELED\<rparr>)"
    using found old(2) by (auto simp: d' w table_simps)
  show ?thesis
  proof (intro exI conjI ballI impI)
    fix od'
    assume "od' \<in> set (orders d)" "o_id od' \<noteq> oid"
    then show "od' \<in> set (orders d')"
      using touched_replaced [of od' d "old\<lparr>o_status := CANCELED\<rparr>"] old(2) by (simp add: d' w)
  qed (fact old rep found | simp add: od d' w stock_restock)+
qed

theorem cancel_order_effect_witness:
  "(let r = serve sample_deployment (sample_tick 20 ''x'' ''x'') (access_of ''u1'' ''USER'') (AsUser (CancelOrder ''o1'')) sample_state
    in stock_of (products (snd r)) ''p1'' = 5 \<and> stock_of (products sample_state) ''p1'' = 4)"
proof -
  let ?r = "serve sample_deployment (sample_tick 20 ''x'' ''x'') (access_of ''u1'' ''USER'') (AsUser (CancelOrder ''o1'')) sample_state"
  have "\<not> isl (fst ?r)" unfolding sample_state_eq by code_simp
  then obtain rep where "?r = (Inr rep, snd ?r)" by (metis isl_def old.sum.exhaust prod.collapse)
  from cancel_order_effect [OF sample_fits(2) this] show ?thesis
    by (auto simp: sample_state_eq item_quantity_of_def stock_of_def Let_def)
qed

lemma uses_of_touch [simp]: "uses_of (promo_codes (touch now d w)) k = uses_of (promo_codes w) k"
  by simp

lemma uses_of_absent: "k \<notin> pc_id ` set rows \<Longrightarrow> uses_of rows k = 0"
  by (simp add: uses_of_def find_by_None_iff [THEN iffD2])

lemma uses_of_row: "distinct (map pc_id rows) \<Longrightarrow> pc \<in> set rows \<Longrightarrow> uses_of rows (pc_id pc) = pc_current_uses pc"
  by (simp add: uses_of_def distinct_find_by)

lemma add_uses_keys [simp]: "map pc_id (add_uses k n rows) = map pc_id rows"
  by (simp add: add_uses_def)

lemma uses_of_add: "k \<in> pc_id ` set rows \<Longrightarrow> uses_of (add_uses j n rows) k = uses_of rows k + (if k = j then n else 0)"
  by (rule promo_uses.amount_add)

lemma uses_of_undo: "uses_of (add_uses k (- 1) (add_uses k 1 rows)) j = uses_of rows j"
proof (cases "j \<in> pc_id ` set rows")
  case True
  have "j \<in> pc_id ` set (add_uses k 1 rows)" using True by (rule promo_uses.keeps)
  with True show ?thesis by (simp add: uses_of_add)
next
  case False
  have "pc_id ` set (add_uses k (- 1) (add_uses k 1 rows)) = pc_id ` set rows"
    by (metis add_uses_keys list.set_map)
  with False show ?thesis by (simp add: uses_of_absent)
qed

text \<open>What a creation and the cancellation after it do to the stock and to the uses of a code.\<close>

lemma stock_undone:
  assumes "\<And>j. item_quantity_of its j = quantity_of items j"
    and "\<And>j. stock_of ps1 j = stock_of (deduct_stock (requested_quantities items) rows) j"
    and "\<And>j. stock_of ps2 j = stock_of (restock its ps1) j"
    and "map p_id ps1 = map p_id rows" and "map p_id ps2 = map p_id rows"
  shows "stock_of ps2 k = stock_of rows k"
proof (cases "k \<in> p_id ` set rows")
  case True
  then have "k \<in> p_id ` set ps1" using assms(4) by (metis list.set_map)
  with True assms(1-3) show ?thesis by (simp add: stock_restock stock_deduct)
next
  case False
  then have "k \<notin> p_id ` set ps2" using assms(5) by (metis list.set_map)
  with False show ?thesis by (simp add: stock_of_absent)
qed

lemma use_given_back:
  assumes "distinct (map pc_id rows)" and "pc \<in> set rows" and "0 \<le> pc_current_uses pc"
    and "(pid = Some (pc_id pc) \<longrightarrow> (\<forall>q\<in>set (add_uses (pc_id pc) 1 rows). pc_id q = pc_id pc \<longrightarrow> pc_current_uses q \<le> 0)) \<and>
           pcs = add_uses (pc_id pc) 1 rows \<or>
         (\<exists>q. pid = Some (pc_id q) \<and> pcs = add_uses (pc_id q) (- 1) (add_uses (pc_id pc) 1 rows))"
    and "pid = Some (pc_id pc)"
  shows "uses_of pcs k = uses_of rows k"
proof -
  let ?rows = "add_uses (pc_id pc) 1 rows"
  have dist: "distinct (map pc_id ?rows)" using assms(1) by simp
  have pos: "0 < uses_of ?rows (pc_id pc)"
    using assms(2,3) uses_of_row [OF assms(1,2)] by (simp add: uses_of_add)
  have "pc_id pc \<in> pc_id ` set ?rows" by (rule promo_uses.keeps) (use assms(2) in simp)
  then obtain q where q: "q \<in> set ?rows" "pc_id q = pc_id pc" by auto
  have "0 < pc_current_uses q" using pos uses_of_row [OF dist q(1)] q(2) by simp
  with assms(4,5) q have "pcs = add_uses (pc_id pc) (- 1) ?rows" by auto
  then show ?thesis by (simp add: uses_of_undo)
qed

text \<open>
  C13: Creating an order and canceling it again, whatever the two requests were given otherwise,
  leaves the stock of every product and the uses of every promo code as they were.
\<close>

theorem create_then_cancel:
  assumes "follows_schema D" and "reachable D d"
    and "serve D t cred (AsUser (CreateOrder p)) d = (Inr (OneOrder resp), d1)"
    and "serve D t' cred' (AsUser (CancelOrder (or_id resp))) d1 = (Inr rep, d2)"
  shows "stock_of (products d2) k = stock_of (products d) k \<and> uses_of (promo_codes d2) k = uses_of (promo_codes d) k"
proof -
  have fits: "db_fits d" by (rule reachable_fits [OF assms(2)])
  have fits1: "db_fits d1" by (rule serve_fits [OF fits assms(3)])
  obtain u w od where body: "create_order_body (dp_settings D) (dp_numeric D) (tk_clock t) (tk_new_ids t) p u d = Inr (o_id od, w)"
    and d1: "d1 = touch (db_now (tk_clock t)) d w" and found: "find_by o_id (o_id od) (orders d1) = Some od"
    and resp: "OneOrder resp = OneOrder (to_order_response od)"
    by (rule serve_create_order [OF fits assms(3)])
  have oid: "or_id resp = o_id od" using resp by (simp add: to_order_response_def)
  obtain w' old where old: "old \<in> set (orders d1)" "o_id old = or_id resp"
    and cbody: "cancel_order_body old d1 = Inr (or_id resp, w')" and d2: "d2 = touch (db_now (tk_clock t')) d1 w'"
    by (rule serve_cancel_order [OF fits1 assms(4)])
  from distinct_find_by [OF db_fits_distinct(4) [OF fits1] old(1)] found old(2) oid have "old = od"
    by (metis option.inject)
  from cbody obtain pcs' where w': "w' = d1\<lparr>products := restock (o_items old) (products d1),
        orders := replace_by o_id (old\<lparr>o_status := CANCELED\<rparr>) (orders d1), promo_codes := pcs'\<rparr>"
    and pcs': "(pcs' = promo_codes d1 \<and> (\<forall>pid. o_promo_code_id old = Some pid \<longrightarrow>
             (\<forall>pc\<in>set (promo_codes d1). pc_id pc = pid \<longrightarrow> pc_current_uses pc \<le> 0))) \<or>
         (\<exists>pc\<in>set (promo_codes d1). o_promo_code_id old = Some (pc_id pc) \<and> 0 < pc_current_uses pc \<and>
            pcs' = add_uses (pc_id pc) (- 1) (promo_codes d1))"
    by (rule cancel_order_body_Inr)
  from body show ?thesis
  proof (rule create_order_rows)
    fix od0 pcs
    assume w: "products w = deduct_stock (requested_quantities (ocr_items p)) (products d)" "orders w = orders d @ [od0]"
        "promo_codes w = pcs" "o_id od0 = o_id od"
        "o_items od0 = made_items (dp_numeric D) (product_in (products d)) (new_item_id (tk_new_ids t)) 0 (ocr_items p)"
      and promo: "(o_promo_code_id od0 = None \<and> pcs = promo_codes d \<and> o_discount_amount od0 = dp_numeric D 0 \<and>
            o_total_amount od0 = dp_numeric D (gross_amount (product_in (products d)) (ocr_items p))) \<or>
         (\<exists>pc discount. pc \<in> set (promo_codes d) \<and> o_promo_code_id od0 = Some (pc_id pc) \<and>
            validate_promo_basic (promo_now (tk_clock t)) False pc = Inr () \<and>
            calculate_discount pc (gross_amount (product_in (products d)) (ocr_items p)) = Inr discount \<and>
            pcs = add_uses (pc_id pc) 1 (promo_codes d) \<and> o_discount_amount od0 = dp_numeric D discount \<and>
            o_total_amount od0 = dp_numeric D (gross_amount (product_in (products d)) (ocr_items p) - discount))"
    let ?od0 = "touch_order (db_now (tk_clock t)) (orders d) od0"
    have "?od0 \<in> set (orders d1)" by (simp add: d1 w)
    from distinct_find_by [OF db_fits_distinct(4) [OF fits1] this] found w(4) have od: "od = ?od0"
      by (metis option.inject touch_order_frame(1))
    have stock: "stock_of (products d2) k = stock_of (products d) k"
      by (rule stock_undone [where ?ps1.0 = "products d1" and its = "o_items od" and items = "ocr_items p"])
        (simp_all add: d1 d2 w w' \<open>old = od\<close> od made_items_quantity comp_def
          same_rows_keys [OF restock_same] same_rows_keys [OF deduct_stock_same])
    from promo have "uses_of (promo_codes d2) k = uses_of (promo_codes d) k"
    proof (elim disjE conjE exE)
      assume "o_promo_code_id od0 = None" "pcs = promo_codes d"
      with pcs' show ?thesis by (auto simp: d2 w' \<open>old = od\<close> od d1 w)
    next
      fix pc discount
      assume pc: "pc \<in> set (promo_codes d)" "o_promo_code_id od0 = Some (pc_id pc)" "pcs = add_uses (pc_id pc) 1 (promo_codes d)"
      have codes: "promo_codes d1 = add_uses (pc_id pc) 1 (promo_codes d)" "promo_codes d2 = pcs'"
        by (simp_all add: d1 d2 w w' pc(3))
      have "0 \<le> pc_current_uses pc"
        using uses_inv.reachable_inv [OF assms(1,2)] pc(1) by (simp add: uses_ok_def)
      from use_given_back [OF db_fits_distinct(5) [OF fits] pc(1) this, of "o_promo_code_id od" pcs'] pcs' pc(2)
      show ?thesis by (auto simp: codes \<open>old = od\<close> od)
    qed
    with stock show ?thesis ..
  qed
qed

theorem create_then_cancel_witness:
  "stock_of (products (run_requests sample_deployment sample_cancel sample_state)) ''p1'' = stock_of (products sample_shop) ''p1'' \<and>
   uses_of (promo_codes (run_requests sample_deployment sample_cancel sample_state)) ''c1'' = 0"
proof -
  let ?p = "\<lparr>ocr_items = [\<lparr>oc_product_id = ''p1'', oc_quantity = 1\<rparr>], ocr_promo_code = Some ''HALF''\<rparr>"
  let ?r = "serve sample_deployment (sample_tick 5 ''x'' ''o1'') (access_of ''u1'' ''USER'') (AsUser (CreateOrder ?p)) sample_shop"
  have "\<not> isl (fst ?r) \<and> snd ?r = sample_state" unfolding sample_shop_eq sample_state_eq by code_simp
  then obtain rep where r: "?r = (Inr rep, sample_state)" by (metis isl_def old.sum.exhaust prod.collapse)
  then obtain od where od: "rep = OneOrder (to_order_response od)" "find_by o_id (o_id od) (orders sample_state) = Some od"
    by (rule serve_create_order [OF sample_fits(1)])
  then have id: "or_id (to_order_response od) = ''o1''"
    by (auto simp: sample_state_eq to_order_response_def split: if_splits)
  let ?c = "serve sample_deployment (sample_tick 20 ''x'' ''x'') (access_of ''u1'' ''USER'') (AsUser (CancelOrder ''o1'')) sample_state"
  have "\<not> isl (fst ?c)" unfolding sample_state_eq by code_simp
  then obtain rep' where c: "?c = (Inr rep', snd ?c)" by (metis isl_def old.sum.exhaust prod.collapse)
  have run: "run_requests sample_deployment sample_cancel sample_state = snd ?c" by (simp add: sample_cancel_def)
  note undone = create_then_cancel [OF sample_follows_schema sample_shop_reachable r [unfolded od(1)], unfolded id, OF c]
  from undone [of "''p1''"] undone [of "''c1''"] show ?thesis
    by (simp add: run) (simp add: uses_of_def sample_shop_eq)
qed

end
