(* ===== verification/Order_Guards.thy ===== *)
theory Order_Guards
  imports Order_Properties
begin

text \<open>
  The remaining properties of the order endpoints: what an update does to the stock, the error that
  names the products short of stock, the rate limit, and the guards on owner and status.
\<close>

section \<open>PUT /orders/{id}\<close>

text \<open>
  C14: Changing the items of an order needs a created order, replaces its items by the requested ones,
  and moves the stock of every product by what the old items held and the new ones take; owner, status
  and the other orders stay.
\<close>

theorem update_order_effect:
  assumes "db_fits d" and "serve D t cred (AsUser (UpdateOrder oid items)) d = (Inr rep, d')"
  shows "\<exists>old od. old \<in> set (orders d) \<and> o_id old = oid \<and> o_status old = CREATED \<and>
    rep = OneOrder (to_order_response od) \<and> find_by o_id oid (orders d') = Some od \<and>
    o_user_id od = o_user_id old \<and> o_status od = CREATED \<and> item_demands (o_items od) = create_demands items \<and>
    (\<forall>k\<in>p_id ` set (products d). stock_of (products d') k =
       stock_of (products d) k + item_quantity_of (o_items old) k - quantity_of items k) \<and>
    (\<forall>od'\<in>set (orders d). o_id od' \<noteq> oid \<longrightarrow> od' \<in> set (orders d')) \<and> users d' = users d"
proof -
  obtain u w old od where old: "old \<in> set (orders d)" "o_id old = oid" "o_status old = CREATED"
    and body: "update_order_body (dp_settings D) (dp_numeric D) (tk_clock t) (tk_new_ids t) items u old d = Inr (oid, w)"
    and d': "d' = touch (db_now (tk_clock t)) d w"
    and found: "find_by o_id oid (orders d') = Some od" and rep: "rep = OneOrder (to_order_response od)"
    by (rule serve_update_order [OF assms])
  from body obtain od0 where w: "users w = users d" "orders w = replace_by o_id od0 (orders d)"
      "products w = deduct_stock (requested_quantities items) (restock (o_items old) (products d))"
    and od0: "o_id od0 = o_id old" "o_user_id od0 = o_user_id old" "o_status od0 = o_status old"
      "o_items od0 = made_items (dp_numeric D) (product_in (products d)) (new_item_id (tk_new_ids t)) 0 items"
    by (rule update_order_rows)
  have "find_by o_id oid (orders d) \<noteq> None" using old(1,2) by (auto simp: find_by_None_iff)
  then have od: "od = touch_order (db_now (tk_clock t)) (orders d) od0"
    using found old(2) od0(1) by (auto simp: d' w table_simps)
  have keys: "p_id ` set (restock (o_items old) (products d)) = p_id ` set (products d)"
    using same_rows_keys [OF restock_same, of "o_items old" "products d"] by (metis list.set_map)
  show ?thesis
  proof (intro exI conjI ballI impI)
    fix od'
    assume "od' \<in> set (orders d)" "o_id od' \<noteq> oid"
    then show "od' \<in> set (orders d')"
      using touched_replaced [of od' d od0] old(2) od0(1) by (simp add: d' w)
  qed (fact old rep found | simp add: od od0 old(3) d' w keys stock_deduct stock_restock made_items_demands)+
qed

definition sample_change :: request where
  "sample_change = AsUser (UpdateOrder ''o1'' [\<lparr>oc_product_id = ''p1'', oc_quantity = 3\<rparr>])"

theorem update_order_effect_witness:
  "stock_of (products sample_state) ''p1'' = 4 \<and>
   stock_of (products (snd (serve sample_deployment (sample_tick 20 ''x'' ''n'') (access_of ''u1'' ''USER'') sample_change sample_state))) ''p1'' = 2"
proof -
  let ?r = "serve sample_deployment (sample_tick 20 ''x'' ''n'') (access_of ''u1'' ''USER'') sample_change sample_state"
  have "\<not> isl (fst ?r)" unfolding sample_state_eq by code_simp
  then obtain rep where "?r = (Inr rep, snd ?r)" by (metis isl_def old.sum.exhaust prod.collapse)
  from update_order_effect [OF sample_fits(2) this [unfolded sample_change_def]] show ?thesis
    by (auto simp: sample_state_eq item_quantity_of_def stock_of_def quantity_of_def sample_change_def)
qed

section \<open>The error that names what is missing\<close>

definition short_products :: "db \<Rightarrow> order_item_create list \<Rightarrow> uuid list" where
  "short_products d items =
     filter (\<lambda>k. stock_of (products d) k < quantity_of items k) (map fst (requested_quantities items))"

lemma insufficient_items_short:
  assumes "\<And>k. k \<in> oc_product_id ` set items \<Longrightarrow> find_by p_id k (products d) \<noteq> None"
  shows "insufficient_items (fetch_product_map (products d) (map fst (requested_quantities items))) (requested_quantities items) =
     Inr (map (\<lambda>k. shortage k (quantity_of items k) (stock_of (products d) k)) (short_products d items))"
proof -
  let ?req = "requested_quantities items"
  let ?m = "fetch_product_map (products d) (map fst ?req)"
  have m: "?m k = find_by p_id k (products d)" if "k \<in> fst ` set ?req" for k using that by simp
  have stock: "p_stock (the (?m k)) = stock_of (products d) k" if "k \<in> fst ` set ?req" for k
    using assms [of k] that unfolding m [OF that] by (auto simp: stock_of_def split: option.splits)
  have qty: "n = quantity_of items k" if "(k, n) \<in> set ?req" for k n using that by (rule requested_quantities_mem)
  have each: "p_stock (the (?m (fst kn))) = stock_of (products d) (fst kn) \<and> snd kn = quantity_of items (fst kn)"
    if "kn \<in> set ?req" for kn
  proof
    from that have "fst kn \<in> fst ` set ?req" by (rule imageI)
    then show "p_stock (the (?m (fst kn))) = stock_of (products d) (fst kn)" by (rule stock)
    from that show "snd kn = quantity_of items (fst kn)" by (intro qty) simp
  qed
  have "insufficient_items ?m ?req =
      Inr (map (\<lambda>(k, n). shortage k n (p_stock (the (?m k)))) (filter (\<lambda>(k, n). p_stock (the (?m k)) < n) ?req))"
    by (rule insufficient_items_Inr) (use assms m in simp)
  also have "filter (\<lambda>(k, n). p_stock (the (?m k)) < n) ?req =
      filter (\<lambda>kn. stock_of (products d) (fst kn) < quantity_of items (fst kn)) ?req"
    by (rule filter_cong [OF refl]) (simp only: each case_prod_unfold)
  also have "map (\<lambda>(k, n). shortage k n (p_stock (the (?m k)))) \<dots> =
      map (\<lambda>kn. shortage (fst kn) (quantity_of items (fst kn)) (stock_of (products d) (fst kn))) \<dots>"
    by (rule map_cong [OF refl]) (simp only: each case_prod_unfold set_filter mem_Collect_eq)
  finally show ?thesis by (simp add: short_products_def filter_map comp_def)
qed

text \<open>
  C15: An order for products that are all there and active, but some of which have less stock than is
  requested of them in total, is refused with 409 INSUFFICIENT_STOCK; the details list exactly those
  products, with what was requested and what there is.
\<close>

theorem insufficient_stock_reported:
  assumes "check_rate_limit cfg (rate_now clk) d (u_id u) CREATE_ORDER = Inr ()" and "active_orders d (u_id u) = []"
    and "\<And>item. item \<in> set (ocr_items p) \<Longrightarrow>
      \<exists>q. find_by p_id (oc_product_id item) (products d) = Some q \<and> p_status q = ACTIVE"
    and "short_products d (ocr_items p) \<noteq> []"
  shows "create_order_body cfg numeric clk ids p u d =
    Inl (ApiError ''INSUFFICIENT_STOCK'' 409 ''Insufficient stock''
      (Some (JDict [(''items'', JList (map (\<lambda>k. shortage k (quantity_of (ocr_items p) k) (stock_of (products d) k))
                                         (short_products d (ocr_items p))))])))"
proof -
  let ?req = "requested_quantities (ocr_items p)"
  have "check_products (fetch_product_map (products d) (map fst ?req)) (map fst ?req) = Inr ()"
    unfolding check_products_Inr using assms(3) by fastforce
  moreover have "insufficient_items (fetch_product_map (products d) (map fst ?req)) ?req =
      Inr (map (\<lambda>k. shortage k (quantity_of (ocr_items p) k) (stock_of (products d) k)) (short_products d (ocr_items p)))"
    by (rule insufficient_items_short) (use assms(3) in fastforce)
  ultimately show ?thesis
    using assms(1,2,4) by (simp add: create_order_body_def check_stock_def query_simps)
qed

theorem insufficient_stock_reported_witness:
  "create_order_body default_settings sample_numeric (sample_clock 9) (tk_new_ids (sample_tick 9 ''x'' ''o1''))
     \<lparr>ocr_items = [\<lparr>oc_product_id = ''p1'', oc_quantity = 4\<rparr>, \<lparr>oc_product_id = ''p1'', oc_quantity = 3\<rparr>], ocr_promo_code = None\<rparr>
     sample_buyer sample_shop =
   Inl (ApiError ''INSUFFICIENT_STOCK'' 409 ''Insufficient stock'' (Some (JDict [(''items'', JList [shortage ''p1'' 7 5])])))"
proof -
  let ?items = "[\<lparr>oc_product_id = ''p1'', oc_quantity = 4\<rparr>, \<lparr>oc_product_id = ''p1'', oc_quantity = 3\<rparr>]"
  have short: "short_products sample_shop ?items = [''p1'']"
    unfolding sample_shop_eq by code_simp
  have rate: "check_rate_limit default_settings (rate_now (sample_clock 9)) sample_shop (u_id sample_buyer) CREATE_ORDER = Inr ()"
    by (simp add: check_rate_limit_def sample_shop_eq order_by_desc_def first_row_def)
  have active: "active_orders sample_shop (u_id sample_buyer) = []" by (simp add: active_orders_def sample_shop_eq)
  have found: "\<exists>q. find_by p_id (oc_product_id item) (products sample_shop) = Some q \<and> p_status q = ACTIVE"
    if "item \<in> set ?items" for item
    using that by (auto simp: sample_shop_eq)
  have "quantity_of ?items ''p1'' = 7" "stock_of (products sample_shop) ''p1'' = 5"
    by (simp_all add: quantity_of_def stock_of_def sample_shop_eq)
  with insufficient_stock_reported [OF rate active, of "\<lparr>ocr_items = ?items, ocr_promo_code = None\<rparr>"] found short
  show ?thesis by simp
qed

section \<open>Rate limit\<close>

lemma check_rate_limit_exact:
  "check_rate_limit cfg now d user_id op =
     (if \<exists>uo\<in>set (user_operations d). uo_user_id uo = user_id \<and> uo_operation_type uo = op \<and>
          now - uo_created_at uo < minutes (order_rate_limit_minutes cfg)
      then Inl (ApiError ''ORDER_LIMIT_EXCEEDED'' 429 ''Order rate limit exceeded'' None) else Inr ())"
proof -
  let ?ops = "filter (\<lambda>uo. uo_user_id uo = user_id \<and> uo_operation_type uo = op) (user_operations d)"
  show ?thesis
  proof (cases "first_row (order_by_desc uo_created_at ?ops)")
    case None
    then have "?ops = []" by (simp only: first_order_by_desc_None)
    then have "\<not> (\<exists>uo\<in>set (user_operations d). uo_user_id uo = user_id \<and> uo_operation_type uo = op \<and>
          now - uo_created_at uo < minutes (order_rate_limit_minutes cfg))"
      by (auto simp: filter_empty_conv)
    with None show ?thesis by (simp add: check_rate_limit_def)
  next
    case (Some last_op)
    from first_order_by_desc [OF Some] have last: "last_op \<in> set ?ops" "\<forall>uo\<in>set ?ops. uo_created_at uo \<le> uo_created_at last_op"
      by auto
    have "(\<exists>uo\<in>set (user_operations d). uo_user_id uo = user_id \<and> uo_operation_type uo = op \<and>
          now - uo_created_at uo < minutes (order_rate_limit_minutes cfg)) \<longleftrightarrow>
        now - uo_created_at last_op < minutes (order_rate_limit_minutes cfg)"
      using last by (auto 4 4 intro: le_less_trans [OF diff_left_mono])
    with Some show ?thesis by (simp add: check_rate_limit_def Let_def)
  qed
qed

text \<open>
  The rate limit lets a user through exactly when each of the user's operations of that type
  is at least the configured number of minutes old.
\<close>

theorem rate_limit_exact:
  "check_rate_limit cfg now d user_id op =
     (if \<exists>uo\<in>set (user_operations d). uo_user_id uo = user_id \<and> uo_operation_type uo = op \<and>
          now - uo_created_at uo < minutes (order_rate_limit_minutes cfg)
      then Inl (ApiError ''ORDER_LIMIT_EXCEEDED'' 429 ''Order rate limit exceeded'' None) else Inr ())"
  by (rule check_rate_limit_exact)

text \<open>
  C17: After a user has created an order, every further attempt of that user to create one is refused
  with 429 until the configured number of minutes has passed, even if the order was canceled meanwhile
  or anything else was stored.
\<close>

theorem create_order_rate_limited:
  assumes "create_order_body cfg numeric clk ids p u d = Inr (oid, w)"
    and "prefix (user_operations w) (user_operations d')"
    and "rate_now clk' < db_now clk + minutes (order_rate_limit_minutes cfg)"
  shows "create_order_body cfg numeric clk' ids' p' u d' =
    Inl (ApiError ''ORDER_LIMIT_EXCEEDED'' 429 ''Order rate limit exceeded'' None)"
proof -
  let ?uo = "\<lparr>uo_id = new_operation_id ids, uo_user_id = u_id u, uo_operation_type = CREATE_ORDER,
              uo_created_at = db_now clk\<rparr>"
  from assms(1) have "user_operations w = user_operations d @ [?uo]" by (rule create_order_rows)
  with assms(2) have uo: "?uo \<in> set (user_operations d')" by (auto simp: prefix_def)
  then have "check_rate_limit cfg (rate_now clk') d' (u_id u) CREATE_ORDER =
      Inl (ApiError ''ORDER_LIMIT_EXCEEDED'' 429 ''Order rate limit exceeded'' None)"
    unfolding check_rate_limit_exact using assms(3) by (auto intro!: bexI [OF _ uo])
  then show ?thesis by (simp add: create_order_body_def Let_def)
qed

theorem create_order_rate_limited_witness:
  "\<exists>oid w. create_order_body default_settings sample_numeric (sample_clock 5) (tk_new_ids (sample_tick 5 ''x'' ''o1''))
       sample_basket sample_buyer sample_shop = Inr (oid, w) \<and>
     create_order_body default_settings sample_numeric (sample_clock 299000000) (tk_new_ids (sample_tick 5 ''x'' ''o2''))
       sample_basket sample_buyer (w\<lparr>orders := []\<rparr>) =
     Inl (ApiError ''ORDER_LIMIT_EXCEEDED'' 429 ''Order rate limit exceeded'' None)"
proof -
  let ?b = "create_order_body default_settings sample_numeric (sample_clock 5) (tk_new_ids (sample_tick 5 ''x'' ''o1''))
       sample_basket sample_buyer sample_shop"
  have "\<not> isl ?b" unfolding sample_shop_eq by code_simp
  then obtain oid w where b: "?b = Inr (oid, w)" by (metis isl_def old.sum.exhaust prod.collapse)
  from create_order_rate_limited [OF b, of "w\<lparr>orders := []\<rparr>" "sample_clock 299000000"
      "tk_new_ids (sample_tick 5 ''x'' ''o2'')" sample_basket]
  have "create_order_body default_settings sample_numeric (sample_clock 299000000) (tk_new_ids (sample_tick 5 ''x'' ''o2''))
       sample_basket sample_buyer (w\<lparr>orders := []\<rparr>) =
     Inl (ApiError ''ORDER_LIMIT_EXCEEDED'' 429 ''Order rate limit exceeded'' None)"
    by (simp add: sample_clock_def default_settings_def minutes_def)
  with b show ?thesis by blast
qed

section \<open>Owner and status\<close>

lemma with_order_found:
  assumes "clean s" and "db_fits (durable s)" and "find_by o_id oid (orders (durable s)) = Some od"
  shows "with_order oid u allowed s f =
    (case require_order_owner od u of
       Inl e \<Rightarrow> (Inl e, autobegin s)
     | Inr _ \<Rightarrow>
         if o_status od \<notin> allowed
         then (Inl (ApiError ''INVALID_STATE_TRANSITION'' 409 ''Invalid state transition'' None), autobegin s)
         else f od (autobegin s))"
  using assms db_fits_distinct(4) [OF assms(2)]
  by (simp add: with_order_def clean_def query_simps split: sum.splits)

text \<open>
  C18: A user who is not an administrator cannot read, change or cancel another user's order: the three
  handlers answer 403 ORDER_OWNERSHIP_VIOLATION and store nothing.
\<close>

theorem order_owner_only:
  assumes "clean s" and "db_fits (durable s)" and "find_by o_id oid (orders (durable s)) = Some od"
    and "u_role u \<noteq> ADMIN" and "o_user_id od \<noteq> u_id u"
    and "r = (Inl (ApiError ''ORDER_OWNERSHIP_VIOLATION'' 403 ''Order ownership violation'' None), autobegin s)"
  shows "get_order oid u s = r \<and> update_order cfg numeric clk ids oid items u s = r \<and> cancel_order clk oid u s = r"
proof -
  have owner: "require_order_owner od u = Inl (ApiError ''ORDER_OWNERSHIP_VIOLATION'' 403 ''Order ownership violation'' None)"
    using assms(4,5) by (simp add: require_order_owner_def)
  have "get_order oid u s = r"
    using assms(1-3) db_fits_distinct(4) [OF assms(2)] owner
    by (simp add: get_order_def clean_def query_simps assms(6))
  then show ?thesis
    by (simp add: update_order_def cancel_order_def with_order_found [OF assms(1-3)] owner assms(6))
qed

theorem order_owner_only_witness:
  "fst (get_order ''o1'' (sample_buyer\<lparr>u_id := ''u9''\<rparr>) (SessionLocal sample_state)) =
     Inl (ApiError ''ORDER_OWNERSHIP_VIOLATION'' 403 ''Order ownership violation'' None)"
proof -
  have "find_by o_id ''o1'' (orders (durable (SessionLocal sample_state))) = Some (hd (orders sample_state))"
    by (simp add: SessionLocal_def sample_state_eq)
  from order_owner_only [OF clean_SessionLocal _ this _ _ refl, of "sample_buyer\<lparr>u_id := ''u9''\<rparr>"] show ?thesis
    using sample_fits(2) by (simp add: sample_buyer_def) (simp add: SessionLocal_def sample_state_eq)
qed

text \<open>
  An order that is not created any more cannot be changed, and one that is not open any more
  cannot be canceled, by anyone: the handlers answer 409 INVALID_STATE_TRANSITION (or refuse the
  caller) and store nothing.
\<close>

theorem closed_orders_stay:
  assumes "clean s" and "db_fits (durable s)" and "find_by o_id oid (orders (durable s)) = Some od"
    and "require_order_owner od u = Inr ()"
    and "r = (Inl (ApiError ''INVALID_STATE_TRANSITION'' 409 ''Invalid state transition'' None), autobegin s)"
  shows "(o_status od \<noteq> CREATED \<longrightarrow> update_order cfg numeric clk ids oid items u s = r) \<and>
    (o_status od \<in> {PAID, SHIPPED, COMPLETED, CANCELED} \<longrightarrow> cancel_order clk oid u s = r)"
  using assms(4) by (auto simp: update_order_def cancel_order_def with_order_found [OF assms(1-3)] assms(5))

theorem closed_orders_stay_witness:
  "let d = run_requests sample_deployment sample_cancel sample_state in
   fst (cancel_order (sample_clock 30) ''o1'' sample_buyer (SessionLocal d)) =
     Inl (ApiError ''INVALID_STATE_TRANSITION'' 409 ''Invalid state transition'' None)"
proof -
  let ?d = "run_requests sample_deployment sample_cancel sample_state"
  have fits: "db_fits ?d" by (rule run_requests_fits [OF sample_fits(2)])
  have od: "map_option (\<lambda>od. (o_user_id od, o_status od)) (find_by o_id ''o1'' (orders ?d)) = Some (''u1'', CANCELED)"
    unfolding sample_state_eq by code_simp
  then obtain od where od: "find_by o_id ''o1'' (orders ?d) = Some od" "o_user_id od = ''u1''" "o_status od = CANCELED"
    by auto
  have found: "find_by o_id ''o1'' (orders (durable (SessionLocal ?d))) = Some od" using od(1) by (simp add: SessionLocal_def)
  have owner: "require_order_owner od sample_buyer = Inr ()" by (simp add: require_order_owner_def od(2) sample_buyer_def)
  from closed_orders_stay [OF clean_SessionLocal _ found owner refl] fits od(3) show ?thesis
    by (simp add: SessionLocal_def)
qed

end
