(* ===== verification/Account_Properties.thy ===== *)
theory Account_Properties
  imports Order_Guards
begin

text \<open>
  Accounts, tokens, and the transaction frame: registering and logging in, tokens that are of the
  wrong kind or too old, and the two branches of \<open>with_transaction\<close>.
\<close>

section \<open>Serving the authentication endpoints\<close>

lemma serve_public_Inr:
  assumes "serve D t cred (Public req) d = (Inr rep, d')"
  obtains s' where "public_handler D t req (SessionLocal d) = (Inr rep, s')" and "d' = durable s'"
    and "dp_validate D (Public req) = []"
  using assms by (auto simp: serve_def get_db_def close_def validated_def split: prod.splits if_splits)

lemma get_current_user_created:
  assumes R: "jwt_roundtrip J (token_claims t0 uid role ''access'' delta) (jwt_secret_key cfg)"
    and unexpired: "epoch_seconds now \<le> epoch_seconds (t0 + delta)"
    and u: "find_by u_id uid (users d) = Some u" and dist: "distinct (map u_id (users d))"
  shows "get_current_user J cfg now (Some (create_token J cfg t0 uid role ''access'' delta)) (SessionLocal d) =
     (Inr u, (autobegin (SessionLocal d))\<lparr>state_user_id := Some (u_id u)\<rparr>)"
proof -
  let ?tok = "create_token J cfg t0 uid role ''access'' delta"
  have tok: "?tok = jwt_encode J (token_claims t0 uid role ''access'' delta) (jwt_secret_key cfg)"
    by (simp add: create_token_def token_secret_def)
  have token: "?tok \<noteq> ''''" "py_strip ?tok = ?tok"
    using R unfolding jwt_roundtrip_def tok by blast+
  have "verify_token J cfg now ?tok ''access'' = Inr (token_claims t0 uid role ''access'' delta)"
    using verify_created_token [of J t0 uid role "''access''" delta cfg now] R unexpired by (simp add: token_secret_def)
  moreover have "one_or_none (filter (\<lambda>x. Some (u_id x) = Some uid) (users d)) = Inr (Some u)"
    using one_or_none_key [OF dist, of uid] u by simp
  ultimately show ?thesis
    using token by (simp add: get_current_user_def token_claims_def SessionLocal_def autobegin_def Let_def)
qed

text \<open>
  C20: Whoever registers can log in with the same e-mail and password, and the access token of that
  login identifies the account that was registered, until the token expires.
\<close>

theorem register_login_roundtrip:
  assumes "db_fits d" and "serve D t cred (Public (Register p)) d = (Inr (Registered resp), d')"
    and "dp_validate D (Public (Login \<lparr>lr_email = rr_email p, lr_password = rr_password p\<rparr>)) = []"
    and "case dp_hash D (rr_password p) of None \<Rightarrow> True | Some h \<Rightarrow> dp_verify D (rr_password p) h"
    and "jwt_roundtrip (dp_jose D)
      (token_claims (tk_auth_now t') (rs_id resp) (rs_role resp) ''access'' (minutes (access_token_expires_minutes (dp_settings D))))
      (jwt_secret_key (dp_settings D))"
    and "epoch_seconds now \<le> epoch_seconds (tk_auth_now t' + minutes (access_token_expires_minutes (dp_settings D)))"
  shows "\<exists>tok u s. serve D t' cred' (Public (Login \<lparr>lr_email = rr_email p, lr_password = rr_password p\<rparr>)) d' =
      (Inr (Tokens tok), d') \<and>
    get_current_user (dp_jose D) (dp_settings D) now (Some (tr_access_token tok)) (SessionLocal d') = (Inr u, s) \<and>
    u_id u = rs_id resp \<and> u_email u = rr_email p"
proof -
  obtain s' where h: "public_handler D t (Register p) (SessionLocal d) = (Inr (Registered resp), s')" and d': "d' = durable s'"
    by (rule serve_public_Inr [OF assms(2)])
  from h have "register_user (dp_hash D) (db_now (tk_clock t)) (tk_new_id t) p (SessionLocal d) = (Inr resp, s')"
    by (auto elim: reply_with_cases)
  then obtain hashed role where hashed: "dp_hash D (rr_password p) = Some hashed"
    and users: "durable s' = add_user (new_user (db_now (tk_clock t)) (tk_new_id t) p hashed role) (durable (SessionLocal d))"
    and resp: "resp = register_response (new_user (db_now (tk_clock t)) (tk_new_id t) p hashed role)"
    by (rule register_user_Inr [OF clean_SessionLocal])
  let ?u = "new_user (db_now (tk_clock t)) (tk_new_id t) p hashed role"
  have fits: "db_fits d'" by (rule serve_fits [OF assms(1,2)])
  have mem: "?u \<in> set (users d')" by (simp add: d' users add_user_def)
  have by_email: "find_by u_email (rr_email p) (users d') = Some ?u"
    using distinct_find_by [OF db_fits_distinct(2) [OF fits] mem] by (simp add: new_user_def)
  have by_id: "find_by u_id (rs_id resp) (users d') = Some ?u"
    using distinct_find_by [OF db_fits_distinct(1) [OF fits] mem] by (simp add: resp register_response_def new_user_def)
  have row: "u_id ?u = rs_id resp" "u_email ?u = rr_email p" "user_role_value (u_role ?u) = rs_role resp" "u_hashed_password ?u = hashed"
    by (simp_all add: resp register_response_def new_user_def)
  let ?tok = "\<lparr>tr_access_token = create_access_token (dp_jose D) (dp_settings D) (tk_auth_now t') (rs_id resp) (rs_role resp),
      tr_refresh_token = create_refresh_token (dp_jose D) (dp_settings D) (tk_auth_now t') (rs_id resp) (rs_role resp),
      tr_token_type = ''bearer''\<rparr>"
  have "serve D t' cred' (Public (Login \<lparr>lr_email = rr_email p, lr_password = rr_password p\<rparr>)) d' = (Inr (Tokens ?tok), d')"
    using assms(3,4) hashed one_or_none_key [OF db_fits_distinct(2) [OF fits], of "rr_email p"] by_email row
    by (simp add: serve_def get_db_def validated_def login_user_def reply_with_def SessionLocal_def close_def
        autobegin_def verify_password_def Let_def)
  moreover have "get_current_user (dp_jose D) (dp_settings D) now (Some (tr_access_token ?tok)) (SessionLocal d') =
      (Inr ?u, (autobegin (SessionLocal d'))\<lparr>state_user_id := Some (u_id ?u)\<rparr>)"
    unfolding create_access_token_def token_response.simps
    by (rule get_current_user_created [OF assms(5,6) by_id db_fits_distinct(1) [OF fits]])
  ultimately show ?thesis using row by blast
qed

text \<open>The example library keeps its promise for the tokens of the example accounts.\<close>

lemma sample_jwt:
  "jwt_roundtrip sample_jose (token_claims 0 ''u1'' ''USER'' ''access'' (minutes 30)) ''change_me_access''"
proof -
  have "sample_encode (sample_claims ''u1'' ''USER'' ''access'') ''change_me_access'' = ''access:u1:USER:change_me_access''"
    by code_simp
  then have enc: "sample_encode (token_claims 0 ''u1'' ''USER'' ''access'' (minutes 30)) ''change_me_access'' = ''access:u1:USER:change_me_access''"
    by (simp add: sample_claims_def)
  have dec: "sample_decode ''access:u1:USER:change_me_access'' ''change_me_access'' now =
      (if 1800 < now then ExpiredSignatureError else Payload (token_claims 0 ''u1'' ''USER'' ''access'' (minutes 30)))" for now
  proof -
    have "List.find (\<lambda>c. sample_encode c ''change_me_access'' = ''access:u1:USER:change_me_access'')
             (map (\<lambda>(sub, role, ty). sample_claims sub role ty)
                (List.product [''u1'', ''u2'', ''u3''] (List.product [''USER'', ''SELLER'', ''ADMIN''] [''access'', ''refresh'']))) =
          Some (sample_claims ''u1'' ''USER'' ''access'')"
      by code_simp
    then show ?thesis
      by (simp add: sample_decode_def sample_claims_def token_claims_def epoch_seconds_def minutes_def)
  qed
  have strip: "py_strip ''access:u1:USER:change_me_access'' = ''access:u1:USER:change_me_access''" by code_simp
  show ?thesis
    by (simp add: jwt_roundtrip_def sample_jose_def enc dec strip) (simp add: token_claims_def epoch_seconds_def minutes_def)
qed

theorem register_login_roundtrip_witness:
  "\<exists>tok u s. get_current_user sample_jose default_settings 1000000 (Some tok) (SessionLocal
      (snd (serve sample_deployment (sample_tick 1 ''u1'' ''x'') None (sample_account ''ann@shop.org'' ''USER'') empty_db))) = (Inr u, s) \<and>
    u_email u = ''ann@shop.org''"
proof -
  let ?p = "\<lparr>rr_email = ''ann@shop.org'', rr_password = ''secret'', rr_role = Some (Member ''USER'')\<rparr>"
  let ?resp = "\<lparr>rs_id = ''u1'', rs_email = ''ann@shop.org'', rs_role = ''USER'', rs_created_at = 1\<rparr>"
  let ?r = "serve sample_deployment (sample_tick 1 ''u1'' ''x'') None (Public (Register ?p)) empty_db"
  have "fst ?r = Inr (Registered ?resp)" by code_simp
  then have r: "?r = (Inr (Registered ?resp), snd ?r)" by (metis prod.collapse)
  have login: "dp_validate sample_deployment (Public (Login \<lparr>lr_email = rr_email ?p, lr_password = rr_password ?p\<rparr>)) = []"
    by code_simp
  have jwt: "jwt_roundtrip (dp_jose sample_deployment)
      (token_claims (tk_auth_now (sample_tick 0 ''x'' ''x'')) (rs_id ?resp) (rs_role ?resp) ''access''
        (minutes (access_token_expires_minutes (dp_settings sample_deployment))))
      (jwt_secret_key (dp_settings sample_deployment))"
    using sample_jwt by (simp add: sample_deployment_def sample_tick_def default_settings_def)
  have unexpired: "epoch_seconds 1000000 \<le> epoch_seconds (tk_auth_now (sample_tick 0 ''x'' ''x'') +
      minutes (access_token_expires_minutes (dp_settings sample_deployment)))"
    by (simp add: sample_deployment_def sample_tick_def default_settings_def epoch_seconds_def minutes_def)
  have verify: "case dp_hash sample_deployment (rr_password ?p) of None \<Rightarrow> True
      | Some h \<Rightarrow> dp_verify sample_deployment (rr_password ?p) h"
    by (simp add: sample_deployment_def)
  from register_login_roundtrip [OF db_fits_empty r login verify jwt unexpired, of None]
  obtain tok :: token_response and u s where "get_current_user (dp_jose sample_deployment) (dp_settings sample_deployment) 1000000
      (Some (tr_access_token tok)) (SessionLocal (snd ?r)) = (Inr u, s)" "u_email u = rr_email ?p"
    by blast
  moreover have "dp_jose sample_deployment = sample_jose" "dp_settings sample_deployment = default_settings"
    by (simp_all add: sample_deployment_def)
  ultimately show ?thesis unfolding sample_account_def by auto
qed

section \<open>Tokens\<close>

text \<open>
  C21: A token is only good for what it was made for: a refresh token does not identify a user, and an
  access token cannot be exchanged for another one, whatever keys the two kinds are signed with.
\<close>

theorem token_kinds_apart:
  assumes "jwt_integrity J (token_claims t0 uid role ''refresh'' (days (refresh_token_expires_days cfg))) (jwt_refresh_secret_key cfg)"
    and "jwt_integrity J (token_claims t0 uid role ''access'' (minutes (access_token_expires_minutes cfg))) (jwt_secret_key cfg)"
    and "py_strip (create_refresh_token J cfg t0 uid role) = create_refresh_token J cfg t0 uid role"
  shows "isl (fst (get_current_user J cfg now (Some (create_refresh_token J cfg t0 uid role)) s)) \<and>
    isl (fst (refresh_token J cfg now (create_access_token J cfg t0 uid role) s'))"
proof
  have "token_secret cfg ''refresh'' = jwt_refresh_secret_key cfg" by (simp add: token_secret_def)
  with assms(1) obtain e where "verify_token J cfg now (create_refresh_token J cfg t0 uid role) ''access'' = Inl e"
    using verify_token_wrong_type [of J t0 uid role "''refresh''" "days (refresh_token_expires_days cfg)" cfg "''access''" now]
    by (auto simp: create_refresh_token_def)
  with assms(3) show "isl (fst (get_current_user J cfg now (Some (create_refresh_token J cfg t0 uid role)) s))"
    by (simp add: get_current_user_def)
  have "token_secret cfg ''access'' = jwt_secret_key cfg" by (simp add: token_secret_def)
  with assms(2) obtain e' where "verify_token J cfg now (create_access_token J cfg t0 uid role) ''refresh'' = Inl e'"
    using verify_token_wrong_type [of J t0 uid role "''access''" "minutes (access_token_expires_minutes cfg)" cfg "''refresh''" now]
    by (auto simp: create_access_token_def)
  then show "isl (fst (refresh_token J cfg now (create_access_token J cfg t0 uid role) s'))"
    by (simp add: refresh_token_def)
qed

text \<open>A library whose tokens are the claims themselves, under any key.\<close>

definition open_jose :: jose where
  "open_jose = \<lparr>jwt_encode = (\<lambda>c key. case cl_type c of Some ty \<Rightarrow> ty | None \<Rightarrow> ''none''),
     jwt_decode = (\<lambda>tok key now.
       if tok = ''access'' then Payload (token_claims 0 ''u1'' ''USER'' ''access'' (minutes 30))
       else if tok = ''refresh'' then Payload (token_claims 0 ''u1'' ''USER'' ''refresh'' (days 14)) else JWTError)\<rparr>"

theorem token_kinds_apart_witness:
  "isl (fst (get_current_user open_jose default_settings 5 (Some ''refresh'') (SessionLocal sample_shop))) \<and>
   isl (fst (refresh_token open_jose default_settings 5 ''access'' (SessionLocal sample_shop)))"
proof -
  have enc: "create_refresh_token open_jose default_settings 0 ''u1'' ''USER'' = ''refresh''"
      "create_access_token open_jose default_settings 0 ''u1'' ''USER'' = ''access''"
    by (simp_all add: create_refresh_token_def create_access_token_def create_token_def open_jose_def token_claims_def)
  have "jwt_integrity open_jose (token_claims 0 ''u1'' ''USER'' ''refresh'' (days (refresh_token_expires_days default_settings)))
      (jwt_refresh_secret_key default_settings)"
    "jwt_integrity open_jose (token_claims 0 ''u1'' ''USER'' ''access'' (minutes (access_token_expires_minutes default_settings)))
      (jwt_secret_key default_settings)"
    by (simp_all add: jwt_integrity_def open_jose_def token_claims_def default_settings_def)
  from token_kinds_apart [OF this] show ?thesis by (simp add: enc) (simp add: py_strip_def py_isspace_def)
qed

text \<open>
  An access token identifies its user exactly until the second in which it expires; after that it
  is refused with 401 TOKEN_EXPIRED.
\<close>

theorem access_token_lifetime:
  assumes "jwt_roundtrip J (token_claims t0 uid role ''access'' (minutes (access_token_expires_minutes cfg))) (jwt_secret_key cfg)"
    and "db_fits d" and "find_by u_id uid (users d) = Some u"
  shows "fst (get_current_user J cfg now (Some (create_access_token J cfg t0 uid role)) (SessionLocal d)) =
    (if epoch_seconds now \<le> epoch_seconds (t0 + minutes (access_token_expires_minutes cfg)) then Inr u
     else Inl (ApiError ''TOKEN_EXPIRED'' 401 ''Token expired'' None))"
proof (cases "epoch_seconds now \<le> epoch_seconds (t0 + minutes (access_token_expires_minutes cfg))")
  case True
  with get_current_user_created [OF assms(1) True assms(3) db_fits_distinct(1) [OF assms(2)]] show ?thesis
    by (simp add: create_access_token_def)
next
  case False
  let ?tok = "create_access_token J cfg t0 uid role"
  have tok: "?tok = jwt_encode J (token_claims t0 uid role ''access'' (minutes (access_token_expires_minutes cfg))) (jwt_secret_key cfg)"
    by (simp add: create_access_token_def create_token_def token_secret_def)
  have token: "?tok \<noteq> ''''" "py_strip ?tok = ?tok"
    using assms(1) unfolding jwt_roundtrip_def tok by blast+
  have "verify_token J cfg now ?tok ''access'' = Inl (ApiError ''TOKEN_EXPIRED'' 401 ''Token expired'' None)"
    using verify_created_token [of J t0 uid role "''access''" "minutes (access_token_expires_minutes cfg)" cfg now] assms(1) False
    by (simp add: token_secret_def create_access_token_def)
  with token False show ?thesis by (simp add: get_current_user_def)
qed

theorem access_token_lifetime_witness:
  "fst (get_current_user sample_jose default_settings (minutes 31) (Some (create_access_token sample_jose default_settings 0 ''u1'' ''USER''))
      (SessionLocal sample_shop)) = Inl (ApiError ''TOKEN_EXPIRED'' 401 ''Token expired'' None)"
proof -
  have "find_by u_id ''u1'' (users sample_shop) = Some sample_buyer"
    by (simp add: sample_shop_eq sample_buyer_def)
  from access_token_lifetime [OF _ sample_fits(1) this, of sample_jose 0 "''USER''" default_settings "minutes 31"]
  show ?thesis using sample_jwt by (simp add: default_settings_def minutes_def epoch_seconds_def)
qed

section \<open>The transaction frame\<close>

text \<open>
  Whether the session already had a transaction (a savepoint is used, then an outer commit) or not
  (the block commits), the frame of the order handlers returns the same and stores the same: all of the
  body's work, or nothing.
\<close>

theorem transaction_branches_agree:
  assumes "clean s" and "db_fits (durable s)"
    and "with_transaction now (s\<lparr>in_transaction := True\<rparr>) body = (r, s1)"
    and "with_transaction now (s\<lparr>in_transaction := False\<rparr>) body = (r', s2)"
  shows "r = r' \<and> durable s1 = durable s2 \<and>
    (case body (durable s) of
       Inl e \<Rightarrow> r = Inl e \<and> durable s1 = durable s
     | Inr (x, w) \<Rightarrow>
         if db_fits (touch now (durable s) w) then r = Inr x \<and> durable s1 = touch now (durable s) w
         else r = Inl DBAPIError \<and> durable s1 = durable s)"
proof -
  have "clean (s\<lparr>in_transaction := b\<rparr>)" "db_fits (durable (s\<lparr>in_transaction := b\<rparr>))" for b
    using assms(1,2) by (simp_all add: clean_def)
  from with_transaction_eq [OF this assms(3)] with_transaction_eq [OF this assms(4)] show ?thesis
    by (auto split: sum.splits prod.splits if_splits)
qed

theorem transaction_branches_agree_witness:
  "(let body = (\<lambda>d. Inr (''o1'', d\<lparr>users := []\<rparr>) :: exn + uuid \<times> db);
        s = SessionLocal sample_state
    in fst (with_transaction 7 (s\<lparr>in_transaction := True\<rparr>) body) = fst (with_transaction 7 (s\<lparr>in_transaction := False\<rparr>) body) \<and>
       durable (snd (with_transaction 7 (s\<lparr>in_transaction := True\<rparr>) body)) = sample_state)"
proof -
  let ?body = "\<lambda>d. Inr (''o1'', d\<lparr>users := []\<rparr>) :: exn + uuid \<times> db"
  let ?s = "SessionLocal sample_state"
  have fits: "db_fits (durable ?s)" using sample_fits(2) by (simp add: SessionLocal_def)
  have "\<not> db_fits (touch 7 (durable ?s) ((durable ?s)\<lparr>users := []\<rparr>))"
    by (simp add: SessionLocal_def sample_state_eq db_fits_def products_fit_def)
  with transaction_branches_agree [OF clean_SessionLocal fits, of 7 ?body, OF prod.collapse [symmetric] prod.collapse [symmetric]]
  show ?thesis by (auto simp: Let_def SessionLocal_def)
qed

end
