(* ===== verification/Catalog_Properties.thy ===== *)
theory Catalog_Properties
  imports Account_Properties
begin

text \<open>
  Products and promo codes: the discount, the checks of a promo code, what an update of a product
  writes, archived products, the choice of the seller, and the pages of the product list.
\<close>

section \<open>Discounts\<close>

text \<open>
  Below the minimum of the code there is no discount. A percentage is taken of the amount but never
  more than seventy percent of it, a fixed amount never exceeds the amount; so a discount is never
  negative and never more than the amount.
\<close>

theorem discount_capped:
  assumes "0 \<le> amt" and "0 \<le> pc_discount_value promo"
  shows "calculate_discount promo amt =
      (if amt < pc_min_order_amount promo
       then Inl (ApiError ''PROMO_CODE_MIN_AMOUNT'' 422 ''Order amount below promo minimum'' None)
       else Inr (case pc_discount_type promo of
                   PERCENTAGE \<Rightarrow> min (amt * pc_discount_value promo / 100) (amt * (7 / 10))
                 | FIXED_AMOUNT \<Rightarrow> min (pc_discount_value promo) amt)) \<and>
    (calculate_discount promo amt = Inr discount \<longrightarrow>
       0 \<le> discount \<and> discount \<le> amt \<and> (pc_discount_type promo = PERCENTAGE \<longrightarrow> discount \<le> amt * (7 / 10)))"
  using discount_bounds [of promo amt discount] assms calculate_discount_min [of promo amt] by blast

theorem discount_capped_witness:
  "calculate_discount (hd (promo_codes sample_shop)\<lparr>pc_discount_value := 200\<rparr>) 100 = Inr 70"
  using discount_capped [of 100 "hd (promo_codes sample_shop)\<lparr>pc_discount_value := 200\<rparr>"]
  by (simp add: sample_shop_eq)

text \<open>
  A new order may use a promo code exactly when the code is active, not exhausted and in its period
  of validity; an order that already has the code keeps it even when it is exhausted meanwhile.
\<close>

theorem promo_check_exact:
  "(validate_promo_basic now allow promo = Inr () \<longleftrightarrow>
     pc_active promo \<and> (allow \<or> pc_current_uses promo < pc_max_uses promo) \<and>
     pc_valid_from promo \<le> now \<and> now \<le> pc_valid_until promo) \<and>
   validate_promo_basic now allow promo \<in>
     {Inr (), Inl (ApiError ''PROMO_CODE_INVALID'' 422 ''Promo code invalid'' None)}"
  by (auto simp: validate_promo_basic_Inr) (auto simp: validate_promo_basic_def Let_def split: if_splits)

section \<open>Updating and deleting products\<close>

lemma product_found:
  assumes "clean s" and "db_fits (durable s)" and "find_by p_id pid (products (durable s)) = Some p"
  shows "one_or_none (filter (\<lambda>p. p_id p = pid) (products (work (autobegin s)))) = Inr (Some p)"
  using assms db_fits_distinct(3) [OF assms(2)] by (simp add: clean_def query_simps)

text \<open>
  An update of a product writes exactly the fields that the request sets, prices rounded as the
  column does, and nothing else but the stamp; the seller and the other products stay.
\<close>

theorem update_product_exact:
  assumes "clean s" and "db_fits (durable s)"
    and "update_product numeric now pid upd u s = (Inr resp, s')"
  shows "\<exists>p p'. p \<in> set (products (durable s)) \<and> p_id p = pid \<and>
    find_by p_id pid (products (durable s')) = Some p' \<and> resp = to_product_response p' \<and>
    p_name p' = (case up_name upd of Some (Some v) \<Rightarrow> v | _ \<Rightarrow> p_name p) \<and>
    p_description p' = (case up_description upd of Some v \<Rightarrow> v | None \<Rightarrow> p_description p) \<and>
    p_price p' = (case up_price upd of Some (Some v) \<Rightarrow> numeric v | _ \<Rightarrow> p_price p) \<and>
    p_stock p' = (case up_stock upd of Some (Some v) \<Rightarrow> v | _ \<Rightarrow> p_stock p) \<and>
    p_category p' = (case up_category upd of Some (Some v) \<Rightarrow> v | _ \<Rightarrow> p_category p) \<and>
    (up_status upd = None \<longrightarrow> p_status p' = p_status p) \<and>
    p_seller_id p' = p_seller_id p \<and> p_created_at p' = p_created_at p \<and>
    (\<forall>q\<in>set (products (durable s)). p_id q \<noteq> pid \<longrightarrow> q \<in> set (products (durable s'))) \<and>
    orders (durable s') = orders (durable s) \<and> users (durable s') = users (durable s)"
  using assms(1,3)
proof (rule update_product_Inr)
  fix p status p'
  assume p: "p \<in> set (products (durable s))" "p_id p = pid" and st: "updated_status upd = Inr status"
    and up: "updated_product numeric upd status p = Some p'"
    and d: "durable s' = touch now (durable s) (put_product p' (durable s))"
    and resp: "resp = to_product_response (touch_product now (products (durable s)) p')"
  let ?p' = "touch_product now (products (durable s)) p'"
  have key: "p_id p' = p_id p" "p_seller_id p' = p_seller_id p" "p_created_at p' = p_created_at p"
    using updated_product_key [OF up] by simp_all
  have fields: "p_name p' = (case up_name upd of Some (Some v) \<Rightarrow> v | _ \<Rightarrow> p_name p)"
    "p_description p' = (case up_description upd of Some v \<Rightarrow> v | None \<Rightarrow> p_description p)"
    "p_price p' = (case up_price upd of Some (Some v) \<Rightarrow> numeric v | _ \<Rightarrow> p_price p)"
    "p_stock p' = (case up_stock upd of Some (Some v) \<Rightarrow> v | _ \<Rightarrow> p_stock p)"
    "p_category p' = (case up_category upd of Some (Some v) \<Rightarrow> v | _ \<Rightarrow> p_category p)"
    using up by (auto simp: updated_product_def set_column_def split: option.splits)
  have status: "p_status p' = p_status p" if "up_status upd = None"
    using up st that by (auto simp: updated_product_def updated_status_def set_column_def split: option.splits)
  have others: "q \<in> set (products (durable s'))" if "q \<in> set (products (durable s))" "p_id q \<noteq> pid" for q
  proof -
    have "q \<in> set (replace_by p_id p' (products (durable s)))" using that key(1) p(2) by (simp add: replaced_others)
    moreover have "touch_product now (products (durable s)) q = q" using that(1) by simp
    ultimately show ?thesis by (simp add: d put_product_def) (metis image_eqI)
  qed
  show ?thesis
    by (intro exI [of _ p] exI [of _ ?p'])
      (use p key fields status others resp replaced_lookup [OF p(1) key(1)] in \<open>simp add: d put_product_def map_idI\<close>)
qed

definition no_update :: product_update where
  "no_update = \<lparr>up_name = None, up_description = None, up_price = None, up_stock = None, up_category = None, up_status = None\<rparr>"

theorem update_product_exact_witness:
  "\<exists>p'. find_by p_id ''p1'' (products (durable (snd (update_product sample_numeric 9 ''p1'' (no_update\<lparr>up_stock := Some (Some 8)\<rparr>)
      (sample_buyer\<lparr>u_id := ''u2'', u_role := SELLER\<rparr>) (SessionLocal sample_shop))))) = Some p' \<and>
    p_stock p' = 8 \<and> p_name p' = ''Lamp''"
proof -
  let ?r = "update_product sample_numeric 9 ''p1'' (no_update\<lparr>up_stock := Some (Some 8)\<rparr>)
      (sample_buyer\<lparr>u_id := ''u2'', u_role := SELLER\<rparr>) (SessionLocal sample_shop)"
  have "\<not> isl (fst ?r)" unfolding sample_shop_eq by code_simp
  then obtain resp where r: "?r = (Inr resp, snd ?r)" by (metis isl_def old.sum.exhaust prod.collapse)
  have fits: "db_fits (durable (SessionLocal sample_shop))" using sample_fits(1) by (simp add: SessionLocal_def)
  from update_product_exact [OF clean_SessionLocal fits r] obtain p p' where
      "p \<in> set (products sample_shop)" "find_by p_id ''p1'' (products (durable (snd ?r))) = Some p'"
      "p_stock p' = 8" "p_name p' = p_name p"
    by (auto simp: SessionLocal_def no_update_def)
  then show ?thesis by (auto simp: sample_shop_eq)
qed

text \<open>
  A request that sets a column without nulls to null is let through by the interface description
  but makes the database refuse the row: the handler fails with a database error and stores nothing.
\<close>

theorem null_column_fails:
  assumes "clean s" and "db_fits (durable s)" and "find_by p_id pid (products (durable s)) = Some p"
    and "require_product_owner p u = Inr ()"
    and "up_name upd = Some None \<or> up_price upd = Some None \<or> up_stock upd = Some None \<or> up_category upd = Some None"
    and "up_status upd = None"
  shows "fst (update_product numeric now pid upd u s) = Inl DBAPIError \<and>
    durable (snd (update_product numeric now pid upd u s)) = durable s"
proof -
  have st: "updated_status upd = Inr None" using assms(6) by (simp add: updated_status_def)
  have up: "updated_product numeric upd None p = None"
    using assms(5) by (auto simp: updated_product_def set_column_def split: option.splits)
  have one: "one_or_none (filter (\<lambda>p. p_id p = pid) (products (work (autobegin s)))) = Inr (Some p)"
    by (rule product_found [OF assms(1-3)])
  show ?thesis
    using assms(4) st up one by (simp add: update_product_def Let_def rollback_def del: autobegin_frame) simp
qed

theorem null_column_fails_witness:
  "schema_ok (AsUser (UpdateProduct ''p1'' (no_update\<lparr>up_name := Some None\<rparr>))) \<and>
   fst (update_product sample_numeric 9 ''p1'' (no_update\<lparr>up_name := Some None\<rparr>) (sample_buyer\<lparr>u_role := ADMIN\<rparr>) (SessionLocal sample_shop)) =
     Inl DBAPIError"
proof
  show "schema_ok (AsUser (UpdateProduct ''p1'' (no_update\<lparr>up_name := Some None\<rparr>)))"
    by (simp add: no_update_def given_def)
  have fits: "db_fits (durable (SessionLocal sample_shop))" using sample_fits(1) by (simp add: SessionLocal_def)
  have found: "find_by p_id ''p1'' (products (durable (SessionLocal sample_shop))) = Some (hd (products sample_shop))"
    by (simp add: SessionLocal_def sample_shop_eq)
  from null_column_fails [OF clean_SessionLocal fits found, of "sample_buyer\<lparr>u_role := ADMIN\<rparr>" "no_update\<lparr>up_name := Some None\<rparr>" sample_numeric 9]
  show "fst (update_product sample_numeric 9 ''p1'' (no_update\<lparr>up_name := Some None\<rparr>) (sample_buyer\<lparr>u_role := ADMIN\<rparr>) (SessionLocal sample_shop)) =
     Inl DBAPIError"
    by (simp add: require_product_owner_def no_update_def)
qed

lemma check_products_first_inactive:
  assumes "\<forall>k\<in>set ids1. \<exists>p. m k = Some p \<and> p_status p = ACTIVE" and "m pid = Some q" and "p_status q \<noteq> ACTIVE"
  shows "check_products m (ids1 @ pid # ids2) = Inl (ApiError ''PRODUCT_INACTIVE'' 409 ''Product inactive'' None)"
  using assms(1) by (induction ids1) (auto simp: assms(2,3))

text \<open>
  A deleted product is archived, not removed, and while it is archived no order can take it: an
  order that names it, and whose earlier products are fine, fails with 409 PRODUCT_INACTIVE.
\<close>

theorem archived_product_not_sold:
  assumes "clean s" and "db_fits (durable s)" and "delete_product now pid u s = (Inr x, s')"
    and "check_rate_limit cfg (rate_now clk) (durable s') (u_id buyer) CREATE_ORDER = Inr ()"
    and "active_orders (durable s') (u_id buyer) = []" and "ocr_items p = \<lparr>oc_product_id = pid, oc_quantity = n\<rparr> # rest"
  shows "(\<exists>q\<in>set (products (durable s')). p_id q = pid \<and> p_status q = ARCHIVED) \<and>
    create_order_body cfg numeric clk ids p buyer (durable s') =
      Inl (ApiError ''PRODUCT_INACTIVE'' 409 ''Product inactive'' None)"
proof -
  from delete_product_cases [OF assms(3,1)] obtain q where q: "q \<in> set (products (durable s))" "p_id q = pid"
    and d: "durable s' = touch now (durable s) (put_product (q\<lparr>p_status := ARCHIVED\<rparr>) (durable s))"
    by blast
  let ?q = "touch_product now (products (durable s)) (q\<lparr>p_status := ARCHIVED\<rparr>)"
  have found: "find_by p_id pid (products (durable s')) = Some ?q"
    using replaced_lookup [OF q(1), of "q\<lparr>p_status := ARCHIVED\<rparr>"] q(2) by (simp add: d put_product_def)
  let ?req = "requested_quantities (ocr_items p)"
  have first: "\<exists>tail. map fst (fold (\<lambda>item. dict_bump (oc_product_id item) (oc_quantity item)) items acc) = pid # tail"
    if "map fst acc = pid # tl" for items acc tl
    using that
  proof (induction items arbitrary: acc tl)
    case (Cons item items)
    have "\<exists>tl'. map fst (dict_bump (oc_product_id item) (oc_quantity item) acc) = pid # tl'"
      using Cons.prems by (cases acc) (auto simp: dict_bump_def)
    with Cons.IH show ?case by auto
  qed simp
  have "map fst (dict_bump pid n []) = pid # []" by (simp add: dict_bump_def)
  from first [OF this, of rest] obtain ks where keys: "map fst ?req = pid # ks"
    unfolding requested_quantities_def assms(6) by auto
  have "check_products (fetch_product_map (products (durable s')) (map fst ?req)) ([] @ pid # ks) =
      Inl (ApiError ''PRODUCT_INACTIVE'' 409 ''Product inactive'' None)"
    by (rule check_products_first_inactive [of _ _ _ ?q]) (simp_all add: keys found del: product_in_row)
  then have "create_order_body cfg numeric clk ids p buyer (durable s') =
      Inl (ApiError ''PRODUCT_INACTIVE'' 409 ''Product inactive'' None)"
    using assms(4,5) by (simp add: create_order_body_def check_stock_def keys query_simps)
  with found show ?thesis by (auto dest: find_by_SomeD)
qed

theorem archived_product_not_sold_witness:
  "let s' = snd (delete_product 9 ''p1'' (sample_buyer\<lparr>u_role := ADMIN\<rparr>) (SessionLocal sample_shop)) in
   create_order_body default_settings sample_numeric (sample_clock 10) (tk_new_ids (sample_tick 10 ''x'' ''o1'')) sample_basket
     sample_buyer (durable s') = Inl (ApiError ''PRODUCT_INACTIVE'' 409 ''Product inactive'' None)"
proof -
  let ?r = "delete_product 9 ''p1'' (sample_buyer\<lparr>u_role := ADMIN\<rparr>) (SessionLocal sample_shop)"
  have "\<not> isl (fst ?r) \<and> user_operations (durable (snd ?r)) = [] \<and> orders (durable (snd ?r)) = []"
    unfolding sample_shop_eq by code_simp
  then obtain x where r: "?r = (Inr x, snd ?r)" and none: "user_operations (durable (snd ?r)) = []" "orders (durable (snd ?r)) = []"
    by (metis isl_def old.sum.exhaust prod.collapse)
  have fits: "db_fits (durable (SessionLocal sample_shop))" using sample_fits(1) by (simp add: SessionLocal_def)
  have rate: "check_rate_limit default_settings (rate_now (sample_clock 10)) (durable (snd ?r)) (u_id sample_buyer) CREATE_ORDER = Inr ()"
    by (simp add: check_rate_limit_exact none)
  have active: "active_orders (durable (snd ?r)) (u_id sample_buyer) = []" by (simp add: active_orders_def none)
  from archived_product_not_sold [OF clean_SessionLocal fits r rate active, of sample_basket 1 "[]"] show ?thesis
    by (simp add: Let_def sample_basket_def)
qed

section \<open>Sellers\<close>

text \<open>
  A product that a seller creates is the seller's own; naming another seller is refused with 403.
  An administrator's product is the administrator's, or that of the stored seller who is named; naming
  anyone else is refused with 400.
\<close>

theorem seller_of_new_product:
  assumes "db_fits d"
  shows "choose_seller payload u d =
    (case (u_role u, cr_seller_id payload) of
       (SELLER, Some sid) \<Rightarrow>
         if sid = u_id u then Inr (u_id u) else Inl (ApiError ''ACCESS_DENIED'' 403 ''Access denied'' None)
     | (ADMIN, Some sid) \<Rightarrow>
         if \<exists>v\<in>set (users d). u_id v = sid \<and> u_role v = SELLER then Inr sid
         else Inl (ApiError ''VALIDATION_ERROR'' 400 ''Invalid seller_id''
            (Some (JDict [(''fields'', JList [JDict [(''field'', JStr ''seller_id''),
               (''message'', JStr ''Seller not found or has invalid role'')]])])))
     | _ \<Rightarrow> Inr (u_id u))"
proof (cases "u_role u = ADMIN \<and> cr_seller_id payload \<noteq> None")
  case True
  then obtain sid where sid: "u_role u = ADMIN" "cr_seller_id payload = Some sid" by auto
  note dist = db_fits_distinct(1) [OF assms]
  show ?thesis
  proof (cases "find_by u_id sid (users d)")
    case None
    then have "\<not> (\<exists>v\<in>set (users d). u_id v = sid \<and> u_role v = SELLER)" by (auto simp: find_by_None_iff)
    with None sid one_or_none_key [OF dist, of sid] show ?thesis by (simp add: choose_seller_def Let_def)
  next
    case (Some v)
    then have v: "v \<in> set (users d)" "u_id v = sid" by (auto dest: find_by_SomeD)
    have "(\<exists>v\<in>set (users d). u_id v = sid \<and> u_role v = SELLER) \<longleftrightarrow> u_role v = SELLER"
      using v Some distinct_find_by [OF dist] by (metis option.inject)
    with Some v sid one_or_none_key [OF dist, of sid] show ?thesis by (simp add: choose_seller_def Let_def)
  qed
next
  case False
  then show ?thesis
    by (cases "u_role u"; cases "cr_seller_id payload") (auto simp: choose_seller_def Let_def)
qed

theorem seller_of_new_product_witness:
  "choose_seller \<lparr>cr_seller_id = Some ''u2'', cr_name = ''Lamp'', cr_description = None, cr_price = 1, cr_stock = 0,
      cr_category = ''home'', cr_status = Member ''ACTIVE''\<rparr> (sample_buyer\<lparr>u_role := ADMIN\<rparr>) sample_shop = Inr ''u2''"
  unfolding seller_of_new_product [OF sample_fits(1)] by (simp add: sample_buyer_def sample_shop_eq)

section \<open>The product list\<close>

text \<open>
  The pages of the product list, as long as the database scans its rows in the same order for each,
  are consecutive slices of that scan: glued together they are its first k times size rows, without
  gaps or repetitions, and each page reports the number of all matching products.
\<close>

theorem pages_partition_the_list:
  assumes "\<And>page. page < k \<Longrightarrow> fst (list_products scan page n status category s) = Inr (pages page)"
  shows "concat (map (\<lambda>page. pl_items (pages page)) [0..<k]) =
      map to_product_response (take (k * n) (scan (filter (product_filter status category) (products (work s))))) \<and>
    (\<forall>page<k. pl_total_elements (pages page) = length (filter (product_filter status category) (products (work s))))"
proof -
  let ?rows = "scan (filter (product_filter status category) (products (work s)))"
  have page: "pages page = \<lparr>pl_items = map to_product_response (offset_limit (page * n) n ?rows),
      pl_total_elements = length (filter (product_filter status category) (products (work s))),
      pl_page = page, pl_size = n\<rparr>" if "page < k" for page
    using assms [OF that] by (simp add: list_products_def Let_def split: if_splits)
  have "concat (map (\<lambda>page. pl_items (pages page)) [0..<k]) =
      concat (map (\<lambda>page. map to_product_response (offset_limit (page * n) n ?rows)) [0..<k])"
    by (rule arg_cong [of _ _ concat], rule map_cong) (simp_all add: page)
  also have "\<dots> = map to_product_response (concat (map (\<lambda>page. offset_limit (page * n) n ?rows) [0..<k]))"
    by (simp add: map_concat comp_def)
  finally show ?thesis by (simp add: offset_limit_pages page)
qed

theorem pages_partition_the_list_witness:
  "concat (map (\<lambda>page. pl_items (projr (fst (list_products (\<lambda>rows. rows) page 1 None None (SessionLocal sample_shop))))) [0..<2]) =
     map to_product_response (products sample_shop)"
proof -
  have "fst (list_products (\<lambda>rows. rows) page 1 None None (SessionLocal sample_shop)) =
      Inr (projr (fst (list_products (\<lambda>rows. rows) page 1 None None (SessionLocal sample_shop))))" if "page < 2" for page
    using that by (simp add: list_products_def fits_bigint_def Let_def)
  from pages_partition_the_list [OF this, of 2, THEN conjunct1] show ?thesis
    by (simp only:) (simp add: SessionLocal_def sample_shop_eq product_filter_def)
qed

end
