(* ===== verification/Failures.thy ===== *)
theory Failures
  imports Catalog_Properties
begin

text \<open>
  How requests fail. Every exception that leaves an endpoint is an \<open>ApiError\<close> with a documented code
  and the status that belongs to it, a refused payload, or a row that the database refuses; the other
  exceptions of the model (a missing dictionary key, several rows for a key, a row that is gone on
  refresh, a value outside an enumeration) never come out of a database whose constraints hold.
\<close>

section \<open>Interface: an operation that fails as documented\<close>

fun status_of_code :: "string \<Rightarrow> int" where
  "status_of_code code =
     (if code \<in> {''TOKEN_EXPIRED'', ''TOKEN_INVALID'', ''REFRESH_TOKEN_INVALID''} then 401
      else if code \<in> {''ACCESS_DENIED'', ''ORDER_OWNERSHIP_VIOLATION''} then 403
      else if code \<in> {''PRODUCT_NOT_FOUND'', ''ORDER_NOT_FOUND''} then 404
      else if code \<in> {''PROMO_CODE_INVALID'', ''PROMO_CODE_MIN_AMOUNT''} then 422
      else if code = ''ORDER_LIMIT_EXCEEDED'' then 429
      else if code = ''VALIDATION_ERROR'' then 400 else 409)"

fun expected_failure :: "exn \<Rightarrow> bool" where
  "expected_failure (ApiError code status msg details) =
     (code \<in> set documented_error_codes \<and> status = status_of_code code)"
| "expected_failure DBAPIError = True"
| "expected_failure (RequestValidationError errs) = True"
| "expected_failure e = False"

declare status_of_code.simps [simp del]

lemma documented_ApiError [simp]:
  "expected_failure (ApiError ''PRODUCT_NOT_FOUND'' 404 m x)" "expected_failure (ApiError ''ORDER_NOT_FOUND'' 404 m x)"
  "expected_failure (ApiError ''PRODUCT_INACTIVE'' 409 m x)" "expected_failure (ApiError ''ORDER_LIMIT_EXCEEDED'' 429 m x)"
  "expected_failure (ApiError ''ORDER_HAS_ACTIVE'' 409 m x)" "expected_failure (ApiError ''INVALID_STATE_TRANSITION'' 409 m x)"
  "expected_failure (ApiError ''INSUFFICIENT_STOCK'' 409 m x)" "expected_failure (ApiError ''PROMO_CODE_INVALID'' 422 m x)"
  "expected_failure (ApiError ''PROMO_CODE_MIN_AMOUNT'' 422 m x)" "expected_failure (ApiError ''ORDER_OWNERSHIP_VIOLATION'' 403 m x)"
  "expected_failure (ApiError ''VALIDATION_ERROR'' 400 m x)" "expected_failure (ApiError ''ACCESS_DENIED'' 403 m x)"
  "expected_failure (ApiError ''TOKEN_EXPIRED'' 401 m x)" "expected_failure (ApiError ''TOKEN_INVALID'' 401 m x)"
  "expected_failure (ApiError ''REFRESH_TOKEN_INVALID'' 401 m x)"
  by (simp_all add: documented_error_codes_def status_of_code.simps)

declare expected_failure.simps(1) [simp del]

locale documented_operation = db_operation +
  assumes fails_as_expected:
    "clean s \<Longrightarrow> db_fits (durable s) \<Longrightarrow> operation s = (Inl e, s') \<Longrightarrow> expected_failure e"
begin

lemma request_fails_as_expected:
  assumes "db_fits d" and "get_db operation d = (Inl e, d')"
  shows "expected_failure e"
proof -
  obtain s' where "operation (SessionLocal d) = (Inl e, s')"
    using assms(2) by (auto simp: get_db_def split: prod.splits)
  with fails_as_expected [of "SessionLocal d"] assms(1) show ?thesis by (simp add: SessionLocal_def clean_def)
qed

end

section \<open>Parts\<close>

lemma commit_refresh_error:
  assumes "commit_refresh now reload f s = (Inl e, s')" and "reload (touch now (flushed s) (work s)) \<noteq> None"
  shows "e = DBAPIError"
proof (cases "commit now s")
  case (Pair r s2)
  from commit_cases [OF Pair] assms show ?thesis
    by (auto simp: commit_refresh_def Pair refresh_def Let_def split: option.splits)
qed

lemma verify_token_error: "verify_token J cfg now tok ty = Inl e \<Longrightarrow> expected_failure e"
  by (auto simp: verify_token_def Let_def split: decoded.splits if_splits)

lemma one_or_none_sub:
  assumes "distinct (map u_id us)"
  shows "one_or_none (filter (\<lambda>u. Some (u_id u) = k) us) = Inr (case k of None \<Rightarrow> None | Some j \<Rightarrow> find_by u_id j us)"
proof (cases k)
  case None
  then show ?thesis by (simp add: one_or_none_def)
next
  case (Some j)
  with one_or_none_key [OF assms, of j] show ?thesis by simp
qed

lemma run_guard_error:
  assumes "clean s" and "db_fits (durable s)" and "run_guard D t cred g s = (Inl e, s')"
  shows "expected_failure e"
proof -
  have "work s = durable s" using assms(1) by (simp add: clean_def)
  then have one: "one_or_none (filter (\<lambda>u. Some (u_id u) = k) (users (work s))) =
      Inr (case k of None \<Rightarrow> None | Some j \<Rightarrow> find_by u_id j (users (work s)))" for k
    using one_or_none_sub [OF db_fits_distinct(1) [OF assms(2)]] by metis
  have cur: "expected_failure e1"
    if "get_current_user (dp_jose D) (dp_settings D) (tk_auth_now t) cred s = (Inl e1, s1)" for e1 s1
    using that
    by (auto simp: get_current_user_def Let_def one dest: verify_token_error split: option.splits if_splits sum.splits)
  from assms(3) show ?thesis
    by (cases g) (auto simp: run_guard_def require_roles_def and_then_def dest: cur split: sum.splits prod.splits if_splits)
qed

lemma check_rate_limit_error: "check_rate_limit cfg now d uid op = Inl e \<Longrightarrow> expected_failure e"
  by (auto simp: check_rate_limit_exact split: if_splits)

lemma check_products_error: "check_products m ids = Inl e \<Longrightarrow> expected_failure e"
  by (induction ids) (auto split: option.splits if_splits)

lemma check_stock_error:
  assumes "check_stock m req = Inl e"
  shows "expected_failure e"
proof (cases "check_products m (map fst req)")
  case (Inl e')
  with assms have "e' = e" by (simp add: check_stock_def)
  with check_products_error [OF Inl] show ?thesis by simp
next
  case (Inr x)
  then have "\<And>k. k \<in> fst ` set req \<Longrightarrow> m k \<noteq> None"
    using check_products_Inr [of m "map fst req"] by fastforce
  from insufficient_items_Inr [OF this] Inr assms show ?thesis
    by (auto simp: check_stock_def split: if_splits)
qed

lemma validate_promo_error: "validate_promo_basic now allow pc = Inl e \<Longrightarrow> expected_failure e"
  by (auto simp: validate_promo_basic_def Let_def split: if_splits)

lemma calculate_discount_error: "calculate_discount pc amt = Inl e \<Longrightarrow> expected_failure e"
  by (auto simp: calculate_discount_min split: if_splits)

lemma apply_promo_code_error:
  assumes "distinct (map pc_code (promo_codes d))" and "apply_promo_code now code amt od d = Inl e"
  shows "expected_failure e"
  using assms(2)
  by (auto simp: apply_promo_code_def one_or_none_key [OF assms(1)] dest: validate_promo_error calculate_discount_error
      split: option.splits sum.splits)

lemma reapply_promo_code_error:
  assumes "distinct (map pc_id (promo_codes d))" and "reapply_promo_code now amt od d = Inl e"
  shows "expected_failure e"
  using assms(2)
  by (auto simp: reapply_promo_code_def one_or_none_key [OF assms(1)] dest: validate_promo_error calculate_discount_error
      split: option.splits sum.splits if_splits)

section \<open>The bodies of the order handlers\<close>

lemma create_order_body_error:
  assumes "db_fits d" and "create_order_body cfg numeric clk ids p u d = Inl e"
  shows "expected_failure e"
proof (cases "check_stock (fetch_product_map (products d) (map fst (requested_quantities (ocr_items p)))) (requested_quantities (ocr_items p))")
  case (Inl e')
  with assms(2) show ?thesis
    by (auto simp: create_order_body_def Let_def dest: check_rate_limit_error check_stock_error split: sum.splits if_splits)
next
  case (Inr x)
  let ?req = "requested_quantities (ocr_items p)"
  let ?d1 = "d\<lparr>products := deduct_stock ?req (products d)\<rparr>"
  have "oc_product_id ` set (ocr_items p) \<subseteq> set (map fst ?req)" by simp
  from check_requested [OF _ this] Inr
  have "\<forall>item\<in>set (ocr_items p). find_by p_id (oc_product_id item) (products d) \<noteq> None" by fastforce
  then have "collect_items numeric (fetch_product_map (products ?d1) (map fst ?req)) (new_item_id ids) 0 (ocr_items p) 0 [] =
      Inr (gross_amount (product_in (products d)) (ocr_items p), made_items numeric (product_in (products d)) (new_item_id ids) 0 (ocr_items p))"
    by (intro collect_requested) (use deduct_stock_same in auto)
  moreover have codes: "distinct (map pc_code (promo_codes ?d1))" using db_fits_distinct(6) [OF assms(1)] by simp
  ultimately show ?thesis
    using assms(2) Inr
    by (auto simp: create_order_body_def Let_def dest: check_rate_limit_error apply_promo_code_error [OF codes]
        split: sum.splits if_splits prod.splits)
qed

lemma update_order_body_error:
  assumes "db_fits d" and "od \<in> set (orders d)" and "update_order_body cfg numeric clk ids items u od d = Inl e"
  shows "expected_failure e"
proof -
  let ?req = "requested_quantities items"
  let ?pids = "map fst ?req @ map oi_product_id (o_items od)"
  let ?rows = "restock (o_items od) (products d)"
  show ?thesis
  proof (cases "check_stock (fetch_product_map ?rows ?pids) ?req")
    case (Inl e')
    with assms(3) show ?thesis
      by (auto simp: update_order_body_def Let_def dest: check_rate_limit_error check_stock_error split: sum.splits)
  next
    case (Inr x)
    let ?d2 = "d\<lparr>products := deduct_stock ?req ?rows\<rparr>"
    have ids: "oc_product_id ` set items \<subseteq> set ?pids" by auto
    from check_requested [OF _ ids] Inr
    have found: "\<forall>item\<in>set items. find_by p_id (oc_product_id item) ?rows \<noteq> None" by fastforce
    have "p_id ` set ?rows = p_id ` set (products d)"
      using same_rows_keys [OF restock_same, of "o_items od" "products d"] by (metis list.set_map)
    with found have "\<forall>item\<in>set items. find_by p_id (oc_product_id item) (products d) \<noteq> None"
      by (simp add: find_by_None_iff)
    from collect_requested [OF _ ids this, of "products ?d2" numeric "new_item_id ids"]
    have "collect_items numeric (fetch_product_map (products ?d2) ?pids) (new_item_id ids) 0 items 0 [] =
        Inr (gross_amount (product_in (products d)) items, made_items numeric (product_in (products d)) (new_item_id ids) 0 items)"
      by (simp add: order_step_products(3))
    moreover have codes: "distinct (map pc_id (promo_codes ?d2))" using db_fits_distinct(5) [OF assms(1)] by simp
    ultimately show ?thesis
      using assms(3) Inr
      by (auto simp: update_order_body_def Let_def dest: check_rate_limit_error reapply_promo_code_error [OF codes]
          split: sum.splits prod.splits)
  qed
qed

lemma cancel_order_body_error:
  assumes "db_fits d" and "cancel_order_body od d = Inl e"
  shows "expected_failure e"
  using assms(2) one_or_none_key [OF db_fits_distinct(5) [OF assms(1)]]
  by (auto simp: cancel_order_body_def Let_def split: option.splits sum.splits if_splits)

section \<open>The handlers\<close>

lemma order_result_error:
  assumes "clean s" and "db_fits (durable s)" and "order_result (with_transaction now s body) = (Inl e, s')"
    and "\<And>oid w. body (durable s) = Inr (oid, w) \<Longrightarrow> oid \<in> o_id ` set (orders w)"
    and "\<And>e. body (durable s) = Inl e \<Longrightarrow> expected_failure e"
  shows "expected_failure e"
proof (cases "with_transaction now s body")
  case (Pair r s1)
  note eq = with_transaction_eq [OF assms(1,2) Pair]
  show ?thesis
  proof (cases r)
    case (Inl e')
    with Pair assms(3) have "e' = e" by (simp add: order_result_def)
    with eq Inl assms(5) show ?thesis by (auto split: sum.splits prod.splits if_splits)
  next
    case (Inr oid)
    with Pair have "with_transaction now s body = (Inr oid, s1)" by simp
    from with_transaction_Inr [OF assms(1,2) this] obtain w where
      w: "body (durable s) = Inr (oid, w)" "durable s1 = touch now (durable s) w" "work s1 = durable s1" .
    from assms(4) [OF w(1)] have "find_by o_id oid (orders (work s1)) \<noteq> None"
      by (auto simp: w find_by_None_iff image_iff)
    with assms(3) Pair Inr show ?thesis by (auto simp: order_result_def refresh_def Let_def split: option.splits)
  qed
qed

lemma with_order_error:
  assumes "clean s" and "db_fits (durable s)" and "with_order oid u allowed s f = (Inl e, s')"
    and "\<And>od. od \<in> set (orders (durable s)) \<Longrightarrow> f od (autobegin s) = (Inl e, s') \<Longrightarrow> expected_failure e"
  shows "expected_failure e"
proof (cases "find_by o_id oid (orders (durable s))")
  case None
  with assms(1,3) one_or_none_key [OF db_fits_distinct(4) [OF assms(2)]] show ?thesis
    by (auto simp: with_order_def clean_def)
next
  case (Some od)
  then have "od \<in> set (orders (durable s))" by (blast dest: find_by_SomeD)
  have run: "with_order oid u allowed s f =
      (if u_role u \<noteq> ADMIN \<and> o_user_id od \<noteq> u_id u
       then (Inl (ApiError ''ORDER_OWNERSHIP_VIOLATION'' 403 ''Order ownership violation'' None), autobegin s)
       else if o_status od \<notin> allowed
       then (Inl (ApiError ''INVALID_STATE_TRANSITION'' 409 ''Invalid state transition'' None), autobegin s)
       else f od (autobegin s))"
    by (simp add: with_order_found [OF assms(1,2) Some] require_order_owner_def)
  with assms(3,4) \<open>od \<in> set (orders (durable s))\<close> show ?thesis
    by (auto split: if_splits)
qed

interpretation create_order_doc: documented_operation "create_order cfg numeric clk ids p u" for cfg numeric clk ids p u
  by unfold_locales
    (auto simp: create_order_def intro: order_result_error create_order_body_id create_order_body_error)

interpretation update_order_doc: documented_operation "update_order cfg numeric clk ids oid items u"
  for cfg numeric clk ids oid items u
proof unfold_locales
  fix s e s'
  assume s: "clean s" "db_fits (durable s)" and run: "update_order cfg numeric clk ids oid items u s = (Inl e, s')"
  show "expected_failure e"
  proof (rule with_order_error [OF s run [unfolded update_order_def]])
    fix od
    assume od: "od \<in> set (orders (durable s))"
      and r: "order_result (with_transaction (db_now clk) (autobegin s) (update_order_body cfg numeric clk ids items u od)) = (Inl e, s')"
    have s1: "clean (autobegin s)" "db_fits (durable (autobegin s))" using s by simp_all
    show "expected_failure e"
      by (rule order_result_error [OF s1 r]) (use s od in \<open>auto intro: update_order_body_id update_order_body_error\<close>)
  qed
qed

interpretation cancel_order_doc: documented_operation "cancel_order clk oid u" for clk oid u
proof unfold_locales
  fix s e s'
  assume s: "clean s" "db_fits (durable s)" and run: "cancel_order clk oid u s = (Inl e, s')"
  show "expected_failure e"
  proof (rule with_order_error [OF s run [unfolded cancel_order_def]])
    fix od
    assume od: "od \<in> set (orders (durable s))"
      and r: "order_result (with_transaction (db_now clk) (autobegin s) (cancel_order_body od)) = (Inl e, s')"
    have s1: "clean (autobegin s)" "db_fits (durable (autobegin s))" using s by simp_all
    show "expected_failure e"
      by (rule order_result_error [OF s1 r]) (use s od in \<open>auto intro: cancel_order_body_id cancel_order_body_error\<close>)
  qed
qed

interpretation get_order_doc: documented_operation "get_order oid u" for oid u
proof unfold_locales
  fix s e s'
  assume s: "clean s" "db_fits (durable s)" and "get_order oid u s = (Inl e, s')"
  with one_or_none_key [OF db_fits_distinct(4) [OF s(2)]] show "expected_failure e"
    by (auto simp: get_order_def clean_def Let_def require_order_owner_def split: option.splits if_splits)
qed

text \<open>The other handlers; those that read an enumeration from the payload need it to be a member.\<close>

lemma register_user_error:
  assumes "clean s" and "db_fits (durable s)" and "register_user hash_fun now new_id p s = (Inl e, s')"
    and "user_role_of (requested_role p) = Inr role"
  shows "expected_failure e"
proof -
  have one: "one_or_none (filter (\<lambda>u. u_email u = rr_email p) (users (work s))) =
      Inr (find_by u_email (rr_email p) (users (durable s)))"
    using one_or_none_key [OF db_fits_distinct(2) [OF assms(2)]] assms(1) by (simp add: clean_def)
  from assms(3,4) one show ?thesis
    by (auto simp: register_user_def requested_role_def Let_def hash_password_def add_user_def find_by_append
        dest!: commit_refresh_error split: sum.splits option.splits)
qed

lemma login_user_error:
  assumes "clean s" and "db_fits (durable s)" and "login_user verify_fun J cfg now p s = (Inl e, s')"
  shows "expected_failure e"
  using assms one_or_none_key [OF db_fits_distinct(2) [OF assms(2)], of "lr_email p"]
  by (auto simp: login_user_def clean_def Let_def split: sum.splits option.splits if_splits)

lemma refresh_token_error:
  assumes "clean s" and "db_fits (durable s)" and "refresh_token J cfg now tok s = (Inl e, s')"
  shows "expected_failure e"
  using assms one_or_none_sub [OF db_fits_distinct(1) [OF assms(2)]]
  by (auto simp: refresh_token_def clean_def Let_def dest: verify_token_error split: sum.splits option.splits)

lemma choose_seller_error:
  assumes "db_fits d" and "choose_seller p u d = Inl e"
  shows "expected_failure e"
  using assms(2) one_or_none_key [OF db_fits_distinct(1) [OF assms(1)]]
  by (auto simp: choose_seller_def Let_def split: sum.splits option.splits if_splits)

lemma create_product_error:
  assumes "clean s" and "db_fits (durable s)" and "create_product numeric now new_id p u s = (Inl e, s')"
    and "product_status_of (enum_value (cr_status p)) = Inr st"
  shows "expected_failure e"
  using assms choose_seller_error [OF assms(2)]
  by (auto simp: create_product_def clean_def Let_def find_by_append find_by_map
      dest!: commit_refresh_error split: sum.splits option.splits)

lemma product_one:
  assumes "clean s" and "db_fits (durable s)"
  shows "one_or_none (filter (\<lambda>p. p_id p = pid) (products (work s))) = Inr (find_by p_id pid (products (durable s)))"
  using assms one_or_none_key [OF db_fits_distinct(3) [OF assms(2)]] by (simp add: clean_def)

lemma update_product_error:
  assumes "clean s" and "db_fits (durable s)" and "update_product numeric now pid upd u s = (Inl e, s')"
    and "\<exists>status. updated_status upd = Inr status"
  shows "expected_failure e"
proof (cases "find_by p_id pid (products (durable s))")
  case None
  with assms(3) product_one [OF assms(1,2)] show ?thesis by (auto simp: update_product_def Let_def)
next
  case (Some p)
  then have p: "p \<in> set (products (durable s))" "p_id p = pid" by (auto dest: find_by_SomeD)
  obtain status where st: "updated_status upd = Inr status" using assms(4) by blast
  show ?thesis
  proof (cases "updated_product numeric upd status p")
    case None
    with assms(3) Some st product_one [OF assms(1,2)] show ?thesis
      by (auto simp: update_product_def require_product_owner_def Let_def split: if_splits)
  next
    case up: (Some p')
    have key: "p_id p' = p_id p" using updated_product_key [OF up] by simp
    have there: "find_by p_id (p_id p') (products (touch now (flushed (autobegin s))
        (put_product p' (work (autobegin s))))) \<noteq> None"
      using replaced_lookup [OF p(1) key] assms(1) by (simp add: put_product_def clean_def key)
    from assms(3) Some st up product_one [OF assms(1,2)] there show ?thesis
      by (auto simp: update_product_def require_product_owner_def put_product_def Let_def key
          dest!: commit_refresh_error split: if_splits)
  qed
qed

lemma delete_product_error:
  assumes "clean s" and "db_fits (durable s)" and "delete_product now pid u s = (Inl e, s')"
  shows "expected_failure e"
  using assms(3) product_one [OF assms(1,2)]
  by (auto simp: delete_product_def require_product_owner_def Let_def dest!: commit_cases
      split: option.splits if_splits)

lemma get_product_error:
  assumes "clean s" and "db_fits (durable s)" and "get_product pid s = (Inl e, s')"
  shows "expected_failure e"
  using assms(3) product_one [OF assms(1,2)]
  by (auto simp: get_product_def Let_def split: option.splits)

lemma create_promo_code_error:
  assumes "create_promo_code numeric now new_id p s = (Inl e, s')"
    and "discount_type_of (enum_value (pcr_discount_type p)) = Inr dt"
  shows "expected_failure e"
  using assms
  by (auto simp: create_promo_code_def Let_def find_by_append dest!: commit_refresh_error split: option.splits)

interpretation login_doc: documented_operation "login_user verify_fun J cfg now p" for verify_fun J cfg now p
  by unfold_locales (rule login_user_error)

interpretation refresh_doc: documented_operation "refresh_token J cfg now tok" for J cfg now tok
  by unfold_locales (rule refresh_token_error)

interpretation get_product_doc: documented_operation "get_product pid" for pid
  by unfold_locales (rule get_product_error)

interpretation delete_product_doc: documented_operation "delete_product now pid u" for now pid u
  by unfold_locales (rule delete_product_error)

interpretation list_products_doc: documented_operation "list_products scan page n status category"
  for scan page n status category
  by unfold_locales (auto simp: list_products_def Let_def split: if_splits)

section \<open>The application\<close>

lemma role_in_schema: "v \<in> {''USER'', ''SELLER'', ''ADMIN''} \<Longrightarrow> \<exists>r. user_role_of v = Inr r"
  by (auto simp: user_role_of_def)

lemma status_in_schema: "v \<in> {''ACTIVE'', ''INACTIVE'', ''ARCHIVED''} \<Longrightarrow> \<exists>st. product_status_of v = Inr st"
  by (auto simp: product_status_of_def)

lemma discount_in_schema: "v \<in> {''PERCENTAGE'', ''FIXED_AMOUNT''} \<Longrightarrow> \<exists>dt. discount_type_of v = Inr dt"
  by (auto simp: discount_type_of_def)

lemma public_handler_error:
  assumes s: "clean s" "db_fits (durable s)" and "schema_ok (Public req)" and "public_handler D t req s = (Inl e, s')"
  shows "expected_failure e"
proof (cases req)
  case (Register p)
  with assms(4) have r: "register_user (dp_hash D) (db_now (tk_clock t)) (tk_new_id t) p s = (Inl e, s')"
    by (auto elim: reply_with_cases)
  have "requested_role p \<in> {''USER'', ''SELLER'', ''ADMIN''}"
    using assms(3) by (auto simp: Register requested_role_def split: option.splits)
  then obtain role where "user_role_of (requested_role p) = Inr role" using role_in_schema by blast
  with register_user_error [OF s r] show ?thesis .
next
  case (Login p)
  with assms(4) show ?thesis by (auto elim!: reply_with_cases dest: login_doc.fails_as_expected [OF s])
next
  case (Refresh tok)
  with assms(4) show ?thesis by (auto elim!: reply_with_cases dest: refresh_doc.fails_as_expected [OF s])
qed

lemma user_handler_error:
  assumes s: "clean s" "db_fits (durable s)" and "schema_ok (AsUser req)" and "user_handler D t req u s = (Inl e, s')"
  shows "expected_failure e"
proof (cases req)
  case (CreateProduct p)
  with assms(4) have r: "create_product (dp_numeric D) (db_now (tk_clock t)) (tk_new_id t) p u s = (Inl e, s')"
    by (auto elim: reply_with_cases)
  from assms(3) obtain st where "product_status_of (enum_value (cr_status p)) = Inr st"
    using status_in_schema [of "enum_value (cr_status p)"] by (auto simp: CreateProduct)
  with create_product_error [OF s r] show ?thesis .
next
  case (UpdateProduct pid upd)
  with assms(4) have r: "update_product (dp_numeric D) (db_now (tk_clock t)) pid upd u s = (Inl e, s')"
    by (auto elim: reply_with_cases)
  have "\<exists>status. updated_status upd = Inr status"
  proof (cases "up_status upd")
    case None
    then show ?thesis by (simp add: updated_status_def)
  next
    case (Some v)
    show ?thesis
    proof (cases v)
      case None
      with Some show ?thesis by (simp add: updated_status_def)
    next
      case (Some w)
      with \<open>up_status upd = Some v\<close> assms(3) obtain st where "product_status_of (enum_value w) = Inr st"
        using status_in_schema [of "enum_value w"] by (auto simp: UpdateProduct given_def)
      with Some \<open>up_status upd = Some v\<close> show ?thesis by (simp add: updated_status_def)
    qed
  qed
  with update_product_error [OF s r] show ?thesis .
next
  case (CreatePromoCode p)
  with assms(4) have r: "create_promo_code (dp_numeric D) (db_now (tk_clock t)) (tk_new_id t) p s = (Inl e, s')"
    by (auto elim: reply_with_cases)
  from assms(3) obtain dt where "discount_type_of (enum_value (pcr_discount_type p)) = Inr dt"
    using discount_in_schema [of "enum_value (pcr_discount_type p)"] by (auto simp: CreatePromoCode)
  with create_promo_code_error [OF r] show ?thesis .
qed (use assms(4) in
  \<open>auto elim!: reply_with_cases dest: list_products_doc.fails_as_expected [OF s] get_product_doc.fails_as_expected [OF s]
    delete_product_doc.fails_as_expected [OF s] create_order_doc.fails_as_expected [OF s]
    get_order_doc.fails_as_expected [OF s] update_order_doc.fails_as_expected [OF s]
    cancel_order_doc.fails_as_expected [OF s]\<close>)

lemma validated_error:
  assumes "validated D req f s = (Inl e, s')" and "follows_schema D"
    and "schema_ok req \<Longrightarrow> f s = (Inl e, s') \<Longrightarrow> expected_failure e"
  shows "expected_failure e"
  using assms by (auto simp: validated_def follows_schema_def split: if_splits)

lemma endpoint_error:
  assumes s: "clean s" "db_fits (durable s)" and "follows_schema D" and run: "endpoint D t cred req s = (Inl e, s')"
  shows "expected_failure e"
proof (cases req)
  case (Public preq)
  with run have "validated D (Public preq) (public_handler D t preq) s = (Inl e, s')" by simp
  then show ?thesis using assms(3) by (rule validated_error) (rule public_handler_error [OF s])
next
  case (AsUser ureq)
  obtain r1 s1 where g: "run_guard D t cred (endpoint_guard ureq) s = (r1, s1)"
    by (cases "run_guard D t cred (endpoint_guard ureq) s")
  have s1: "clean s1" "db_fits (durable s1)" using s run_guard_frame [OF g] by simp_all
  show ?thesis
  proof (cases r1)
    case (Inl e1)
    with g run AsUser have "run_guard D t cred (endpoint_guard ureq) s = (Inl e, s1)" by simp
    then show ?thesis by (rule run_guard_error [OF s])
  next
    case (Inr u)
    with g run AsUser have "validated D (AsUser ureq) (user_handler D t ureq u) s1 = (Inl e, s')" by simp
    then show ?thesis using assms(3) by (rule validated_error) (rule user_handler_error [OF s1])
  qed
qed

text \<open>
  C31: A request that fails, fails as the interface description says: with one of its error codes and
  the status that belongs to the code, with the errors of a refused payload, or because the database
  refuses a row. No dictionary key is ever missing, no key finds two rows, no row is gone on refresh.
\<close>

theorem requests_fail_as_documented:
  assumes "follows_schema D" and "db_fits d" and "serve D t cred req d = (Inl e, d')"
  shows "case e of
      ApiError code status msg details \<Rightarrow> code \<in> set documented_error_codes \<and> status = status_of_code code
    | DBAPIError \<Rightarrow> True | RequestValidationError errs \<Rightarrow> True | _ \<Rightarrow> False"
proof -
  have s: "clean (SessionLocal d)" "db_fits (durable (SessionLocal d))"
    using assms(2) by (simp_all add: SessionLocal_def clean_def)
  obtain s' where "endpoint D t cred req (SessionLocal d) = (Inl e, s')"
    using assms(3) by (auto simp: serve_def get_db_def split: prod.splits)
  from endpoint_error [OF s assms(1) this] have "expected_failure e" .
  then show ?thesis by (cases e) (simp_all add: expected_failure.simps)
qed

theorem requests_fail_as_documented_witness:
  "\<exists>code status msg details.
     fst (serve sample_deployment (sample_tick 9 ''x'' ''o2'') (access_of ''u1'' ''USER'') sample_order sample_state) =
       Inl (ApiError code status msg details) \<and>
     code = ''ORDER_LIMIT_EXCEEDED'' \<and> status = status_of_code code"
proof -
  let ?r = "serve sample_deployment (sample_tick 9 ''x'' ''o2'') (access_of ''u1'' ''USER'') sample_order sample_state"
  have r: "fst ?r = Inl (ApiError ''ORDER_LIMIT_EXCEEDED'' 429 ''Order rate limit exceeded'' None)"
    unfolding sample_state_eq by code_simp
  then have "?r = (Inl (ApiError ''ORDER_LIMIT_EXCEEDED'' 429 ''Order rate limit exceeded'' None), snd ?r)"
    by (metis prod.collapse)
  from requests_fail_as_documented [OF sample_follows_schema sample_fits(2) this] r show ?thesis by simp
qed

end
