(* ===== verification/Request_Log.thy ===== *)
theory Request_Log
  imports Errors
begin

text \<open>
  The middleware of the marketplace that logs requests (\<open>core/logging.py\<close>). The rest of the
  application is the parameter \<open>call_next\<close>, which also reports the user it identified; the decoding of
  bytes, the parsing of JSON and the printing of a line are those of the standard library, as parameters.
\<close>

text \<open>
  What \<open>json.loads\<close> makes of a text: a value, \<open>JSONDecodeError\<close>, or another exception, which nothing
  catches: \<open>RecursionError\<close> for a text that is nested too deeply, \<open>ValueError\<close> for an integer of too many digits.
\<close>

datatype loaded = Loaded json | NotJson | LoadFails exn

text \<open>
  Bytes are a list of characters, as text is. \<open>print_json\<close> is the exception of \<open>print(json.dumps(...))\<close>
  when it has one: a string of the body with a lone surrogate, which JSON can write as an escape, is
  printed as it is and cannot be encoded (\<open>UnicodeEncodeError\<close>).
\<close>

record http_request =
  rq_method :: string
  rq_path :: string
  rq_body :: string

record app_response =
  ap_status_code :: int
  ap_headers :: "(string \<times> string) list"
  ap_body :: string

record 'w log_library =
  call_next :: "http_request \<Rightarrow> 'w \<Rightarrow> (exn + app_response \<times> string option) \<times> 'w"
  decode_utf8 :: "string \<Rightarrow> string option"
  decode_ignore :: "string \<Rightarrow> string"
  json_loads :: "string \<Rightarrow> loaded"
  print_json :: "json \<Rightarrow> exn option"
  request_uuid :: "'w \<Rightarrow> string"
  seconds_now :: "'w \<Rightarrow> rat"
  utc_isoformat :: "'w \<Rightarrow> string"

definition logged_methods :: "string list" where
  "logged_methods = [''POST'', ''PUT'', ''DELETE'']"

definition masked_keys :: "string list" where
  "masked_keys = [''password'', ''refresh_token'']"

definition mask_key :: "string \<Rightarrow> (string \<times> json) list \<Rightarrow> (string \<times> json) list" where
  "mask_key k d = (if k \<in> fst ` set d then AList.update k (JStr ''***'') d else d)"

fun mask_secrets :: "json \<Rightarrow> json" where
  "mask_secrets (JDict d) = JDict (fold mask_key masked_keys d)"
| "mask_secrets j = j"

text \<open>
  The body for the log: none for no bytes or a JSON null, the masked value of a JSON text, or the text
  itself. Only \<open>JSONDecodeError\<close> is caught, not the error of bytes that are not UTF-8, nor any other.
\<close>

definition logged_body :: "'w log_library \<Rightarrow> string \<Rightarrow> exn + json option" where
  "logged_body L bytes =
     (if bytes = [] then Inr None
      else
        case decode_utf8 L bytes of
          None \<Rightarrow> Inl UnicodeDecodeError
        | Some t \<Rightarrow>
            (case json_loads L t of
               Loaded j \<Rightarrow> Inr (if mask_secrets j = JNull then None else Some (mask_secrets j))
             | NotJson \<Rightarrow> Inr (Some (JStr (decode_ignore L bytes)))
             | LoadFails e \<Rightarrow> Inl e))"

definition log_record :: "'w log_library \<Rightarrow> http_request \<Rightarrow> app_response \<Rightarrow> string option \<Rightarrow> 'w \<Rightarrow> 'w \<Rightarrow> json option \<Rightarrow> json" where
  "log_record L rq resp uid w w' body =
     JDict ([(''request_id'', JStr (request_uuid L w)), (''method'', JStr (rq_method rq)), (''endpoint'', JStr (rq_path rq)),
             (''status_code'', JInt (ap_status_code resp)),
             (''duration_ms'', JInt \<lfloor>(seconds_now L w' - seconds_now L w) * 1000\<rfloor>),
             (''user_id'', case uid of None \<Rightarrow> JNull | Some u \<Rightarrow> JStr u),
             (''timestamp'', JStr (utc_isoformat L w'))] @
            (case body of None \<Rightarrow> [] | Some b \<Rightarrow> [(''body'', b)]))"

text \<open>The outcome, the state that the application leaves, and the lines printed.\<close>

definition log_requests :: "'w log_library \<Rightarrow> http_request \<Rightarrow> 'w \<Rightarrow> (exn + app_response) \<times> 'w \<times> json list" where
  "log_requests L rq w =
     (let body_bytes = (if rq_method rq \<in> set logged_methods then rq_body rq else []) in
      case call_next L rq w of
        (Inl e, w') \<Rightarrow> (Inl e, w', [])
      | (Inr (resp, uid), w') \<Rightarrow>
          (case logged_body L body_bytes of
             Inl e \<Rightarrow> (Inl e, w', [])
           | Inr body \<Rightarrow>
               (let line = log_record L rq resp uid w w' body in
                case print_json L line of
                  Some e \<Rightarrow> (Inl e, w', [])
                | None \<Rightarrow>
                    (Inr (resp\<lparr>ap_headers := AList.update ''X-Request-Id'' (request_uuid L w) (ap_headers resp)\<rparr>), w',
                     [line]))))"

fun json_field :: "string \<Rightarrow> json \<Rightarrow> json option" where
  "json_field k (JDict d) = map_of d k"
| "json_field k _ = None"

lemma mask_key_lookup:
  "map_of (mask_key k d) x = (if x = k then map_option (\<lambda>_. JStr ''***'') (map_of d x) else map_of d x)"
proof (cases "k \<in> fst ` set d")
  case True
  then have "map_of d k \<noteq> None" by (simp add: map_of_eq_None_iff)
  with True show ?thesis by (auto simp: mask_key_def update_conv')
next
  case False
  then have "map_of d k = None" by (simp add: map_of_eq_None_iff)
  with False show ?thesis by (simp add: mask_key_def)
qed

lemma mask_secrets_lookup:
  "json_field k (mask_secrets (JDict d)) =
     (if k = ''password'' \<or> k = ''refresh_token'' then map_option (\<lambda>_. JStr ''***'') (map_of d k) else map_of d k)"
  by (simp add: masked_keys_def mask_key_lookup option.map_comp o_def)

lemma log_record_body: "json_field ''body'' (log_record L rq resp uid w w' body) = body"
  by (simp add: log_record_def split: option.splits)

text \<open>What the field \<open>body\<close> of a line may be, for what \<open>json.loads\<close> made of the body and its text.\<close>

definition shows_body :: "loaded \<Rightarrow> string \<Rightarrow> json option \<Rightarrow> bool" where
  "shows_body parsed raw field \<longleftrightarrow>
     (case parsed of
        Loaded (JDict d) \<Rightarrow>
          (\<exists>b. field = Some (JDict b) \<and>
            (\<forall>k. map_of b k =
               (if k = ''password'' \<or> k = ''refresh_token'' then map_option (\<lambda>_. JStr ''***'') (map_of d k) else map_of d k)))
      | Loaded JNull \<Rightarrow> field = None
      | Loaded j \<Rightarrow> field = Some j
      | NotJson \<Rightarrow> field = Some (JStr raw)
      | LoadFails e \<Rightarrow> False)"


text \<open>
  A body whose password is masked, and one that is cut off, so that it is no JSON and logged with the password.
\<close>

definition sample_log_library :: "int log_library" where
  "sample_log_library =
     \<lparr>call_next = (\<lambda>_ w. (Inr (\<lparr>ap_status_code = 201, ap_headers = [], ap_body = []\<rparr>, None), w + 1)),
      decode_utf8 = Some, decode_ignore = (\<lambda>b. b),
      json_loads = (\<lambda>t. if t = ''secret1'' then Loaded (JDict [(''email'', JStr ''ann@shop.org''), (''password'', JStr t)]) else NotJson),
      print_json = (\<lambda>_. None),
      request_uuid = (\<lambda>_. ''r1''), seconds_now = of_int, utc_isoformat = (\<lambda>_. ''2026-03-04T09:45:56+00:00'')\<rparr>"


end
