(* ===== verification/Web_App.thy ===== *)
theory Web_App
  imports Failures Request_Log
begin

text \<open>
  The marketplace as its clients see it (\<open>main.py\<close>): the request log around the exception handlers
  around the endpoints, from an HTTP request to an HTTP response, the stored data and the printed line.
  Every answer is compared with the responses that \<open>marketplace.yaml\<close> describes for the operation.
\<close>

section \<open>Routes and described responses\<close>

text \<open>Method, path and status of the decorators \<open>@app.post(...)\<close>; without \<open>status_code\<close> it is 200.\<close>

fun route_of :: "request \<Rightarrow> string \<times> string \<times> int" where
  "route_of (Public (Register _)) = (''POST'', ''/auth/register'', 201)"
| "route_of (Public (Login _)) = (''POST'', ''/auth/login'', 200)"
| "route_of (Public (Refresh _)) = (''POST'', ''/auth/refresh'', 200)"
| "route_of (AsUser (ListProducts _ _ _ _)) = (''GET'', ''/products'', 200)"
| "route_of (AsUser (CreateProduct _)) = (''POST'', ''/products'', 201)"
| "route_of (AsUser (GetProduct _)) = (''GET'', ''/products/{id}'', 200)"
| "route_of (AsUser (UpdateProduct _ _)) = (''PUT'', ''/products/{id}'', 200)"
| "route_of (AsUser (DeleteProduct _)) = (''DELETE'', ''/products/{id}'', 204)"
| "route_of (AsUser (CreateOrder _)) = (''POST'', ''/orders'', 201)"
| "route_of (AsUser (GetOrder _)) = (''GET'', ''/orders/{id}'', 200)"
| "route_of (AsUser (UpdateOrder _ _)) = (''PUT'', ''/orders/{id}'', 200)"
| "route_of (AsUser (CancelOrder _)) = (''POST'', ''/orders/{id}/cancel'', 200)"
| "route_of (AsUser (CreatePromoCode _)) = (''POST'', ''/promo-codes'', 201)"

abbreviation success_status :: "request \<Rightarrow> int" where
  "success_status req \<equiv> snd (snd (route_of req))"

text \<open>The \<open>paths\<close> of the description, each operation with the status codes of its \<open>responses\<close>.\<close>

definition described_responses :: "((string \<times> string) \<times> int list) list" where
  "described_responses =
     [((''POST'', ''/auth/register''), [201, 400]),
      ((''POST'', ''/auth/login''), [200, 401, 400]),
      ((''POST'', ''/auth/refresh''), [200, 401, 400]),
      ((''GET'', ''/products''), [200, 401]),
      ((''POST'', ''/products''), [201, 400, 401, 403]),
      ((''GET'', ''/products/{id}''), [200, 401, 404]),
      ((''PUT'', ''/products/{id}''), [200, 400, 401, 403, 404]),
      ((''DELETE'', ''/products/{id}''), [204, 401, 403, 404]),
      ((''POST'', ''/orders''), [201, 400, 401, 403, 404, 409, 422, 429]),
      ((''GET'', ''/orders/{id}''), [200, 401, 403, 404]),
      ((''PUT'', ''/orders/{id}''), [200, 400, 401, 403, 404, 409, 422, 429]),
      ((''POST'', ''/orders/{id}/cancel''), [200, 401, 403, 404, 409]),
      ((''POST'', ''/promo-codes''), [201, 400, 401, 403])]"

definition described_statuses :: "request \<Rightarrow> int list" where
  "described_statuses req =
     (case route_of req of (method, path, _) \<Rightarrow>
        (case map_of described_responses (method, path) of None \<Rightarrow> [] | Some sts \<Rightarrow> sts))"

section \<open>From HTTP to HTTP\<close>

text \<open>
  What FastAPI makes of a request before a handler runs: not one of the endpoints, so that another
  response is given; a body that is not JSON, refused at once; a payload that has not even the types of
  a request, refused after the dependency of the endpoint has run; or a request. How a body is written
  is FastAPI's, too.
\<close>

datatype routed =
  Elsewhere int string
| BadJson "pydantic_error list"
| BadPayload "string option" "guard option" "pydantic_error list"
| Routed "string option" request

record 'v web_library =
  wl_route :: "http_request \<Rightarrow> routed"
  wl_reply :: "reply \<Rightarrow> string"
  wl_json :: "json \<Rightarrow> string"
  wl_headers :: "string \<Rightarrow> (string \<times> string) list"
  wl_elapse :: "'v \<Rightarrow> 'v"

definition answer :: "'v web_library \<Rightarrow> int \<Rightarrow> string \<Rightarrow> app_response" where
  "answer W status body = \<lparr>ap_status_code = status, ap_headers = wl_headers W body, ap_body = body\<rparr>"

definition dispatch ::
  "deployment \<Rightarrow> 'v web_library \<Rightarrow> tick \<Rightarrow> http_request \<Rightarrow> db \<Rightarrow> (exn + app_response) \<times> uuid option \<times> db" where
  "dispatch D W t rq d =
     (case wl_route W rq of
        Elsewhere status body \<Rightarrow> (Inr (answer W status body), None, d)
      | BadJson errs \<Rightarrow> (Inl (RequestValidationError errs), None, d)
      | BadPayload credentials g errs \<Rightarrow>
          (case g of
             None \<Rightarrow> (Inl (RequestValidationError errs), None, d)
           | Some g' \<Rightarrow>
               (case run_guard D t credentials g' (SessionLocal d) of
                  (Inl e, s) \<Rightarrow> (Inl e, state_user_id s, close s)
                | (Inr _, s) \<Rightarrow> (Inl (RequestValidationError errs), state_user_id s, close s)))
      | Routed credentials req \<Rightarrow>
          (case endpoint D t credentials req (SessionLocal d) of
             (Inl e, s) \<Rightarrow> (Inl e, state_user_id s, close s)
           | (Inr x, s) \<Rightarrow> (Inr (answer W (success_status req) (wl_reply W x)), state_user_id s, close s)))"

text \<open>The two exception handlers; what they do not handle is raised on.\<close>

definition handled :: "'v web_library \<Rightarrow> exn + app_response \<Rightarrow> exn + app_response" where
  "handled W r =
     (case r of
        Inr resp \<Rightarrow> Inr resp
      | Inl e \<Rightarrow>
          (case exception_response e of
             Some h \<Rightarrow> Inr (answer W (hr_status_code h) (wl_json W (hr_content h)))
           | None \<Rightarrow> Inl e))"

definition call_app ::
  "deployment \<Rightarrow> 'v web_library \<Rightarrow> tick \<Rightarrow> http_request \<Rightarrow> 'v \<times> db \<Rightarrow> (exn + app_response \<times> string option) \<times> 'v \<times> db" where
  "call_app D W t rq w =
     (case dispatch D W t rq (snd w) of
        (r, uid, d') \<Rightarrow>
          ((case handled W r of Inl e \<Rightarrow> Inl e | Inr resp \<Rightarrow> Inr (resp, uid)), wl_elapse W (fst w), d'))"

text \<open>
  The application with its middleware. What leaves the middleware as an exception is answered by the
  server's own middleware around all others.
\<close>

definition web_app ::
  "deployment \<Rightarrow> 'v web_library \<Rightarrow> ('v \<times> db) log_library \<Rightarrow> tick \<Rightarrow> http_request \<Rightarrow> 'v \<times> db \<Rightarrow>
     app_response \<times> ('v \<times> db) \<times> json list" where
  "web_app D W L t rq w =
     (case log_requests (L\<lparr>call_next := call_app D W t\<rparr>) rq w of
        (Inr resp, w', lines) \<Rightarrow> (resp, w', lines)
      | (Inl e, w', lines) \<Rightarrow> (answer W 500 ''Internal Server Error'', w', lines))"

section \<open>The statuses of an operation\<close>

text \<open>An exception that is an \<open>ApiError\<close> has one of the statuses, and none is a refused payload.\<close>

fun status_in :: "int set \<Rightarrow> exn \<Rightarrow> bool" where
  "status_in S (ApiError code status msg details) = (status \<in> S)"
| "status_in S (RequestValidationError errs) = False"
| "status_in S e = True"

lemma status_in_mono: "status_in S e \<Longrightarrow> S \<subseteq> T \<Longrightarrow> status_in T e"
  by (cases e) auto

text \<open>Library calls raise no \<open>ApiError\<close>, and the frames only what their bodies raise.\<close>

lemma one_or_none_status: "one_or_none xs = Inl e \<Longrightarrow> status_in S e"
  by (auto simp: one_or_none_def split: list.splits)

lemma enum_status:
  "user_role_of v = Inl e \<Longrightarrow> status_in S e" "product_status_of v = Inl e \<Longrightarrow> status_in S e"
  "discount_type_of v = Inl e \<Longrightarrow> status_in S e"
  by (auto simp: user_role_of_def product_status_of_def discount_type_of_def split: if_splits)

lemma commit_status: "commit now s = (Inl e, s') \<Longrightarrow> status_in S e"
  by (auto simp: commit_def flush_def Let_def split: sum.splits if_splits)

lemma commit_refresh_status: "commit_refresh now reload f s = (Inl e, s') \<Longrightarrow> status_in S e"
  by (auto simp: commit_refresh_def and_then_def refresh_def Let_def
      split: sum.splits prod.splits option.splits if_splits dest: commit_status)

lemma with_transaction_status:
  assumes "with_transaction now s body = (Inl e, s')" and "\<And>w e. body w = Inl e \<Longrightarrow> status_in S e"
  shows "status_in S e"
  using assms
  by (auto simp: with_transaction_def nested_block_def root_block_def and_then_def flush_def Let_def
      split: sum.splits prod.splits if_splits dest: commit_status)

lemma order_result_status:
  "order_result m = (Inl e, s') \<Longrightarrow> (\<And>s. m = (Inl e, s) \<Longrightarrow> status_in S e) \<Longrightarrow> status_in S e"
  by (auto simp: order_result_def and_then_def refresh_def Let_def split: sum.splits prod.splits option.splits)


lemma collect_items_status: "collect_items numeric m new_id i items amt acc = Inl e \<Longrightarrow> status_in S e"
  by (induction items arbitrary: i amt acc) (auto simp: Let_def split: option.splits)

lemma insufficient_items_status: "insufficient_items m req = Inl e \<Longrightarrow> status_in S e"
  by (induction req) (auto split: option.splits sum.splits)

lemmas library_status = one_or_none_status enum_status commit_status commit_refresh_status collect_items_status
  insufficient_items_status

text \<open>The checks that the order handlers share.\<close>

lemma check_products_status: "check_products m ids = Inl e \<Longrightarrow> status_in {404, 409} e"
  by (induction ids) (auto split: option.splits if_splits)

lemma check_stock_status: "check_stock m req = Inl e \<Longrightarrow> status_in {404, 409} e"
  by (auto simp: check_stock_def dest: check_products_status intro: library_status split: sum.splits if_splits)

lemma check_rate_limit_status: "check_rate_limit cfg now d uid op = Inl e \<Longrightarrow> status_in {429} e"
  by (auto simp: check_rate_limit_def Let_def split: option.splits if_splits)

lemma validate_promo_status: "validate_promo_basic now allow pc = Inl e \<Longrightarrow> status_in {422} e"
  by (auto simp: validate_promo_basic_def Let_def split: if_splits)

lemma calculate_discount_status: "calculate_discount pc amt = Inl e \<Longrightarrow> status_in {422} e"
  by (auto simp: calculate_discount_min split: if_splits)

lemma apply_promo_code_status: "apply_promo_code now code amt od d = Inl e \<Longrightarrow> status_in {422} e"
  by (auto simp: apply_promo_code_def dest: validate_promo_status calculate_discount_status intro: library_status
      split: option.splits sum.splits)

lemma reapply_promo_code_status: "reapply_promo_code now amt od d = Inl e \<Longrightarrow> status_in {422} e"
  by (auto simp: reapply_promo_code_def dest: validate_promo_status calculate_discount_status intro: library_status
      split: option.splits sum.splits if_splits)

lemmas check_status =
  check_stock_status [THEN status_in_mono] check_rate_limit_status [THEN status_in_mono]
  apply_promo_code_status [THEN status_in_mono] reapply_promo_code_status [THEN status_in_mono]

lemma create_order_body_status:
  "create_order_body cfg numeric clk ids p u d = Inl e \<Longrightarrow> status_in {404, 409, 422, 429} e"
  by (auto simp: create_order_body_def Let_def intro: library_status check_status split: sum.splits if_splits prod.splits)

lemma update_order_body_status:
  "update_order_body cfg numeric clk ids items u od d = Inl e \<Longrightarrow> status_in {404, 409, 422, 429} e"
  by (auto simp: update_order_body_def Let_def intro: library_status check_status split: sum.splits if_splits prod.splits)

lemma cancel_order_body_status: "cancel_order_body od d = Inl e \<Longrightarrow> status_in S e"
  by (auto simp: cancel_order_body_def Let_def intro: library_status split: option.splits sum.splits if_splits)

lemma require_order_owner_status: "require_order_owner od u = Inl e \<Longrightarrow> status_in {403} e"
  by (auto simp: require_order_owner_def split: if_splits)

lemma with_order_status:
  assumes "with_order oid u allowed s f = (Inl e, s')" and "{403, 404, 409} \<subseteq> S"
    and "\<And>od s. f od s = (Inl e, s') \<Longrightarrow> status_in S e"
  shows "status_in S e"
  using assms
  by (auto simp: with_order_def Let_def intro: library_status require_order_owner_status [THEN status_in_mono]
      split: sum.splits option.splits if_splits)

section \<open>The statuses of the endpoints\<close>

lemma run_guard_status: "run_guard D t cred g s = (Inl e, s') \<Longrightarrow> status_in (if g = CurrentUser then {401} else {401, 403}) e"
proof -
  have cur: "status_in {401} e1" if "get_current_user J cfg now cred s = (Inl e1, s1)" for J cfg now e1 s1
    using that
    by (auto simp: get_current_user_def verify_token_def Let_def intro: library_status
        split: option.splits if_splits sum.splits decoded.splits)
  assume "run_guard D t cred g s = (Inl e, s')"
  then show ?thesis
    by (auto simp: run_guard_def require_roles_def and_then_def intro: cur cur [THEN status_in_mono]
        split: guard.splits sum.splits prod.splits if_splits)
qed

lemma public_handler_status:
  assumes "public_handler D t req s = (Inl e, s')"
  shows "status_in (set (described_statuses (Public req)) \<inter> {400..499}) e"
proof (cases req)
  case (Register p)
  then show ?thesis
    using assms
    by (auto simp: described_statuses_def described_responses_def register_user_def hash_password_def Let_def
        elim!: reply_with_cases intro: library_status split: sum.splits option.splits)
next
  case (Login p)
  then show ?thesis
    using assms
    by (auto simp: described_statuses_def described_responses_def login_user_def Let_def
        elim!: reply_with_cases intro: library_status split: sum.splits option.splits if_splits)
next
  case (Refresh tok)
  then show ?thesis
    using assms
    by (auto simp: described_statuses_def described_responses_def refresh_token_def verify_token_def Let_def
        elim!: reply_with_cases intro: library_status split: sum.splits option.splits if_splits decoded.splits)
qed

text \<open>What each handler that runs for a user can raise.\<close>

lemma product_handler_status:
  "create_product numeric now new_id p u s = (Inl e, s') \<Longrightarrow> status_in {400, 403} e"
  "get_product pid s = (Inl e, s') \<Longrightarrow> status_in {404} e"
  "update_product numeric now pid upd u s = (Inl e, s') \<Longrightarrow> status_in {403, 404} e"
  "delete_product now pid u s = (Inl e, s') \<Longrightarrow> status_in {403, 404} e"
  "create_promo_code numeric now new_id pr s = (Inl e, s') \<Longrightarrow> status_in {} e"
  "list_products scan page n status category s = (Inl e, s') \<Longrightarrow> status_in {} e"
  by (auto simp: list_products_def create_product_def choose_seller_def get_product_def update_product_def delete_product_def
      create_promo_code_def require_product_owner_def updated_status_def Let_def
      intro: library_status split: sum.splits option.splits if_splits)

lemma order_handler_status:
  "create_order cfg numeric clk ids p u s = (Inl e, s') \<Longrightarrow> status_in {404, 409, 422, 429} e"
  "get_order oid u s = (Inl e, s') \<Longrightarrow> status_in {403, 404} e"
  "update_order cfg numeric clk ids oid items u s = (Inl e, s') \<Longrightarrow> status_in {403, 404, 409, 422, 429} e"
  "cancel_order clk oid u s = (Inl e, s') \<Longrightarrow> status_in {403, 404, 409} e"
proof -
  show "status_in {404, 409, 422, 429} e" if "create_order cfg numeric clk ids p u s = (Inl e, s')"
    using that unfolding create_order_def
    by (rule order_result_status) (erule with_transaction_status, erule create_order_body_status)
  show "status_in {403, 404} e" if "get_order oid u s = (Inl e, s')"
    using that
    by (auto simp: get_order_def Let_def intro: library_status require_order_owner_status [THEN status_in_mono]
        split: sum.splits option.splits)
  show "status_in {403, 404, 409, 422, 429} e" if "update_order cfg numeric clk ids oid items u s = (Inl e, s')"
    using that unfolding update_order_def
  proof (rule with_order_status)
    fix od s1
    assume "order_result (with_transaction (db_now clk) s1 (update_order_body cfg numeric clk ids items u od)) = (Inl e, s')"
    then have "status_in {404, 409, 422, 429} e"
      by (rule order_result_status) (erule with_transaction_status, erule update_order_body_status)
    then show "status_in {403, 404, 409, 422, 429} e" by (rule status_in_mono) auto
  qed auto
  show "status_in {403, 404, 409} e" if "cancel_order clk oid u s = (Inl e, s')"
    using that unfolding cancel_order_def
    by (rule with_order_status) (auto elim!: order_result_status with_transaction_status intro: cancel_order_body_status)
qed

lemma user_handler_status:
  assumes "user_handler D t req u s = (Inl e, s')"
  shows "status_in (set (described_statuses (AsUser req)) \<inter> {400..499}) e"
proof -
  let ?S = "set (described_statuses (AsUser req)) \<inter> {400..499}"
  have "\<exists>S. status_in S e \<and> S \<subseteq> ?S"
    using assms
    by (cases req)
      (force simp: described_statuses_def described_responses_def elim!: reply_with_cases
        dest: product_handler_status order_handler_status)+
  then show ?thesis by (blast intro: status_in_mono)
qed


lemma endpoint_status:
  assumes "endpoint D t cred req s = (Inl e, s')"
  shows "(\<exists>errs. e = RequestValidationError errs \<and> dp_validate D req \<noteq> []) \<or>
    status_in (set (described_statuses req) \<inter> {400..499}) e"
proof -
  have guard: "status_in (set (described_statuses (AsUser ureq)) \<inter> {400..499}) e1"
    if "run_guard D t cred (endpoint_guard ureq) s = (Inl e1, s1)" for ureq e1 s1
    by (rule status_in_mono [OF run_guard_status [OF that]])
      (cases ureq; simp add: described_statuses_def described_responses_def)
  show ?thesis
    using assms
    by (cases req)
      (auto simp: validated_def and_then_def intro: public_handler_status user_handler_status guard
        split: if_splits sum.splits prod.splits)
qed

text \<open>The description forgets that an identifier in a path and the page of a list can be refused, too.\<close>

lemma refusal_not_described:
  "400 \<notin> set (described_statuses req) \<longleftrightarrow>
     (case req of
        Public _ \<Rightarrow> False
      | AsUser r \<Rightarrow>
          (case r of
             ListProducts _ _ _ _ \<Rightarrow> True | GetProduct _ \<Rightarrow> True | DeleteProduct _ \<Rightarrow> True
           | GetOrder _ \<Rightarrow> True | CancelOrder _ \<Rightarrow> True | _ \<Rightarrow> False))"
  by (cases req rule: route_of.cases; simp add: described_statuses_def described_responses_def)

section \<open>Answers\<close>

text \<open>The application below the log, for a request that reaches an endpoint.\<close>

lemma call_app_Routed:
  assumes "follows_schema D" and "db_fits d" and "wl_route W rq = Routed cred req"
  obtains (returns) x uid d1 where "serve D t cred req d = (Inr x, d1)"
      and "call_app D W t rq (v, d) = (Inr (answer W (success_status req) (wl_reply W x), uid), wl_elapse W v, d1)"
    | (refuses) e uid status body where "serve D t cred req d = (Inl e, d)" and "e \<noteq> DBAPIError"
      and "call_app D W t rq (v, d) = (Inr (answer W status body, uid), wl_elapse W v, d)"
      and "status \<in> {400..499}" "status \<in> set (described_statuses req) \<or> status = 400 \<and> dp_validate D req \<noteq> []"
    | (fails) "serve D t cred req d = (Inl DBAPIError, d)"
      and "call_app D W t rq (v, d) = (Inl DBAPIError, wl_elapse W v, d)"
proof (cases "endpoint D t cred req (SessionLocal d)")
  case (Pair r s)
  show thesis
  proof (cases r)
    case (Inr x)
    show thesis
      by (rule returns [of x "close s" "state_user_id s"])
        (simp_all add: serve_def get_db_def call_app_def dispatch_def handled_def assms(3) Pair Inr)
  next
    case (Inl e)
    have serve: "serve D t cred req d = (Inl e, close s)" by (simp add: serve_def get_db_def Pair Inl)
    then have same: "close s = d"
      unfolding serve_def by (rule endpoint_op.request_raises [OF assms(2)])
    have app: "call_app D W t rq (v, d) =
        ((case exception_response e of Some h \<Rightarrow> Inr (answer W (hr_status_code h) (wl_json W (hr_content h)), state_user_id s)
          | None \<Rightarrow> Inl e), wl_elapse W v, d)"
      using same by (simp add: call_app_def dispatch_def handled_def assms(3) Pair Inl split: option.splits)
    have clean: "clean (SessionLocal d)" "db_fits (durable (SessionLocal d))"
      using assms(2) by (simp_all add: SessionLocal_def clean_def)
    from endpoint_error [OF clean assms(1)] Pair Inl have expected: "expected_failure e" by blast
    note status = endpoint_status [OF Pair [unfolded Inl]]
    show thesis
    proof (cases e)
      case (ApiError code st msg details)
      with status have "st \<in> {400..499}" "st \<in> set (described_statuses req)" by auto
      with refuses [of e] serve same app ApiError show thesis
        by (simp add: exception_response_def)
    next
      case (RequestValidationError errs)
      with status have "dp_validate D req \<noteq> []" by simp
      with refuses [of e] serve same app RequestValidationError show thesis
        by (simp add: exception_response_def validation_error_handler_def)
    next
      case DBAPIError
      with fails serve same app show thesis by (simp add: exception_response_def)
    qed (use expected in simp_all)
  qed
qed

text \<open>The log around it.\<close>

definition unreadable_body :: "'w log_library \<Rightarrow> http_request \<Rightarrow> bool" where
  "unreadable_body L rq \<longleftrightarrow> isl (logged_body L (if rq_method rq \<in> set logged_methods then rq_body rq else []))"

lemma logged_body_app [simp]: "logged_body (L\<lparr>call_next := f\<rparr>) = logged_body L"
  by (auto simp: logged_body_def fun_eq_iff split: option.split loaded.split)

lemma web_app_answer:
  assumes "call_app D W t rq w = (Inr (resp, uid), w')"
  shows "(unreadable_body L rq \<or> (\<exists>line. print_json L line \<noteq> None)) \<and> web_app D W L t rq w = (answer W 500 ''Internal Server Error'', w', []) \<or>
    (\<exists>line. web_app D W L t rq w =
        (resp\<lparr>ap_headers := AList.update ''X-Request-Id'' (request_uuid L w) (ap_headers resp)\<rparr>, w', [line]) \<and>
      json_field ''status_code'' line = Some (JInt (ap_status_code resp)))"
proof (cases "logged_body L (if rq_method rq \<in> set logged_methods then rq_body rq else [])")
  case (Inl e)
  with assms show ?thesis by (simp add: unreadable_body_def web_app_def log_requests_def Let_def)
next
  case (Inr body)
  let ?line = "log_record (L\<lparr>call_next := call_app D W t\<rparr>) rq resp uid w w' body"
  have "json_field ''status_code'' ?line = Some (JInt (ap_status_code resp))" by (simp add: log_record_def)
  then show ?thesis
    using assms Inr by (cases "print_json L ?line") (auto simp: web_app_def log_requests_def Let_def)
qed

lemma web_app_raised:
  assumes "call_app D W t rq w = (Inl e, w')"
  shows "web_app D W L t rq w = (answer W 500 ''Internal Server Error'', w', [])"
  using assms by (simp add: web_app_def log_requests_def Let_def)


text \<open>The order of the small shop over HTTP, with a body of ASCII characters and with one that is not UTF-8.\<close>

definition sample_web :: "int web_library" where
  "sample_web =
     \<lparr>wl_route = (\<lambda>_. Routed (access_of ''u1'' ''USER'') sample_order), wl_reply = (\<lambda>_. ''order''), wl_json = (\<lambda>_. ''error''),
      wl_headers = (\<lambda>_. [(''content-type'', ''application/json'')]), wl_elapse = (\<lambda>v. v + 1)\<rparr>"

definition sample_web_log :: "(int \<times> db) log_library" where
  "sample_web_log =
     \<lparr>call_next = (\<lambda>_ w. (Inl DBAPIError, w)),
      decode_utf8 = (\<lambda>b. if list_all (\<lambda>c. (of_char c :: nat) < 128) b then Some b else None), decode_ignore = (\<lambda>b. b),
      json_loads = (\<lambda>t. Loaded (JDict [(''promo_code'', JStr t)])), print_json = (\<lambda>_. None), request_uuid = (\<lambda>_. ''r1''),
      seconds_now = (\<lambda>w. of_int (fst w)), utc_isoformat = (\<lambda>_. ''2026-03-04T09:45:56+00:00'')\<rparr>"

definition sample_post :: "string \<Rightarrow> http_request" where
  "sample_post body = \<lparr>rq_method = ''POST'', rq_path = ''/orders'', rq_body = body\<rparr>"

definition sample_web_run :: "string \<Rightarrow> app_response \<times> (int \<times> db) \<times> json list" where
  "sample_web_run body =
     web_app sample_deployment sample_web sample_web_log (sample_tick 5 ''x'' ''o1'') (sample_post body) (0, sample_shop)"


end
