(* ===== verification/Progress.thy ===== *)
theory Progress
  imports Account_Properties
begin

text \<open>
  What a customer can bring about: an open order can be canceled by its owner in every reachable state,
  and when exactly the database stands in the way. The proof computes when the request is enabled, from
  what the constraints of the tables say of the state it would store.
\<close>

section \<open>The state a cancellation would store\<close>

lemma db_fits_touch [simp]: "db_fits (touch now old w) = db_fits w"
proof -
  have "product_fits (touch_product now ps p) = product_fits p" for ps p
    by (simp add: product_fits_def)
  moreover have "order_fits (touch_order now os od) = order_fits od" for os od
    by (simp add: order_fits_def)
  moreover have "concat (map o_items (map (touch_order now os) rows)) = concat (map o_items rows)" for os rows
    by (simp add: comp_def)
  ultimately show ?thesis
    by (simp add: db_fits_def users_fit_def products_fit_def orders_fit_def order_items_fit_def promo_codes_fit_def
        user_operations_fit_def comp_def image_image cong: option.case_cong)
qed

lemma restock_map:
  "restock items rows = map (\<lambda>p. p\<lparr>p_stock := p_stock p + item_quantity_of items (p_id p)\<rparr>) rows"
proof (induction items arbitrary: rows)
  case Nil
  then show ?case by (simp add: restock_def item_quantity_of_def)
next
  case (Cons it items)
  have "restock (it # items) rows = restock items (add_stock (oi_product_id it) (oi_quantity it) rows)"
    by (simp add: restock_def)
  also have "\<dots> = map (\<lambda>p. p\<lparr>p_stock := p_stock p + item_quantity_of (it # items) (p_id p)\<rparr>) rows"
    unfolding Cons.IH add_stock_def modify_by_def map_map
    by (rule map_cong) (auto simp: item_quantity_of_def comp_def)
  finally show ?case .
qed

text \<open>All products could take back what the order holds.\<close>

definition stock_room :: "order_row \<Rightarrow> db \<Rightarrow> bool" where
  "stock_room od d \<longleftrightarrow> (\<forall>p\<in>set (products d). fits_integer (p_stock p + item_quantity_of (o_items od) (p_id p)))"

lemma restocked_fit:
  assumes "db_fits d"
  shows "products_fit (d\<lparr>products := restock (o_items od) (products d), orders := os, promo_codes := pcs\<rparr>) \<longleftrightarrow> stock_room od d"
  using assms
  by (auto simp: db_fits_def products_fit_def stock_room_def restock_map comp_def product_fits_def)

lemma canceled_orders_fit:
  assumes "db_fits d" and "od \<in> set (orders d)" and "pc_id ` set pcs = pc_id ` set (promo_codes d)"
  shows "orders_fit (d\<lparr>products := ps, orders := replace_by o_id (od\<lparr>o_status := st\<rparr>) (orders d), promo_codes := pcs\<rparr>)"
proof -
  have od: "order_fits od" "o_user_id od \<in> u_id ` set (users d)"
      "case o_promo_code_id od of None \<Rightarrow> True | Some pid \<Rightarrow> pid \<in> pc_id ` set (promo_codes d)"
    using assms(1,2) by (auto simp: db_fits_def orders_fit_def)
  have "order_fits (od\<lparr>o_status := st\<rparr>) = order_fits od" by (simp add: order_fits_def)
  with assms od show ?thesis
    by (auto simp: db_fits_def orders_fit_def replace_by_set split: option.splits)
qed

lemma replace_row_items:
  assumes "distinct (map o_id rows)" and "od \<in> set rows"
  shows "map o_items (replace_by o_id (od\<lparr>o_status := st\<rparr>) rows) = map o_items rows"
  unfolding replace_by_def modify_by_def map_map
proof (rule map_cong [OF refl])
  fix r
  assume "r \<in> set rows"
  with assms have "o_id r = o_id od \<Longrightarrow> r = od" by (metis distinct_find_by option.inject)
  then show "(o_items \<circ> (\<lambda>r. if o_id r = o_id (od\<lparr>o_status := st\<rparr>) then od\<lparr>o_status := st\<rparr> else r)) r = o_items r"
    by auto
qed

lemma fewer_uses_fit:
  assumes "db_fits d" and "pc \<in> set (promo_codes d)" and "0 < pc_current_uses pc"
  shows "\<forall>q\<in>set (add_uses (pc_id pc) (- 1) (promo_codes d)). promo_code_fits q"
proof
  fix q
  assume "q \<in> set (add_uses (pc_id pc) (- 1) (promo_codes d))"
  then obtain r where r: "r \<in> set (promo_codes d)"
      "q = (if pc_id r = pc_id pc then r\<lparr>pc_current_uses := pc_current_uses r + - 1\<rparr> else r)"
    by (auto simp: add_uses_def modify_by_def)
  have "pc_id r = pc_id pc \<Longrightarrow> r = pc"
    using r(1) assms(2) db_fits_distinct(5) [OF assms(1)] by (metis distinct_find_by option.inject)
  moreover have "promo_code_fits r"
    using assms(1) r(1) by (simp add: db_fits_def promo_codes_fit_def)
  ultimately show "promo_code_fits q"
    using r(2) assms(3) by (auto simp: promo_code_fits_def fits_integer_def)
qed

lemma add_uses_codes [simp]: "map pc_code (add_uses k n rows) = map pc_code rows"
  by (simp add: add_uses_def modify_by_def comp_def if_distrib cong: if_cong)

lemma canceled_fits:
  assumes "db_fits d" and "od \<in> set (orders d)" and "cancel_order_body od d = Inr (oid, w)"
  shows "db_fits w \<longleftrightarrow> stock_room od d"
  using assms(3)
proof (cases rule: cancel_order_body_Inr)
  case (1 pcs)
  have keys: "map pc_id pcs = map pc_id (promo_codes d)" "map pc_code pcs = map pc_code (promo_codes d)"
    using 1(3) by auto
  have "\<forall>q\<in>set pcs. promo_code_fits q"
    using 1(3)
  proof (elim disjE bexE conjE)
    assume "pcs = promo_codes d"
    with assms(1) show ?thesis by (simp add: db_fits_def promo_codes_fit_def)
  next
    fix pc
    assume pc: "pc \<in> set (promo_codes d)" "0 < pc_current_uses pc"
      and moved: "pcs = add_uses (pc_id pc) (- 1) (promo_codes d)"
    show ?thesis unfolding moved by (rule fewer_uses_fit [OF assms(1) pc])
  qed
  then have codes: "promo_codes_fit w"
    using db_fits_distinct(5,6) [OF assms(1)] by (simp add: 1(2) promo_codes_fit_def keys)
  have items: "order_items_fit w"
  proof -
    have "map o_items (orders w) = map o_items (orders d)"
      unfolding 1(2) using replace_row_items [OF db_fits_distinct(4) [OF assms(1)] assms(2)] by simp
    moreover have "p_id ` set (products w) = p_id ` set (products d)"
      by (simp add: 1(2) restock_map image_image)
    ultimately show ?thesis using assms(1) unfolding db_fits_def order_items_fit_def by simp
  qed
  have "orders_fit w"
    unfolding 1(2) by (rule canceled_orders_fit [OF assms(1,2)]) (metis keys(1) list.set_map)
  moreover have "users_fit w" "user_operations_fit w"
    using assms(1) by (simp_all add: 1(2) db_fits_def users_fit_def user_operations_fit_def)
  moreover have "products_fit w \<longleftrightarrow> stock_room od d"
    unfolding 1(2) by (rule restocked_fit [OF assms(1)])
  ultimately show ?thesis using codes items by (simp add: db_fits_def)
qed

section \<open>The request\<close>

text \<open>On a database whose constraints hold, the work of a cancellation has no way to raise.\<close>

lemma cancel_order_body_runs:
  assumes "db_fits d"
  shows "\<exists>w. cancel_order_body od d = Inr (o_id od, w)"
proof (cases "o_promo_code_id od")
  case None
  then show ?thesis by (simp add: cancel_order_body_def)
next
  case (Some pid)
  have "one_or_none (filter (\<lambda>pc. pc_id pc = pid) (promo_codes d)) = Inr (find_by pc_id pid (promo_codes d))"
    by (rule one_or_none_key [OF db_fits_distinct(5) [OF assms]])
  with Some show ?thesis
    by (cases "find_by pc_id pid (promo_codes d)") (simp_all add: cancel_order_body_def Let_def)
qed

lemma order_result_runs:
  assumes "clean s" and "db_fits (durable s)" and "body (durable s) = Inr (oid, w)"
    and "find_by o_id oid (orders w) = Some od"
  shows "\<exists>s'. (if db_fits w
      then order_result (with_transaction now s body) = (Inr (to_order_response (touch_order now (orders (durable s)) od)), s') \<and>
        durable s' = touch now (durable s) w
      else order_result (with_transaction now s body) = (Inl DBAPIError, s') \<and> durable s' = durable s)"
proof -
  obtain r s1 where wt: "with_transaction now s body = (r, s1)" by force
  from with_transaction_eq [OF assms(1,2) wt] show ?thesis
    using assms(3,4) wt
    by (cases "db_fits w") (simp_all add: order_result_def refresh_def Let_def table_simps)
qed

lemma cancel_order_runs:
  assumes "clean s" and "db_fits (durable s)" and "od \<in> set (orders (durable s))"
    and "require_order_owner od u = Inr ()" and "o_status od \<in> {CREATED, PAYMENT_PENDING}"
  shows "\<exists>resp s'. (if stock_room od (durable s)
      then cancel_order clk (o_id od) u s = (Inr resp, s') \<and> or_id resp = o_id od \<and> or_status resp = ''CANCELED''
      else cancel_order clk (o_id od) u s = (Inl DBAPIError, s') \<and> durable s' = durable s)"
proof -
  let ?d = "durable s" and ?od = "od\<lparr>o_status := CANCELED\<rparr>"
  have found: "find_by o_id (o_id od) (orders ?d) = Some od"
    by (rule distinct_find_by [OF db_fits_distinct(4) [OF assms(2)] assms(3)])
  obtain w where body: "cancel_order_body od ?d = Inr (o_id od, w)"
    using cancel_order_body_runs [OF assms(2)] by blast
  then obtain pcs where "w = ?d\<lparr>products := restock (o_items od) (products ?d), orders := replace_by o_id ?od (orders ?d), promo_codes := pcs\<rparr>"
    by (rule cancel_order_body_Inr)
  then have "find_by o_id (o_id od) (orders w) = Some ?od" by (simp add: table_simps found)
  from order_result_runs [of "autobegin s" "cancel_order_body od" "o_id od" w ?od "db_now clk"] assms(1,2) body this
  obtain s' where run: "if db_fits w
      then order_result (with_transaction (db_now clk) (autobegin s) (cancel_order_body od)) =
        (Inr (to_order_response (touch_order (db_now clk) (orders ?d) ?od)), s')
      else order_result (with_transaction (db_now clk) (autobegin s) (cancel_order_body od)) = (Inl DBAPIError, s') \<and>
        durable s' = ?d"
    by (auto split: if_splits)
  have "cancel_order clk (o_id od) u s = order_result (with_transaction (db_now clk) (autobegin s) (cancel_order_body od))"
    using assms(5) by (simp add: cancel_order_def with_order_found [OF assms(1,2) found] assms(4))
  with run canceled_fits [OF assms(2,3) body] show ?thesis
    by (auto simp: to_order_response_def)
qed

text \<open>The owner of an order passes the guard of the request: roles of stored users never change.\<close>

lemma customer_passes:
  assumes "reachable D d" and "od \<in> set (orders d)"
    and "jwt_roundtrip (dp_jose D) (token_claims t0 (o_user_id od) role ''access'' delta) (jwt_secret_key (dp_settings D))"
    and "epoch_seconds (tk_auth_now t) \<le> epoch_seconds (t0 + delta)"
  shows "\<exists>u s. u_id u = o_user_id od \<and> clean s \<and> durable s = d \<and>
    run_guard D t (Some (create_token (dp_jose D) (dp_settings D) t0 (o_user_id od) role ''access'' delta))
      (endpoint_guard (CancelOrder oid)) (SessionLocal d) = (Inr u, s)"
proof -
  have dist: "distinct (map u_id (users d))" by (rule db_fits_distinct(1) [OF reachable_fits [OF assms(1)]])
  obtain u where u: "u \<in> set (users d)" "u_id u = o_user_id od" "u_role u \<in> {USER, ADMIN}"
    using customers_inv.reachable_inv [OF TrueI assms(1)] assms(2) by (auto simp: customers_ok_def)
  let ?s = "(autobegin (SessionLocal d))\<lparr>state_user_id := Some (u_id u)\<rparr>"
  have "find_by u_id (o_user_id od) (users d) = Some u"
    using distinct_find_by [OF dist u(1)] u(2) by simp
  from get_current_user_created [OF assms(3,4) this dist]
  have "run_guard D t (Some (create_token (dp_jose D) (dp_settings D) t0 (o_user_id od) role ''access'' delta))
      (endpoint_guard (CancelOrder oid)) (SessionLocal d) = (Inr u, ?s)"
    using u(3) by (auto simp: run_guard_def require_roles_def)
  moreover have "clean ?s" "durable ?s = d"
    by (simp_all add: clean_def SessionLocal_def autobegin_def)
  ultimately show ?thesis using u(2) by blast
qed

lemma no_active_left:
  assumes "reachable D d" and "od \<in> set (orders d)" and "o_status od \<in> {CREATED, PAYMENT_PENDING}"
    and "serve D t cred (AsUser (CancelOrder (o_id od))) d = (Inr rep, d')"
  shows "active_orders d' (o_user_id od) = []"
proof -
  have fits: "db_fits d" by (rule reachable_fits [OF assms(1)])
  obtain w old where old: "old \<in> set (orders d)" "o_id old = o_id od"
    and body: "cancel_order_body old d = Inr (o_id od, w)" and d': "d' = touch (db_now (tk_clock t)) d w"
    by (rule serve_cancel_order [OF fits assms(4)])
  have "old = od"
    using old assms(2) db_fits_distinct(4) [OF fits] by (metis distinct_find_by option.inject)
  with body obtain pcs where w: "orders w = replace_by o_id (od\<lparr>o_status := CANCELED\<rparr>) (orders d)"
    by (auto elim: cancel_order_body_Inr)
  let ?uid = "o_user_id od" and ?od = "od\<lparr>o_status := CANCELED\<rparr>"
  have "order_active ?uid od" "\<not> order_active ?uid ?od"
    using assms(3) by (simp_all add: order_active_def)
  moreover have "length (filter (order_active ?uid) (orders d)) \<le> 1"
    using one_active_inv.reachable_inv [OF TrueI assms(1)] by (simp add: one_active_all active_orders_filter)
  ultimately have "Suc (length (filter (order_active ?uid) (orders w))) \<le> 1"
    using count_replace [OF db_fits_distinct(4) [OF fits] assms(2), of ?od "order_active ?uid"] by (simp add: w)
  then show ?thesis
    by (simp add: d' active_orders_filter filter_map order_active_touch)
qed

text \<open>
  C30: In every state that requests can lead to, the owner of an open order can get out of it: a request
  to cancel it with a valid access token, whatever role the token claims, returns the order canceled, and
  the user has no active order any more and may place another. The only thing that can prevent it is a
  stock that would not fit its column with the items of the order back in it, and then the request fails
  and nothing changes.
\<close>

theorem open_order_can_be_canceled:
  assumes "reachable D d" and "od \<in> set (orders d)" and "o_status od \<in> {CREATED, PAYMENT_PENDING}"
    and "dp_validate D (AsUser (CancelOrder (o_id od))) = []"
    and "jwt_roundtrip (dp_jose D)
      (token_claims t0 (o_user_id od) role ''access'' (minutes (access_token_expires_minutes (dp_settings D))))
      (jwt_secret_key (dp_settings D))"
    and "epoch_seconds (tk_auth_now t) \<le> epoch_seconds (t0 + minutes (access_token_expires_minutes (dp_settings D)))"
    and "cred = Some (create_access_token (dp_jose D) (dp_settings D) t0 (o_user_id od) role)"
  shows "if \<forall>p\<in>set (products d). fits_integer (p_stock p + item_quantity_of (o_items od) (p_id p))
    then \<exists>resp d'. serve D t cred (AsUser (CancelOrder (o_id od))) d = (Inr (OneOrder resp), d') \<and>
      or_id resp = o_id od \<and> or_status resp = ''CANCELED'' \<and> active_orders d' (o_user_id od) = []
    else serve D t cred (AsUser (CancelOrder (o_id od))) d = (Inl DBAPIError, d)"
proof -
  obtain u s where u: "u_id u = o_user_id od" and s: "clean s" "durable s = d"
    and guard: "run_guard D t cred (endpoint_guard (CancelOrder (o_id od))) (SessionLocal d) = (Inr u, s)"
    using customer_passes [OF assms(1,2,5,6)] unfolding assms(7) create_access_token_def by blast
  have owner: "require_order_owner od u = Inr ()" by (simp add: require_order_owner_def u)
  obtain resp s' where run: "if stock_room od d
      then cancel_order (tk_clock t) (o_id od) u s = (Inr resp, s') \<and> or_id resp = o_id od \<and> or_status resp = ''CANCELED''
      else cancel_order (tk_clock t) (o_id od) u s = (Inl DBAPIError, s') \<and> durable s' = d"
    using cancel_order_runs [OF s(1) _ _ owner assms(3), of "tk_clock t"] reachable_fits [OF assms(1)] assms(2)
    unfolding s(2) by blast
  have serve: "serve D t cred (AsUser (CancelOrder (o_id od))) d =
      (case cancel_order (tk_clock t) (o_id od) u s of (r, s') \<Rightarrow> (map_sum id OneOrder r, durable s'))"
    using guard assms(4)
    by (simp add: serve_def get_db_def validated_def reply_with_def close_def split: prod.splits sum.splits)
  show ?thesis
  proof (cases "stock_room od d")
    case True
    with run serve have "serve D t cred (AsUser (CancelOrder (o_id od))) d = (Inr (OneOrder resp), durable s')" by simp
    from this no_active_left [OF assms(1,2,3) this] True run show ?thesis by (auto simp: stock_room_def)
  next
    case False
    with run serve show ?thesis by (auto simp: stock_room_def)
  qed
qed

theorem open_order_can_be_canceled_witness:
  "\<exists>resp d'. serve sample_deployment (sample_tick 20 ''x'' ''x'') (access_of ''u1'' ''USER'') (AsUser (CancelOrder ''o1'')) sample_state =
     (Inr (OneOrder resp), d') \<and> or_status resp = ''CANCELED'' \<and> active_orders d' ''u1'' = []"
proof -
  let ?od = "hd (orders sample_state)"
  have od: "?od \<in> set (orders sample_state)" "o_status ?od \<in> {CREATED, PAYMENT_PENDING}" "o_id ?od = ''o1''" "o_user_id ?od = ''u1''"
    by (simp_all add: sample_state_eq)
  have accepted: "dp_validate sample_deployment (AsUser (CancelOrder (o_id ?od))) = []"
    by (simp add: sample_deployment_def sample_validate_def)
  have jwt: "jwt_roundtrip (dp_jose sample_deployment) (token_claims 0 (o_user_id ?od) ''USER'' ''access''
      (minutes (access_token_expires_minutes (dp_settings sample_deployment)))) (jwt_secret_key (dp_settings sample_deployment))"
    using sample_jwt by (simp add: od(4) sample_deployment_def default_settings_def)
  have valid: "epoch_seconds (tk_auth_now (sample_tick 20 ''x'' ''x'')) \<le>
      epoch_seconds (0 + minutes (access_token_expires_minutes (dp_settings sample_deployment)))"
    by (simp add: sample_tick_def sample_deployment_def default_settings_def epoch_seconds_def minutes_def)
  have token: "access_of ''u1'' ''USER'' =
      Some (create_access_token (dp_jose sample_deployment) (dp_settings sample_deployment) 0 (o_user_id ?od) ''USER'')"
    unfolding od(4) by code_simp
  have room: "\<forall>p\<in>set (products sample_state). fits_integer (p_stock p + item_quantity_of (o_items ?od) (p_id p))"
    by (simp add: sample_state_eq item_quantity_of_def fits_integer_def)
  from open_order_can_be_canceled [OF sample_state_reachable od(1,2) accepted jwt valid token] room
  show ?thesis by (auto simp: od(3,4))
qed

end
