(* ===== verification/Concurrent_Orders.thy ===== *)
theory Concurrent_Orders
  imports Sample
begin

text \<open>
  The handlers of \<open>main.py\<close> that deal with orders and those that change a product, running at the same
  time. Each runs in a transaction of its own, at the isolation level READ COMMITTED, the default of
  PostgreSQL, which \<open>core/db.py\<close> does not change: every statement sees what is committed when it runs, a row
  selected \<open>FOR UPDATE\<close> is locked until the end of the transaction, a row that another transaction has
  locked cannot be written before that, and writes become visible together when their transaction
  commits. A run is any sequence of statements of the transactions. The computation between the
  statements is that of the handlers, the same functions as for requests one after the other, over what
  the transaction has read. Two simplifications lose no run: the rows of the statement that locks are
  locked at once (PostgreSQL takes them one by one and may break a deadlock with an exception, which
  changes nothing), and a request that is refused is refused by its last statement, from the same data (it
  changes nothing when it stops earlier).
\<close>

section \<open>Transactions\<close>

datatype shop_op =
    CreateOp order_create_request
  | UpdateOp uuid "order_item_create list"
  | CancelOp uuid
  | ReviseOp uuid product_update
  | ArchiveOp uuid

datatype statement =
    SelectUser | SelectOperations | SelectOrders | SelectItems | SelectProduct | LockProducts | SelectPromoCode | FlushCommit

text \<open>
  A transaction with what it has read so far, the statements to come, the products it has locked, and its
  result: an exception or the order. \<open>db_now\<close> of its clock is the start of the transaction.
\<close>

record shop_txn =
  tx_user :: user
  tx_op :: shop_op
  tx_clock :: clock
  tx_ids :: new_ids
  tx_view :: db
  tx_left :: "statement list"
  tx_locks :: "uuid list"
  tx_result :: "(exn + uuid) option"

record shop =
  committed :: db
  running :: "shop_txn list"

text \<open>
  The statements in the order of each handler. The first statement is that of the dependency that reads the user; \<open>order.items\<close> is
  read when it is first used; the promo code is read after the products are locked, without a lock.
\<close>

fun statements_of :: "shop_op \<Rightarrow> statement list" where
  "statements_of (CreateOp p) = [SelectUser, SelectOperations, SelectOrders, LockProducts, SelectPromoCode, FlushCommit]"
| "statements_of (UpdateOp oid items) =
     [SelectUser, SelectOrders, SelectOperations, SelectItems, LockProducts, SelectPromoCode, FlushCommit]"
| "statements_of (CancelOp oid) = [SelectUser, SelectOrders, SelectItems, LockProducts, SelectPromoCode, FlushCommit]"
| "statements_of (ReviseOp pid upd) = [SelectUser, SelectProduct, FlushCommit]"
| "statements_of (ArchiveOp pid) = [SelectUser, SelectProduct, FlushCommit]"

definition begin_txn :: "user \<Rightarrow> clock \<Rightarrow> new_ids \<Rightarrow> shop_op \<Rightarrow> shop_txn" where
  "begin_txn u clk ids op =
     \<lparr>tx_user = u, tx_op = op, tx_clock = clk, tx_ids = ids, tx_view = empty_db, tx_left = statements_of op,
      tx_locks = [], tx_result = None\<rparr>"

section \<open>What a transaction computes\<close>

text \<open>The checks before the transaction block of the handlers that change an order.\<close>

definition locate_order :: "uuid \<Rightarrow> user \<Rightarrow> order_status set \<Rightarrow> db \<Rightarrow> exn + order_row" where
  "locate_order oid u allowed d =
     (case one_or_none (filter (\<lambda>od. o_id od = oid) (orders d)) of
        Inl e \<Rightarrow> Inl e
      | Inr None \<Rightarrow> Inl (ApiError ''ORDER_NOT_FOUND'' 404 ''Order not found'' None)
      | Inr (Some od) \<Rightarrow>
          (case require_order_owner od u of
             Inl e \<Rightarrow> Inl e
           | Inr _ \<Rightarrow>
               if o_status od \<notin> allowed
               then Inl (ApiError ''INVALID_STATE_TRANSITION'' 409 ''Invalid state transition'' None)
               else Inr od))"

definition on_order :: "exn + order_row \<Rightarrow> (order_row \<Rightarrow> exn + 'a) \<Rightarrow> exn + 'a" where
  "on_order r f = (case r of Inl e \<Rightarrow> Inl e | Inr od \<Rightarrow> f od)"

text \<open>The product that a seller changes or archives, and what the change is.\<close>

definition on_product ::
  "uuid \<Rightarrow> user \<Rightarrow> (product \<Rightarrow> exn + product) \<Rightarrow> db \<Rightarrow> exn + uuid \<times> db" where
  "on_product pid u change d =
     (case one_or_none (filter (\<lambda>p. p_id p = pid) (products d)) of
        Inl e \<Rightarrow> Inl e
      | Inr None \<Rightarrow> Inl (ApiError ''PRODUCT_NOT_FOUND'' 404 ''Product not found'' None)
      | Inr (Some p) \<Rightarrow>
          (case require_product_owner p u of
             Inl e \<Rightarrow> Inl e
           | Inr _ \<Rightarrow> (case change p of Inl e \<Rightarrow> Inl e | Inr p' \<Rightarrow> Inr (pid, put_product p' d))))"

definition revised :: "(money \<Rightarrow> money) \<Rightarrow> product_update \<Rightarrow> product \<Rightarrow> exn + product" where
  "revised numeric upd p =
     (case updated_status upd of
        Inl e \<Rightarrow> Inl e
      | Inr status \<Rightarrow> (case updated_product numeric upd status p of None \<Rightarrow> Inl DBAPIError | Some p' \<Rightarrow> Inr p'))"

definition txn_work :: "settings \<Rightarrow> (money \<Rightarrow> money) \<Rightarrow> shop_txn \<Rightarrow> exn + uuid \<times> db" where
  "txn_work cfg numeric tx =
     (let v = tx_view tx; u = tx_user tx in
      case tx_op tx of
        CreateOp p \<Rightarrow> create_order_body cfg numeric (tx_clock tx) (tx_ids tx) p u v
      | UpdateOp oid items \<Rightarrow>
          on_order (locate_order oid u {CREATED} v)
            (\<lambda>od. update_order_body cfg numeric (tx_clock tx) (tx_ids tx) items u od v)
      | CancelOp oid \<Rightarrow>
          on_order (locate_order oid u {CREATED, PAYMENT_PENDING} v) (\<lambda>od. cancel_order_body od v)
      | ReviseOp pid upd \<Rightarrow> on_product pid u (revised numeric upd) v
      | ArchiveOp pid \<Rightarrow> on_product pid u (\<lambda>p. Inr (p\<lparr>p_status := ARCHIVED\<rparr>)) v)"

text \<open>The products of the statement with \<open>with_for_update()\<close>: requested ones and those of the order's items.\<close>

definition viewed_items :: "uuid \<Rightarrow> db \<Rightarrow> order_item list" where
  "viewed_items oid v = (case find_by o_id oid (orders v) of None \<Rightarrow> [] | Some od \<Rightarrow> o_items od)"

definition lock_ids :: "shop_txn \<Rightarrow> uuid list" where
  "lock_ids tx =
     (case tx_op tx of
        CreateOp p \<Rightarrow> map fst (requested_quantities (ocr_items p))
      | UpdateOp oid items \<Rightarrow> map fst (requested_quantities items) @ map oi_product_id (viewed_items oid (tx_view tx))
      | CancelOp oid \<Rightarrow> map oi_product_id (viewed_items oid (tx_view tx))
      | _ \<Rightarrow> [])"

text \<open>An order operation locks the products it is about, a product operation reads them without a lock.\<close>

fun product_op :: "shop_op \<Rightarrow> bool" where
  "product_op (ReviseOp pid upd) = True"
| "product_op (ArchiveOp pid) = True"
| "product_op _ = False"

lemma product_op_locks: "product_op (tx_op tx) \<Longrightarrow> lock_ids tx = []"
  by (cases "tx_op tx") (simp_all add: lock_ids_def)

section \<open>What a flush writes\<close>

text \<open>
  A flush inserts the new rows and updates, by key, the columns whose values differ from the ones that were
  read: \<open>old\<close> is the value read, \<open>new\<close> the value of the object, \<open>cur\<close> the one in the database now.
  \<open>updated_at\<close> is set with any other column of a product or order. New items replace those that were read.
\<close>

definition column :: "'v \<Rightarrow> 'v \<Rightarrow> 'v \<Rightarrow> 'v" where
  "column old new cur = (if new = old then cur else new)"

definition write_product :: "instant \<Rightarrow> product list \<Rightarrow> product list \<Rightarrow> product \<Rightarrow> product" where
  "write_product now old new p =
     (case (find_by p_id (p_id p) old, find_by p_id (p_id p) new) of
        (Some v, Some w) \<Rightarrow>
          if w = v then p
          else p\<lparr>p_name := column (p_name v) (p_name w) (p_name p),
                 p_description := column (p_description v) (p_description w) (p_description p),
                 p_price := column (p_price v) (p_price w) (p_price p),
                 p_stock := column (p_stock v) (p_stock w) (p_stock p),
                 p_category := column (p_category v) (p_category w) (p_category p),
                 p_status := column (p_status v) (p_status w) (p_status p), p_updated_at := now\<rparr>
      | _ \<Rightarrow> p)"

definition write_promo_code :: "promo_code list \<Rightarrow> promo_code list \<Rightarrow> promo_code \<Rightarrow> promo_code" where
  "write_promo_code old new pc =
     (case (find_by pc_id (pc_id pc) old, find_by pc_id (pc_id pc) new) of
        (Some v, Some w) \<Rightarrow> pc\<lparr>pc_current_uses := column (pc_current_uses v) (pc_current_uses w) (pc_current_uses pc)\<rparr>
      | _ \<Rightarrow> pc)"

definition replaced_items :: "order_item list \<Rightarrow> order_item list \<Rightarrow> order_item list \<Rightarrow> order_item list" where
  "replaced_items old new cur =
     (if new = old then cur else filter (\<lambda>it. oi_id it \<notin> oi_id ` set old) cur @ new)"

definition write_order_row :: "instant \<Rightarrow> order_row list \<Rightarrow> order_row list \<Rightarrow> order_row \<Rightarrow> order_row" where
  "write_order_row now old new od =
     (case (find_by o_id (o_id od) old, find_by o_id (o_id od) new) of
        (Some v, Some w) \<Rightarrow>
          od\<lparr>o_status := column (o_status v) (o_status w) (o_status od),
             o_promo_code_id := column (o_promo_code_id v) (o_promo_code_id w) (o_promo_code_id od),
             o_total_amount := column (o_total_amount v) (o_total_amount w) (o_total_amount od),
             o_discount_amount := column (o_discount_amount v) (o_discount_amount w) (o_discount_amount od),
             o_items := replaced_items (o_items v) (o_items w) (o_items od),
             o_updated_at := (if order_columns w = order_columns v then o_updated_at od else now)\<rparr>
      | _ \<Rightarrow> od)"

text \<open>The bodies add rows at the end: what is behind the rows that were read is new.\<close>

definition write_back :: "instant \<Rightarrow> db \<Rightarrow> db \<Rightarrow> db \<Rightarrow> db" where
  "write_back now v w d =
     d\<lparr>products := map (write_product now (products v) (products w)) (products d),
       orders := map (write_order_row now (orders v) (orders w)) (orders d) @ drop (length (orders v)) (orders w),
       promo_codes := map (write_promo_code (promo_codes v) (promo_codes w)) (promo_codes d),
       user_operations := user_operations d @ drop (length (user_operations v)) (user_operations w)\<rparr>"

text \<open>The products that a flush updates.\<close>

definition written_products :: "db \<Rightarrow> db \<Rightarrow> uuid list" where
  "written_products v w = map p_id (filter (\<lambda>q. find_by p_id (p_id q) (products v) \<noteq> Some q) (products w))"

section \<open>Statements\<close>

definition read :: "(db \<Rightarrow> db \<Rightarrow> db) \<Rightarrow> db \<Rightarrow> shop_txn \<Rightarrow> shop_txn" where
  "read f d tx = tx\<lparr>tx_view := f d (tx_view tx), tx_left := tl (tx_left tx)\<rparr>"

definition load_items :: "db \<Rightarrow> order_row \<Rightarrow> order_row" where
  "load_items d od = (case find_by o_id (o_id od) (orders d) of None \<Rightarrow> od | Some cur \<Rightarrow> od\<lparr>o_items := o_items cur\<rparr>)"

definition finish :: "exn + uuid \<Rightarrow> shop_txn \<Rightarrow> shop_txn" where
  "finish r tx = tx\<lparr>tx_left := [], tx_locks := [], tx_result := Some r\<rparr>"

lemma finish_fields [simp]:
  "tx_locks (finish r tx) = []" "tx_left (finish r tx) = []" "tx_result (finish r tx) = Some r"
  "tx_op (finish r tx) = tx_op tx" "tx_view (finish r tx) = tx_view tx"
  by (simp_all add: finish_def)

text \<open>
  A lock is taken on the rows that are there, once nobody else holds one of them; until then the
  transaction waits. So does a flush that writes a row which somebody else has locked. A commit writes
  all or, when a constraint is broken, nothing.
\<close>

definition others_lock :: "shop_txn list \<Rightarrow> nat \<Rightarrow> uuid \<Rightarrow> bool" where
  "others_lock txs i k \<longleftrightarrow> list_ex (\<lambda>j. j \<noteq> i \<and> k \<in> set (tx_locks (txs ! j))) [0..<length txs]"

fun run_statement ::
  "settings \<Rightarrow> (money \<Rightarrow> money) \<Rightarrow> shop_txn list \<Rightarrow> nat \<Rightarrow> statement \<Rightarrow> db \<Rightarrow> shop_txn \<Rightarrow> db \<times> shop_txn" where
  "run_statement cfg numeric txs i SelectUser d tx = (d, read (\<lambda>d v. v\<lparr>users := users d\<rparr>) d tx)"
| "run_statement cfg numeric txs i SelectOperations d tx =
     (d, read (\<lambda>d v. v\<lparr>user_operations := user_operations d\<rparr>) d tx)"
| "run_statement cfg numeric txs i SelectOrders d tx = (d, read (\<lambda>d v. v\<lparr>orders := orders d\<rparr>) d tx)"
| "run_statement cfg numeric txs i SelectItems d tx =
     (d, read (\<lambda>d v. v\<lparr>orders := map (load_items d) (orders v)\<rparr>) d tx)"
| "run_statement cfg numeric txs i SelectProduct d tx = (d, read (\<lambda>d v. v\<lparr>products := products d\<rparr>) d tx)"
| "run_statement cfg numeric txs i LockProducts d tx =
     (let ids = filter (\<lambda>k. k \<in> p_id ` set (products d)) (lock_ids tx) in
      if list_ex (others_lock txs i) ids then (d, tx)
      else (d, (read (\<lambda>d v. v\<lparr>products := products d\<rparr>) d tx)\<lparr>tx_locks := ids\<rparr>))"
| "run_statement cfg numeric txs i SelectPromoCode d tx = (d, read (\<lambda>d v. v\<lparr>promo_codes := promo_codes d\<rparr>) d tx)"
| "run_statement cfg numeric txs i FlushCommit d tx =
     (case txn_work cfg numeric tx of
        Inl e \<Rightarrow> (d, finish (Inl e) tx)
      | Inr (oid, w) \<Rightarrow>
          if list_ex (others_lock txs i) (written_products (tx_view tx) w) then (d, tx)
          else
            (let d' = write_back (db_now (tx_clock tx)) (tx_view tx) w d in
             if db_fits d' then (d', finish (Inr oid) tx) else (d, finish (Inl DBAPIError) tx)))"

definition step :: "settings \<Rightarrow> (money \<Rightarrow> money) \<Rightarrow> nat \<Rightarrow> shop \<Rightarrow> shop" where
  "step cfg numeric i S =
     (if i < length (running S)
      then
        (case tx_left (running S ! i) of
           [] \<Rightarrow> S
         | st # _ \<Rightarrow>
             (case run_statement cfg numeric (running S) i st (committed S) (running S ! i) of
                (d, tx) \<Rightarrow> \<lparr>committed = d, running = (running S)[i := tx]\<rparr>))
      else S)"

text \<open>A run: the number of the transaction whose statement is next, over and over.\<close>

definition run_schedule :: "settings \<Rightarrow> (money \<Rightarrow> money) \<Rightarrow> nat list \<Rightarrow> shop \<Rightarrow> shop" where
  "run_schedule cfg numeric schedule S = fold (step cfg numeric) schedule S"

definition open_shop :: "db \<Rightarrow> shop_txn list \<Rightarrow> shop" where
  "open_shop d txs = \<lparr>committed = d, running = txs\<rparr>"

section \<open>What a transaction moves\<close>

text \<open>Payloads as they are validated: requested quantities are positive, a stock that is set is not negative.\<close>

fun op_ok :: "shop_op \<Rightarrow> bool" where
  "op_ok (CreateOp p) = (\<forall>item\<in>set (ocr_items p). 1 \<le> oc_quantity item)"
| "op_ok (UpdateOp oid items) = (\<forall>item\<in>set items. 1 \<le> oc_quantity item)"
| "op_ok (CancelOp oid) = True"
| "op_ok (ReviseOp pid upd) = given (\<lambda>n. 0 \<le> n) (up_stock upd)"
| "op_ok (ArchiveOp pid) = True"

fun sets_stock :: "shop_op \<Rightarrow> uuid \<Rightarrow> bool" where
  "sets_stock (ReviseOp pid upd) k = (pid = k \<and> up_stock upd \<noteq> None)"
| "sets_stock _ k = False"

definition moved :: "shop_txn \<Rightarrow> uuid \<Rightarrow> int" where
  "moved tx k =
     (case tx_op tx of
        CreateOp p \<Rightarrow> - quantity_of (ocr_items p) k
      | UpdateOp oid items \<Rightarrow> item_quantity_of (viewed_items oid (tx_view tx)) k - quantity_of items k
      | CancelOp oid \<Rightarrow> item_quantity_of (viewed_items oid (tx_view tx)) k
      | _ \<Rightarrow> 0)"

lemma item_quantity_of_absent: "k \<notin> oi_product_id ` set items \<Longrightarrow> item_quantity_of items k = 0"
  unfolding item_quantity_of_def by (rule sum_list_absent) auto

lemma moved_unlocked: "k \<notin> set (lock_ids tx) \<Longrightarrow> moved tx k = 0"
  by (auto simp: moved_def lock_ids_def quantity_of_absent item_quantity_of_absent split: shop_op.splits)

lemma product_op_moved: "product_op (tx_op tx) \<Longrightarrow> moved tx k = 0"
  by (rule moved_unlocked) (simp add: product_op_locks)

lemma one_or_none_find:
  "one_or_none (filter (\<lambda>r. key r = k) rows) = Inr (Some r) \<Longrightarrow> find_by key k rows = Some r"
  by (induction rows) (auto simp: one_or_none_def split: if_splits list.splits)

lemma locate_order_Inr:
  assumes "locate_order oid u allowed v = Inr od"
  shows "od \<in> set (orders v)" and "o_id od = oid" and "viewed_items oid v = o_items od"
    and "require_order_owner od u = Inr ()" and "o_status od \<in> allowed"
  using assms
  by (auto simp: locate_order_def viewed_items_def dest: one_or_none_find one_or_none_SomeD
      split: sum.splits option.splits if_splits)

lemma on_product_Inr:
  assumes "on_product pid u change d = Inr (oid, w)"
  obtains p p' where "find_by p_id pid (products d) = Some p" and "p_id p = pid" and "change p = Inr p'"
    and "w = put_product p' d"
  using assms by (auto simp: on_product_def dest: one_or_none_find one_or_none_SomeD split: sum.splits option.splits)

text \<open>What no operation on a product changes.\<close>

definition same_origin :: "product \<Rightarrow> product \<Rightarrow> bool" where
  "same_origin p q \<longleftrightarrow> p_id q = p_id p \<and> p_seller_id q = p_seller_id p \<and> p_created_at q = p_created_at p \<and>
     p_updated_at q = p_updated_at p"

lemma same_origin_refl [simp]: "same_origin p p"
  by (simp add: same_origin_def)

lemma revised_Inr:
  assumes "revised numeric upd p = Inr p'"
  shows "same_origin p p'" and "up_stock upd = None \<Longrightarrow> p_stock p' = p_stock p"
    and "given (\<lambda>n. 0 \<le> n) (up_stock upd) \<Longrightarrow> 0 \<le> p_stock p \<Longrightarrow> 0 \<le> p_stock p'"
  using assms
  by (auto simp: revised_def updated_product_def set_column_def same_origin_def given_def split: sum.splits option.splits)

text \<open>The products of a body that succeeds, by the kind of the transaction.\<close>

lemma txn_work_Inr:
  assumes "txn_work cfg numeric tx = Inr (oid, w)"
  obtains (create) p od where "tx_op tx = CreateOp p"
      and "products w = deduct_stock (requested_quantities (ocr_items p)) (products (tx_view tx))"
      and "\<forall>item\<in>set (ocr_items p). \<exists>q. find_by p_id (oc_product_id item) (products (tx_view tx)) = Some q \<and>
             p_status q = ACTIVE \<and> quantity_of (ocr_items p) (oc_product_id item) \<le> p_stock q"
      and "orders w = orders (tx_view tx) @ [od]"
      and "o_items od = made_items numeric (product_in (products (tx_view tx))) (new_item_id (tx_ids tx)) 0 (ocr_items p)"
    | (update) items od od' where "tx_op tx = UpdateOp (o_id od) items"
      and "products w = deduct_stock (requested_quantities items) (restock (o_items od) (products (tx_view tx)))"
      and "\<forall>item\<in>set items. \<exists>q. find_by p_id (oc_product_id item) (restock (o_items od) (products (tx_view tx))) = Some q \<and>
             p_status q = ACTIVE \<and> quantity_of items (oc_product_id item) \<le> p_stock q"
      and "od \<in> set (orders (tx_view tx))" "viewed_items (o_id od) (tx_view tx) = o_items od"
      and "orders w = replace_by o_id od' (orders (tx_view tx))"
      and "o_items od' = made_items numeric (product_in (products (tx_view tx))) (new_item_id (tx_ids tx)) 0 items"
    | (cancel) od od' where "tx_op tx = CancelOp (o_id od)"
      and "products w = restock (o_items od) (products (tx_view tx))"
      and "od \<in> set (orders (tx_view tx))" "viewed_items (o_id od) (tx_view tx) = o_items od"
      and "orders w = replace_by o_id od' (orders (tx_view tx))" and "o_items od' = o_items od"
    | (product) p p' where "w = put_product p' (tx_view tx)"
      and "find_by p_id (p_id p) (products (tx_view tx)) = Some p" and "same_origin p p'"
      and "op_ok (tx_op tx) \<Longrightarrow> 0 \<le> p_stock p \<Longrightarrow> 0 \<le> p_stock p'"
      and "\<not> sets_stock (tx_op tx) (p_id p) \<Longrightarrow> p_stock p' = p_stock p" and "product_op (tx_op tx)"
proof (cases "tx_op tx")
  case (CreateOp p)
  with assms have "create_order_body cfg numeric (tx_clock tx) (tx_ids tx) p (tx_user tx) (tx_view tx) = Inr (oid, w)"
    by (simp add: txn_work_def)
  then show thesis
    by (rule create_order_rows) (rule create [OF CreateOp])
next
  case (UpdateOp oid' items)
  with assms obtain od where l: "locate_order oid' (tx_user tx) {CREATED} (tx_view tx) = Inr od"
    and b: "update_order_body cfg numeric (tx_clock tx) (tx_ids tx) items (tx_user tx) od (tx_view tx) = Inr (oid, w)"
    by (auto simp: txn_work_def on_order_def Let_def split: sum.splits)
  from b show thesis
    by (rule update_order_rows) (rule update, use UpdateOp locate_order_Inr [OF l] in auto)
next
  case (CancelOp oid')
  with assms obtain od where l: "locate_order oid' (tx_user tx) {CREATED, PAYMENT_PENDING} (tx_view tx) = Inr od"
    and b: "cancel_order_body od (tx_view tx) = Inr (oid, w)"
    by (auto simp: txn_work_def on_order_def Let_def split: sum.splits)
  from b show thesis
    by (rule cancel_order_body_Inr) (rule cancel [of _ "od\<lparr>o_status := CANCELED\<rparr>"], use CancelOp locate_order_Inr [OF l] in auto)
next
  case (ReviseOp pid upd)
  with assms have "on_product pid (tx_user tx) (revised numeric upd) (tx_view tx) = Inr (oid, w)"
    by (simp add: txn_work_def Let_def)
  then obtain p p' where "find_by p_id pid (products (tx_view tx)) = Some p" "p_id p = pid"
    "revised numeric upd p = Inr p'" "w = put_product p' (tx_view tx)"
    by (rule on_product_Inr)
  with ReviseOp show thesis
    by (intro product [of p' p]) (auto dest: revised_Inr)
next
  case (ArchiveOp pid)
  with assms have "on_product pid (tx_user tx) (\<lambda>p. Inr (p\<lparr>p_status := ARCHIVED\<rparr>)) (tx_view tx) = Inr (oid, w)"
    by (simp add: txn_work_def Let_def)
  then obtain p p' where "find_by p_id pid (products (tx_view tx)) = Some p" "p_id p = pid"
    "Inr (p\<lparr>p_status := ARCHIVED\<rparr>) = (Inr p' :: exn + product)" "w = put_product p' (tx_view tx)"
    by (rule on_product_Inr) auto
  with ArchiveOp show thesis
    by (intro product [of p' p]) (auto simp: same_origin_def)
qed

text \<open>Whatever the body does, it moves stock of the products it has read by what the transaction is for.\<close>

lemma txn_work_stock:
  assumes "txn_work cfg numeric tx = Inr (oid, w)" and "\<not> sets_stock (tx_op tx) k" and "k \<in> p_id ` set (products (tx_view tx))"
  shows "stock_of (products w) k = stock_of (products (tx_view tx)) k + moved tx k"
  using assms(1)
proof (cases rule: txn_work_Inr)
  case (create p od)
  with assms(3) show ?thesis by (simp add: moved_def stock_deduct)
next
  case (update items od od')
  have "k \<in> p_id ` set (restock (o_items od) (products (tx_view tx)))"
    using assms(3) same_rows_keys [OF restock_same] by (metis set_map)
  with update assms(3) show ?thesis by (simp add: moved_def stock_deduct stock_restock)
next
  case (cancel od od')
  with assms(3) show ?thesis by (simp add: moved_def stock_restock)
next
  case (product p p')
  with assms(2) show ?thesis
    by (cases "k = p_id p") (simp_all add: product_op_moved stock_of_def put_product_def find_by_replace_by same_origin_def)
qed

lemma txn_work_keys:
  assumes "txn_work cfg numeric tx = Inr (oid, w)"
  shows "map p_id (products w) = map p_id (products (tx_view tx))"
  using assms
  by (cases rule: txn_work_Inr)
    (simp_all add: same_rows_keys [OF deduct_stock_same] same_rows_keys [OF restock_same] put_product_def)

lemma txn_work_origin:
  assumes "txn_work cfg numeric tx = Inr (oid, w)" and "distinct (map p_id (products (tx_view tx)))"
  shows "list_all2 same_origin (products (tx_view tx)) (products w)"
proof -
  have weaker: "same_but_stock p q \<Longrightarrow> same_origin p q" for p q by (simp add: same_origin_def same_but_stockD)
  note rows = list_all2_mono [OF _ weaker]
  from assms(1) show ?thesis
  proof (cases rule: txn_work_Inr)
    case (create p od)
    then show ?thesis using rows [OF deduct_stock_same] by simp
  next
    case (update items od od')
    then show ?thesis
      using rows [OF list_all2_trans [OF same_but_stock_trans restock_same deduct_stock_same]] by simp
  next
    case (cancel od od')
    then show ?thesis using rows [OF restock_same] by simp
  next
    case (product p p')
    have row: "same_origin q (if p_id q = p_id p' then p' else q)" if "q \<in> set (products (tx_view tx))" for q
    proof (cases "p_id q = p_id p'")
      case True
      with product(2,3) distinct_find_by [OF assms(2) that] have "q = p" by (simp add: same_origin_def)
      with True product(3) show ?thesis by simp
    qed simp
    have "products w = map (\<lambda>q. if p_id q = p_id p' then p' else q) (products (tx_view tx))"
      by (simp add: product(1) put_product_def replace_by_def modify_by_def)
    then show ?thesis unfolding list_all2_conv_all_nth by (simp add: row)
  qed
qed

text \<open>The quantities of stored orders are positive.\<close>

definition items_ok :: "order_row list \<Rightarrow> bool" where
  "items_ok ods \<longleftrightarrow> (\<forall>od\<in>set ods. \<forall>it\<in>set (o_items od). 1 \<le> oi_quantity it)"

lemma made_items_ok:
  "(\<And>item. item \<in> set items \<Longrightarrow> 1 \<le> oc_quantity item) \<Longrightarrow> it \<in> set (made_items numeric m gen k items) \<Longrightarrow> 1 \<le> oi_quantity it"
  by (auto elim!: made_items_mem)

lemma txn_work_items:
  assumes "txn_work cfg numeric tx = Inr (oid, w)" and "op_ok (tx_op tx)" and "items_ok (orders (tx_view tx))"
  shows "items_ok (orders w)"
  using assms(1)
proof (cases rule: txn_work_Inr)
  case (create p od)
  with assms(2,3) made_items_ok [of "ocr_items p"] show ?thesis by (auto simp: items_ok_def)
next
  case (update items od od')
  with assms(2,3) made_items_ok [of items] show ?thesis
    by (auto simp: items_ok_def replace_by_set split: if_splits)
next
  case (cancel od od')
  with assms(3) show ?thesis by (auto simp: items_ok_def replace_by_set split: if_splits)
next
  case (product p p')
  with assms(3) show ?thesis by (simp add: put_product_def)
qed

lemma txn_work_nonneg:
  assumes "txn_work cfg numeric tx = Inr (oid, w)" and "items_ok (orders (tx_view tx))" and "op_ok (tx_op tx)"
    and "distinct (map p_id (products (tx_view tx)))" and "\<forall>p\<in>set (products (tx_view tx)). 0 \<le> p_stock p"
  shows "\<forall>p\<in>set (products w). 0 \<le> p_stock p"
  using assms(1)
proof (cases rule: txn_work_Inr)
  case (create p od)
  show ?thesis unfolding create(2) by (rule deduct_stock_nonneg [OF assms(4,5) create(3)])
next
  case (update items od od')
  have "\<forall>it\<in>set (o_items od). 0 \<le> oi_quantity it" using assms(2) update(4) by (fastforce simp: items_ok_def)
  note stock = restock_nonneg [OF assms(5) this]
  have "distinct (map p_id (restock (o_items od) (products (tx_view tx))))"
    using assms(4) by (simp add: same_rows_keys [OF restock_same])
  with stock update(3) show ?thesis unfolding update(2) by (intro deduct_stock_nonneg)
next
  case (cancel od od')
  have "\<forall>it\<in>set (o_items od). 0 \<le> oi_quantity it" using assms(2) cancel(3) by (fastforce simp: items_ok_def)
  with assms(5) show ?thesis unfolding cancel(2) by (intro restock_nonneg)
next
  case (product p p')
  then have "0 \<le> p_stock p'" using assms(3,5) by (auto dest: find_by_SomeD)
  with product(1) assms(5) show ?thesis by (auto simp: put_product_def replace_by_set split: if_splits)
qed

section \<open>What a commit does to the tables\<close>

lemma write_product_key [simp]: "p_id (write_product now old new p) = p_id p"
  by (simp add: write_product_def split: option.splits)

lemma write_back_keys [simp]: "map p_id (products (write_back now v w d)) = map p_id (products d)"
  by (simp add: write_back_def)

lemma write_back_lookup:
  "find_by p_id k (products (write_back now v w d)) =
    map_option (write_product now (products v) (products w)) (find_by p_id k (products d))"
  by (simp add: write_back_def find_by_map)

lemma write_back_stock:
  assumes "map p_id (products w) = map p_id (products v)" and "k \<in> p_id ` set (products v)"
    and "k \<in> p_id ` set (products d)"
  shows "stock_of (products (write_back now v w d)) k =
    (if stock_of (products w) k = stock_of (products v) k then stock_of (products d) k else stock_of (products w) k)"
proof -
  have "k \<in> p_id ` set (products w)" using assms(1,2) by (metis set_map)
  with assms(2,3) obtain p a b where p: "find_by p_id k (products d) = Some p" "p_id p = k"
    and "find_by p_id k (products v) = Some a" "find_by p_id k (products w) = Some b"
    by (auto simp: find_by_in_keys dest: find_by_SomeD)
  then show ?thesis
    by (simp add: stock_of_def write_back_lookup write_product_def column_def)
qed

text \<open>A row that a flush does not write stays as it is.\<close>

lemma unwritten_row:
  assumes "k \<notin> set (written_products v w)"
  shows "find_by p_id k (products (write_back now v w d)) = find_by p_id k (products d)"
proof (cases "find_by p_id k (products d)")
  case (Some p)
  then have p: "p_id p = k" by (auto dest: find_by_SomeD)
  have "write_product now (products v) (products w) p = p"
  proof (cases "find_by p_id k (products w)")
    case (Some q)
    then have "q \<in> set (products w)" "p_id q = k" by (auto dest: find_by_SomeD)
    with assms have "find_by p_id k (products v) = Some q" by (auto simp: written_products_def)
    with Some p show ?thesis by (simp add: write_product_def)
  qed (simp add: write_product_def p split: option.splits)
  with Some show ?thesis by (simp add: write_back_lookup)
qed (simp add: write_back_lookup)

lemma write_back_items:
  assumes "items_ok (orders d)" and "items_ok (orders w)"
  shows "items_ok (orders (write_back now v w d))"
proof -
  have "1 \<le> oi_quantity it" if "od \<in> set (orders d)" "it \<in> set (o_items (write_order_row now (orders v) (orders w) od))" for od it
  proof (cases "find_by o_id (o_id od) (orders w)")
    case None
    with that assms(1) show ?thesis by (auto simp: write_order_row_def items_ok_def split: option.splits)
  next
    case (Some b)
    then have "b \<in> set (orders w)" by (auto dest: find_by_SomeD)
    with that assms Some show ?thesis
      by (auto simp: write_order_row_def replaced_items_def items_ok_def split: option.splits if_splits)
  qed
  then show ?thesis
    using assms(2) by (auto simp: write_back_def items_ok_def dest: in_set_dropD)
qed

end
