(* ===== verification/Interleaving.thy ===== *)
theory Interleaving
  imports Prelude
begin

text \<open>
  Runs of several requests at the same time: a schedule says whose next step is taken, over and over. The
  interface is what every step keeps, whoever takes it; the turns of one of them in a schedule are counted.
\<close>

locale interleaving_invariant =
  fixes step :: "nat \<Rightarrow> 's \<Rightarrow> 's" and inv :: "'s \<Rightarrow> bool"
  assumes step_keeps: "inv S \<Longrightarrow> inv (step i S)"
begin

lemma schedule_keeps: "inv S \<Longrightarrow> inv (fold step schedule S)"
  by (induction schedule arbitrary: S) (auto intro: step_keeps)

end

text \<open>
  Where every turn of a request that is not over brings it closer to its end, and no turn of another one
  takes it further away, enough turns end it.
\<close>

locale interleaving_progress =
  fixes step :: "nat \<Rightarrow> 's \<Rightarrow> 's" and left :: "nat \<Rightarrow> 's \<Rightarrow> nat"
  assumes own_turn: "left i (step i S) \<le> left i S - 1"
    and other_turn: "i \<noteq> j \<Longrightarrow> left i (step j S) \<le> left i S"
begin

lemma turns_left: "left i (fold step schedule S) \<le> left i S - count_list schedule i"
proof (induction schedule arbitrary: S)
  case (Cons j schedule)
  show ?case
  proof (cases "j = i")
    case True
    with Cons [of "step j S"] own_turn [of i S] show ?thesis by simp
  next
    case False
    with Cons [of "step j S"] other_turn [of i j S] show ?thesis by simp
  qed
qed simp

lemma enough_turns: "left i S \<le> count_list schedule i \<Longrightarrow> left i (fold step schedule S) = 0"
  using turns_left [of i schedule S] by simp

end

end
