(* ===== verification/Concurrent_Stock.thy ===== *)
theory Concurrent_Stock
  imports Concurrent_Orders Interleaving
begin

text \<open>
  What the row locks of the order handlers are for: in every interleaving of their statements, and of those
  of changes of the products, each transaction that commits moves the stock of the products by its quantities, no such
  movement is lost, no stock falls below zero, and a product is as it was read while it is locked. What is not locked can be overtaken: the number of active orders of a user, the
  status of an order and the uses of a promo code.
\<close>

section \<open>The phases of a transaction\<close>

definition reading_products :: "shop_op \<Rightarrow> statement list" where
  "reading_products op =
     (if product_op op then [SelectProduct, FlushCommit] else [LockProducts, SelectPromoCode, FlushCommit])"

definition reading :: "shop_txn \<Rightarrow> bool" where
  "reading tx \<longleftrightarrow>
     (\<exists>sts. set sts \<subseteq> {SelectUser, SelectOperations, SelectOrders, SelectItems} \<and>
        tx_left tx = sts @ reading_products (tx_op tx))"

definition holding :: "shop_txn \<Rightarrow> bool" where
  "holding tx \<longleftrightarrow> tx_left tx \<in> {[SelectPromoCode, FlushCommit], [FlushCommit]}"

lemma reading_start: "reading (begin_txn u clk ids op)"
proof -
  have "\<exists>sts. set sts \<subseteq> {SelectUser, SelectOperations, SelectOrders, SelectItems} \<and>
      statements_of op = sts @ reading_products op"
    by (cases op)
      (auto simp: reading_products_def Cons_eq_append_conv
        intro: exI [of _ "[SelectUser]"] exI [of _ "[SelectUser, SelectOperations, SelectOrders]"]
          exI [of _ "[SelectUser, SelectOrders, SelectOperations, SelectItems]"]
          exI [of _ "[SelectUser, SelectOrders, SelectItems]"])
  then show ?thesis by (simp add: reading_def begin_txn_def)
qed

lemma phases:
  "reading tx \<Longrightarrow> \<not> holding tx \<and> tx_left tx \<noteq> []"
  by (auto simp: reading_def reading_products_def holding_def Cons_eq_append_conv append_eq_Cons_conv split: if_splits)

text \<open>The next statement of a transaction that reads, and of one that holds its locks.\<close>

lemma reading_next:
  assumes "reading tx" and "tx_left tx = st # sts"
  shows "st \<in> {SelectUser, SelectOperations, SelectOrders, SelectItems} \<and>
      (\<forall>tx'. tx_op tx' = tx_op tx \<longrightarrow> tx_left tx' = sts \<longrightarrow> reading tx') \<or>
    st = LockProducts \<and> sts = [SelectPromoCode, FlushCommit] \<or>
    st = SelectProduct \<and> sts = [FlushCommit] \<and> product_op (tx_op tx)"
proof -
  obtain ys where ys: "set ys \<subseteq> {SelectUser, SelectOperations, SelectOrders, SelectItems}"
    "st # sts = ys @ reading_products (tx_op tx)"
    using assms by (auto simp: reading_def)
  show ?thesis
  proof (cases ys)
    case Nil
    with ys(2) show ?thesis by (simp add: reading_products_def split: if_splits)
  next
    case (Cons y ys')
    with ys show ?thesis by (auto simp: reading_def intro!: exI [of _ ys'])
  qed
qed

section \<open>The invariant\<close>

text \<open>
  What holds of one transaction, given what is committed: before it locks it holds nothing; while it holds
  locks, the row it has read of a locked product is the row that is committed; and what it has read
  is as the constraints say.
\<close>

definition txn_ok :: "db \<Rightarrow> shop_txn \<Rightarrow> bool" where
  "txn_ok d tx \<longleftrightarrow>
     op_ok (tx_op tx) \<and> items_ok (orders (tx_view tx)) \<and>
     (reading tx \<or> holding tx \<or> tx_left tx = []) \<and> (tx_left tx \<noteq> [] \<longrightarrow> tx_result tx = None) \<and>
     (if holding tx
      then map p_id (products (tx_view tx)) = map p_id (products d) \<and> (\<forall>p\<in>set (products (tx_view tx)). 0 \<le> p_stock p) \<and>
        set (tx_locks tx) = set (lock_ids tx) \<inter> p_id ` set (products d) \<and>
        (\<forall>k\<in>set (tx_locks tx). find_by p_id k (products (tx_view tx)) = find_by p_id k (products d))
      else tx_locks tx = [])"

definition moved_by :: "shop_txn \<Rightarrow> uuid \<Rightarrow> int" where
  "moved_by tx k = (case tx_result tx of Some (Inr oid) \<Rightarrow> moved tx k | _ \<Rightarrow> 0)"

definition disjoint_locks :: "shop_txn list \<Rightarrow> bool" where
  "disjoint_locks txs \<longleftrightarrow>
     (\<forall>i<length txs. \<forall>j<length txs. i \<noteq> j \<longrightarrow> set (tx_locks (txs ! i)) \<inter> set (tx_locks (txs ! j)) = {})"

definition stock_inv :: "db \<Rightarrow> shop \<Rightarrow> bool" where
  "stock_inv d0 S \<longleftrightarrow>
     db_fits (committed S) \<and> stock_ok (committed S) \<and> map p_id (products (committed S)) = map p_id (products d0) \<and>
     (\<forall>tx\<in>set (running S). txn_ok (committed S) tx) \<and> disjoint_locks (running S) \<and>
     (\<forall>k\<in>p_id ` set (products d0). (\<forall>tx\<in>set (running S). \<not> sets_stock (tx_op tx) k) \<longrightarrow>
        stock_of (products (committed S)) k = stock_of (products d0) k + (\<Sum>tx\<leftarrow>running S. moved_by tx k))"

lemma stock_invD:
  assumes "stock_inv d0 S"
  shows "db_fits (committed S)" and "stock_ok (committed S)"
    and "map p_id (products (committed S)) = map p_id (products d0)"
    and "i < length (running S) \<Longrightarrow> txn_ok (committed S) (running S ! i)"
    and "disjoint_locks (running S)"
    and "i < length (running S) \<Longrightarrow> j < length (running S) \<Longrightarrow> i \<noteq> j \<Longrightarrow>
      set (tx_locks (running S ! i)) \<inter> set (tx_locks (running S ! j)) = {}"
    and "k \<in> p_id ` set (products d0) \<Longrightarrow> \<forall>tx\<in>set (running S). \<not> sets_stock (tx_op tx) k \<Longrightarrow>
      stock_of (products (committed S)) k = stock_of (products d0) k + (\<Sum>tx\<leftarrow>running S. moved_by tx k)"
  using assms unfolding stock_inv_def disjoint_locks_def by (blast intro: nth_mem)+

text \<open>One transaction changes: what is left to show.\<close>

lemma sum_list_change:
  fixes f :: "'a \<Rightarrow> int"
  assumes "i < length xs"
  shows "(\<Sum>x\<leftarrow>xs[i := y]. f x) = (\<Sum>x\<leftarrow>xs. f x) - f (xs ! i) + f y"
proof -
  have "(\<Sum>x\<leftarrow>xs. f x) = (\<Sum>x\<leftarrow>take i xs @ xs ! i # drop (Suc i) xs. f x)"
    using id_take_nth_drop [OF assms] by simp
  then show ?thesis by (simp add: upd_conv_take_nth_drop [OF assms])
qed

lemma ops_update: "tx_op tx = tx_op (txs ! i) \<Longrightarrow> map tx_op (txs[i := tx]) = map tx_op txs"
  by (metis list_update_id map_update)

lemma stock_inv_change:
  assumes "stock_inv d0 S" and "i < length (running S)" and "db_fits d" and "stock_ok d"
    and "map p_id (products d) = map p_id (products (committed S))"
    and "txn_ok d tx" and "tx_op tx = tx_op (running S ! i)"
    and "\<And>j. j < length (running S) \<Longrightarrow> j \<noteq> i \<Longrightarrow> txn_ok (committed S) (running S ! j) \<Longrightarrow> txn_ok d (running S ! j)"
    and "\<And>j. j < length (running S) \<Longrightarrow> j \<noteq> i \<Longrightarrow> set (tx_locks tx) \<inter> set (tx_locks (running S ! j)) = {}"
    and "\<And>k. k \<in> p_id ` set (products (committed S)) \<Longrightarrow> \<not> sets_stock (tx_op tx) k \<Longrightarrow>
      stock_of (products d) k - moved_by tx k = stock_of (products (committed S)) k - moved_by (running S ! i) k"
  shows "stock_inv d0 \<lparr>committed = d, running = (running S)[i := tx]\<rparr>"
proof -
  have keys: "p_id ` set (products d0) = p_id ` set (products (committed S))"
    using assms(1) by (metis stock_inv_def set_map)
  have "disjoint_locks ((running S)[i := tx])"
    using assms(1,2,9) by (auto simp: stock_inv_def disjoint_locks_def nth_list_update Int_commute)
  moreover have "\<forall>tx'\<in>set ((running S)[i := tx]). txn_ok d tx'"
  proof
    fix tx'
    assume "tx' \<in> set ((running S)[i := tx])"
    then obtain j where "j < length (running S)" "tx' = (running S)[i := tx] ! j" by (auto simp: in_set_conv_nth)
    then show "txn_ok d tx'"
      using assms(1,2,6) assms(8) [of j] by (cases "j = i") (auto simp: stock_inv_def)
  qed
  moreover have "stock_of (products d) k = stock_of (products d0) k + (\<Sum>tx\<leftarrow>(running S)[i := tx]. moved_by tx k)"
    if k: "k \<in> p_id ` set (products d0)" and unset: "\<forall>tx'\<in>set ((running S)[i := tx]). \<not> sets_stock (tx_op tx') k" for k
  proof -
    have own: "\<not> sets_stock (tx_op tx) k" using unset assms(2) by (simp add: set_update_memI)
    have "tx_op ` set ((running S)[i := tx]) = tx_op ` set (running S)"
      using ops_update [OF assms(7)] by (metis set_map)
    with unset have "\<forall>tx\<in>set (running S). \<not> sets_stock (tx_op tx) k" by (metis imageE imageI)
    from stock_invD(7) [OF assms(1) k this] assms(10) [of k] own k keys sum_list_change [OF assms(2), of "\<lambda>tx. moved_by tx k" tx]
    show ?thesis by simp
  qed
  ultimately show ?thesis using assms(1,3-5) by (simp add: stock_inv_def)
qed

section \<open>Every statement keeps it\<close>

lemma others_lock_iff:
  "others_lock txs i k \<longleftrightarrow> (\<exists>j<length txs. j \<noteq> i \<and> k \<in> set (tx_locks (txs ! j)))"
  by (auto simp: others_lock_def list_ex_iff)

text \<open>A statement that reads another table, or the promo code.\<close>

lemma items_ok_load:
  assumes "items_ok ods" and "items_ok (orders d)"
  shows "items_ok (map (load_items d) ods)"
proof -
  have "1 \<le> oi_quantity it" if "od \<in> set ods" "it \<in> set (o_items (load_items d od))" for od it
    using that assms
    by (cases "find_by o_id (o_id od) (orders d)") (auto simp: load_items_def items_ok_def dest: find_by_SomeD)
  then show ?thesis by (auto simp: items_ok_def)
qed

lemma lock_ids_view: "tx_op tx' = tx_op tx \<Longrightarrow> orders (tx_view tx') = orders (tx_view tx) \<Longrightarrow> lock_ids tx' = lock_ids tx"
  by (simp add: lock_ids_def viewed_items_def split: shop_op.splits)

lemma stock_inv_read:
  assumes inv: "stock_inv d0 S" and i: "i < length (running S)" and tx: "running S ! i = tx"
    and tx': "tx_op tx' = tx_op tx" "tx_locks tx' = tx_locks tx" "tx_result tx' = tx_result tx"
    and items: "items_ok (orders (tx_view tx'))" and left: "tx_left tx \<noteq> []"
    and phase: "reading tx \<and> reading tx' \<or>
      holding tx \<and> holding tx' \<and> products (tx_view tx') = products (tx_view tx) \<and> orders (tx_view tx') = orders (tx_view tx)"
  shows "stock_inv d0 \<lparr>committed = committed S, running = (running S)[i := tx']\<rparr>"
proof -
  have ok: "txn_ok (committed S) tx" using stock_invD(4) [OF inv i] tx by simp
  then have none: "tx_result tx = None" using left by (simp add: txn_ok_def)
  have "txn_ok (committed S) tx'"
    using phase
  proof (elim disjE conjE)
    assume "reading tx" "reading tx'"
    with ok tx' items none show ?thesis using phases [of tx] phases [of tx'] by (simp add: txn_ok_def)
  next
    assume h: "holding tx" "holding tx'"
      and v: "products (tx_view tx') = products (tx_view tx)" "orders (tx_view tx') = orders (tx_view tx)"
    with ok tx' items none lock_ids_view [OF tx'(1) v(2)] show ?thesis by (simp add: txn_ok_def)
  qed
  moreover have "set (tx_locks tx') \<inter> set (tx_locks (running S ! j)) = {}" if "j < length (running S)" "j \<noteq> i" for j
    using stock_invD(6) [OF inv i that(1)] that(2) tx tx'(2) by simp
  ultimately show ?thesis
    using stock_invD(1,2) [OF inv] none tx tx'(1,3)
    by (intro stock_inv_change [OF inv i]) (simp_all add: moved_by_def)
qed

text \<open>A statement that reads the products, with the locks it takes.\<close>

lemma stock_inv_products:
  assumes inv: "stock_inv d0 S" and i: "i < length (running S)" and tx: "running S ! i = tx"
    and left: "tx_left tx \<noteq> []"
    and tx': "tx_op tx' = tx_op tx" "tx_result tx' = tx_result tx" "holding tx'"
      "tx_view tx' = (tx_view tx)\<lparr>products := products (committed S)\<rparr>"
    and free: "\<forall>k\<in>set (tx_locks tx'). \<not> others_lock (running S) i k"
    and locks: "set (tx_locks tx') = set (lock_ids tx) \<inter> p_id ` set (products (committed S))"
  shows "stock_inv d0 \<lparr>committed = committed S, running = (running S)[i := tx']\<rparr>"
proof -
  have ok: "txn_ok (committed S) tx" using stock_invD(4) [OF inv i] tx by simp
  have stock: "\<forall>p\<in>set (products (committed S)). 0 \<le> p_stock p" using stock_invD(2) [OF inv] by (simp add: stock_ok_def)
  have none: "tx_result tx = None" using ok left by (simp add: txn_ok_def)
  have "txn_ok (committed S) tx'"
    using ok tx' none locks stock lock_ids_view [of tx' tx] by (simp add: txn_ok_def)
  moreover have "set (tx_locks tx') \<inter> set (tx_locks (running S ! j)) = {}" if "j < length (running S)" "j \<noteq> i" for j
    using free that by (auto simp: others_lock_iff)
  ultimately show ?thesis
    using stock_invD(1,2) [OF inv] tx tx'(1,2) none by (intro stock_inv_change [OF inv i]) (simp_all add: moved_by_def)
qed

text \<open>The last statement, whether the transaction commits or not.\<close>

lemma txn_ok_finish: "txn_ok d tx \<Longrightarrow> txn_ok d' (finish r tx)"
  by (simp add: txn_ok_def reading_def holding_def)

lemma txn_ok_elsewhere:
  assumes "txn_ok d tx" and "map p_id (products d') = map p_id (products d)"
    and "\<And>k. k \<in> set (tx_locks tx) \<Longrightarrow> find_by p_id k (products d') = find_by p_id k (products d)"
  shows "txn_ok d' tx"
proof -
  have "p_id ` set (products d') = p_id ` set (products d)" using assms(2) by (metis set_map)
  with assms show ?thesis unfolding txn_ok_def by (auto split: if_splits)
qed

lemma moved_finish [simp]: "moved (finish r tx) k = moved tx k"
  by (simp add: moved_def split: shop_op.splits)

lemma stock_inv_finish:
  assumes inv: "stock_inv d0 S" and i: "i < length (running S)" and left: "tx_left (running S ! i) \<noteq> []"
    and d: "db_fits d" "stock_ok d" "map p_id (products d) = map p_id (products (committed S))"
    and others: "\<And>j k. j < length (running S) \<Longrightarrow> j \<noteq> i \<Longrightarrow> k \<in> set (tx_locks (running S ! j)) \<Longrightarrow>
      find_by p_id k (products d) = find_by p_id k (products (committed S))"
    and stock: "\<And>k. k \<in> p_id ` set (products (committed S)) \<Longrightarrow> \<not> sets_stock (tx_op (running S ! i)) k \<Longrightarrow> stock_of (products d) k =
      stock_of (products (committed S)) k + (case r of Inl e \<Rightarrow> 0 | Inr oid \<Rightarrow> moved (running S ! i) k)"
  shows "stock_inv d0 \<lparr>committed = d, running = (running S)[i := finish r (running S ! i)]\<rparr>"
proof (rule stock_inv_change [OF inv i d])
  have ok: "txn_ok (committed S) (running S ! i)" by (rule stock_invD(4) [OF inv i])
  then show "txn_ok d (finish r (running S ! i))" by (rule txn_ok_finish)
  have none: "tx_result (running S ! i) = None" using ok left by (simp add: txn_ok_def)
  fix k
  assume "k \<in> p_id ` set (products (committed S))" and "\<not> sets_stock (tx_op (finish r (running S ! i))) k"
  from stock [OF this(1)] this(2) none
  show "stock_of (products d) k - moved_by (finish r (running S ! i)) k =
      stock_of (products (committed S)) k - moved_by (running S ! i) k"
    by (simp add: moved_by_def split: sum.splits)
next
  fix j
  assume "j < length (running S)" "j \<noteq> i" "txn_ok (committed S) (running S ! j)"
  then show "txn_ok d (running S ! j)" using txn_ok_elsewhere [OF _ d(3)] others by blast
qed simp_all

lemma stock_inv_abort:
  assumes inv: "stock_inv d0 S" and i: "i < length (running S)" and left: "tx_left (running S ! i) \<noteq> []"
  shows "stock_inv d0 \<lparr>committed = committed S, running = (running S)[i := finish (Inl e) (running S ! i)]\<rparr>"
  by (rule stock_inv_finish [OF inv i left stock_invD(1,2) [OF inv]]) simp_all

lemma stock_inv_commit:
  assumes inv: "stock_inv d0 S" and i: "i < length (running S)" and tx: "running S ! i = tx"
    and left: "tx_left tx = [FlushCommit]"
    and work: "txn_work cfg numeric tx = Inr (oid, w)" and fits: "db_fits (write_back now (tx_view tx) w (committed S))"
    and free: "\<forall>k\<in>set (written_products (tx_view tx) w). \<not> others_lock (running S) i k"
  shows "stock_inv d0 \<lparr>committed = write_back now (tx_view tx) w (committed S), running = (running S)[i := finish (Inr oid) tx]\<rparr>"
proof -
  let ?v = "tx_view tx" and ?d = "committed S" and ?d' = "write_back now (tx_view tx) w (committed S)"
  have ok: "txn_ok ?d tx" using stock_invD(4) [OF inv i] tx by simp
  have h: "holding tx" using left by (simp add: holding_def)
  have v: "map p_id (products ?v) = map p_id (products ?d)" "\<forall>p\<in>set (products ?v). 0 \<le> p_stock p"
    "set (tx_locks tx) = set (lock_ids tx) \<inter> p_id ` set (products ?d)"
    "\<forall>k\<in>set (tx_locks tx). find_by p_id k (products ?v) = find_by p_id k (products ?d)"
    and items: "op_ok (tx_op tx)" "items_ok (orders ?v)"
    using ok h by (simp_all add: txn_ok_def)
  have keys: "p_id ` set (products ?v) = p_id ` set (products ?d)" using v(1) by (metis set_map)
  note wkeys = txn_work_keys [OF work]
  note written = write_back_stock [OF wkeys, of _ ?d now] and move = txn_work_stock [OF work]
  have amount: "stock_of (products ?d') k = stock_of (products ?d) k + moved tx k"
    if k: "k \<in> p_id ` set (products ?d)" and unset: "\<not> sets_stock (tx_op tx) k" for k
  proof (cases "k \<in> set (tx_locks tx)")
    case True
    with v(4) have "stock_of (products ?v) k = stock_of (products ?d) k" by (simp add: stock_of_def)
    then show ?thesis using written [of k] move [of k] k unset keys by auto
  next
    case False
    then have "moved tx k = 0" using v(3) k by (intro moved_unlocked) auto
    then show ?thesis using written [of k] move [of k] k unset keys by simp
  qed
  have dist: "distinct (map p_id (products ?d))" by (rule db_fits_distinct(3) [OF stock_invD(1) [OF inv]])
  have nonneg: "0 \<le> p_stock p" if p: "p \<in> set (products ?d')" for p
  proof -
    have dist': "distinct (map p_id (products ?d'))" using dist by simp
    have key: "p_id p \<in> p_id ` set (products ?d)"
      using p write_back_keys [of now ?v w ?d] by (metis image_eqI set_map)
    show ?thesis
    proof (cases "stock_of (products w) (p_id p) = stock_of (products ?v) (p_id p)")
      case True
      then have "p_stock p = stock_of (products ?d) (p_id p)"
        using stock_of_row [OF dist' p] written [of "p_id p"] key keys by simp
      moreover obtain q where "q \<in> set (products ?d)" "p_id q = p_id p" using key by auto
      ultimately show ?thesis
        using stock_of_row [OF dist, of q] stock_invD(2) [OF inv] by (simp add: stock_ok_def)
    next
      case False
      then have st: "p_stock p = stock_of (products w) (p_id p)"
        using stock_of_row [OF dist' p] written [of "p_id p"] key keys by simp
      obtain q where "q \<in> set (products w)" "p_id q = p_id p" using key wkeys v(1) by (metis imageE set_map)
      moreover have "distinct (map p_id (products w))" using dist wkeys v(1) by simp
      moreover have "distinct (map p_id (products ?v))" using dist v(1) by simp
      ultimately show ?thesis
        using st stock_of_row [of "products w" q] txn_work_nonneg [OF work items(2,1) _ v(2)] by simp
    qed
  qed
  have "items_ok (orders ?d)" using stock_invD(2) [OF inv] by (simp add: items_ok_def stock_ok_def)
  then have "items_ok (orders ?d')" by (rule write_back_items [OF _ txn_work_items [OF work items]])
  with nonneg have "stock_ok ?d'" by (simp add: stock_ok_def items_ok_def)
  moreover have "find_by p_id k (products ?d') = find_by p_id k (products ?d)"
    if j: "j < length (running S)" "j \<noteq> i" "k \<in> set (tx_locks (running S ! j))" for j k
    using free j by (intro unwritten_row) (auto simp: others_lock_iff)
  ultimately show ?thesis
    using stock_inv_finish [OF inv i _ fits, of "Inr oid"] left tx amount by simp
qed

interpretation stock: interleaving_invariant "step cfg numeric" "stock_inv d0" for cfg numeric d0
proof
  fix S i
  assume inv: "stock_inv d0 S"
  show "stock_inv d0 (step cfg numeric i S)"
  proof (cases "i < length (running S) \<and> tx_left (running S ! i) \<noteq> []")
    case False
    with inv show ?thesis by (auto simp: step_def)
  next
    case True
    define tx where "tx = running S ! i"
    from True obtain st sts where i: "i < length (running S)" and left: "tx_left tx = st # sts"
      unfolding tx_def by (cases "tx_left (running S ! i)") auto
    have same: "\<lparr>committed = committed S, running = (running S)[i := tx]\<rparr> = S" by (simp add: tx_def)
    have ok: "txn_ok (committed S) tx" using stock_invD(4) [OF inv i] by (simp add: tx_def)
    have orders: "items_ok (orders (committed S))" using stock_invD(2) [OF inv] by (simp add: stock_ok_def items_ok_def)
    have view: "items_ok (orders (tx_view tx))" using ok by (simp add: txn_ok_def)
    note step = step_def [of cfg numeric i S] i left tx_def [symmetric]
    consider (select) "reading tx" "st \<in> {SelectUser, SelectOperations, SelectOrders, SelectItems}" 
          "\<forall>tx'. tx_op tx' = tx_op tx \<longrightarrow> tx_left tx' = sts \<longrightarrow> reading tx'"
      | (lock) "st = LockProducts" "sts = [SelectPromoCode, FlushCommit]"
      | (product) "st = SelectProduct" "sts = [FlushCommit]" "product_op (tx_op tx)" "reading tx"
      | (promo) "holding tx" "st = SelectPromoCode" "sts = [FlushCommit]"
      | (flush) "st = FlushCommit" "sts = []"
      using ok left reading_next [OF _ left] by (auto simp: txn_ok_def holding_def)
    then show ?thesis
    proof cases
      case select
      have "stock_inv d0 \<lparr>committed = committed S, running = (running S)[i := read f d tx]\<rparr>"
        if "items_ok (orders (f d (tx_view tx)))" for f d
        by (rule stock_inv_read [OF inv i tx_def [symmetric]])
          (use that select left in \<open>auto simp: read_def\<close>)
      with select(2) view orders items_ok_load show ?thesis by (auto simp: step)
    next
      case lock
      let ?ids = "filter (\<lambda>k. k \<in> p_id ` set (products (committed S))) (lock_ids tx)"
      show ?thesis
      proof (cases "list_ex (others_lock (running S) i) ?ids")
        case True
        with lock inv same show ?thesis by (simp add: step)
      next
        case False
        then have free: "\<forall>k\<in>set ?ids. \<not> others_lock (running S) i k" by (simp add: list_ex_iff)
        have "stock_inv d0 \<lparr>committed = committed S, running = (running S)
            [i := (read (\<lambda>d v. v\<lparr>products := products d\<rparr>) (committed S) tx)\<lparr>tx_locks := ?ids\<rparr>]\<rparr>"
          by (rule stock_inv_products [OF inv i tx_def [symmetric]])
            (use lock left free in \<open>auto simp: read_def holding_def\<close>)
        with False lock show ?thesis by (simp add: step)
      qed
    next
      case product
      have "tx_locks tx = []" "lock_ids tx = []"
        using ok product phases product_op_locks by (auto simp: txn_ok_def)
      then have "stock_inv d0 \<lparr>committed = committed S,
          running = (running S)[i := read (\<lambda>d v. v\<lparr>products := products d\<rparr>) (committed S) tx]\<rparr>"
        by (intro stock_inv_products [OF inv i tx_def [symmetric]])
          (use product left in \<open>auto simp: read_def holding_def\<close>)
      with product show ?thesis by (simp add: step)
    next
      case promo
      have "stock_inv d0 \<lparr>committed = committed S,
          running = (running S)[i := read (\<lambda>d v. v\<lparr>promo_codes := promo_codes d\<rparr>) (committed S) tx]\<rparr>"
        by (rule stock_inv_read [OF inv i tx_def [symmetric]])
          (use promo left view in \<open>auto simp: read_def holding_def\<close>)
      with promo show ?thesis by (simp add: step)
    next
      case flush
      have abort: "stock_inv d0 \<lparr>committed = committed S, running = (running S)[i := finish (Inl e) tx]\<rparr>" for e
        using stock_inv_abort [OF inv i] left by (simp add: tx_def)
      show ?thesis
      proof (cases "txn_work cfg numeric tx")
        case (Inl e)
        with flush abort show ?thesis by (simp add: step)
      next
        case (Inr r)
        obtain oid w where r: "r = (oid, w)" by (cases r)
        show ?thesis
        proof (cases "list_ex (others_lock (running S) i) (written_products (tx_view tx) w)")
          case True
          with flush Inr r inv same show ?thesis by (simp add: step)
        next
          case False
          with stock_inv_commit [OF inv i tx_def [symmetric]] flush left Inr r abort show ?thesis
            by (auto simp: step Let_def list_ex_iff)
        qed
      qed
    qed
  qed
qed

section \<open>Stock under concurrency\<close>

text \<open>The transactions of a run stay those that were started.\<close>

lemma run_statement_op: "run_statement cfg numeric txs i st d tx = (d', tx') \<Longrightarrow> tx_op tx' = tx_op tx"
  by (cases st) (auto simp: read_def Let_def split: sum.splits prod.splits if_splits)

lemma step_ops: "map tx_op (running (step cfg numeric i S)) = map tx_op (running S)"
  by (auto simp: step_def dest!: run_statement_op intro: ops_update split: list.splits prod.splits)

lemma call_ops:
  "map tx_op (running (open_shop d (map (\<lambda>(u, clk, ids, op). begin_txn u clk ids op) calls))) = map (\<lambda>(u, clk, ids, op). op) calls"
  by (simp add: open_shop_def begin_txn_def split_beta)

lemma run_schedule_ops: "map tx_op (running (run_schedule cfg numeric schedule S)) = map tx_op (running S)"
  unfolding run_schedule_def by (induction schedule arbitrary: S) (simp_all add: step_ops)

lemma stock_inv_start:
  assumes "db_fits d" and "stock_ok d" and "\<forall>(u, clk, ids, op)\<in>set calls. op_ok op"
  shows "stock_inv d (open_shop d (map (\<lambda>(u, clk, ids, op). begin_txn u clk ids op) calls))"
proof -
  have start: "txn_ok d (begin_txn u clk ids op)" if "op_ok op" for u clk ids op
    using that reading_start [of u clk ids op] phases [OF reading_start, of u clk ids op]
    by (simp add: txn_ok_def) (simp add: begin_txn_def empty_db_def items_ok_def)
  have "(\<Sum>tx\<leftarrow>map (\<lambda>(u, clk, ids, op). begin_txn u clk ids op) calls. moved_by tx k) = 0" for k
    by (induction calls) (auto simp: moved_by_def begin_txn_def)
  moreover have "tx_locks (map (\<lambda>(u, clk, ids, op). begin_txn u clk ids op) calls ! i) = []" if "i < length calls" for i
    using that by (simp add: begin_txn_def split_beta)
  ultimately show ?thesis
    using assms start by (auto simp: stock_inv_def open_shop_def disjoint_locks_def)
qed

text \<open>
  C19: However the statements of order requests that run at the same time are interleaved, also with those
  of sellers who change or archive products, the stock of every product is never negative; and unless one
  of these sellers sets it, it is what it was, less what the created orders took, plus what the canceled
  ones gave back and with the differences of the changed ones, counted once for each transaction that
  committed. So the row locks lose no movement, and two buyers do not get the same piece. The payloads
  are those that the validation lets through.
\<close>

theorem concurrent_stock_exact:
  assumes "follows_schema D" and "reachable D d" and "\<forall>(u, clk, ids, op)\<in>set calls. op_ok op"
    and "S = run_schedule cfg numeric schedule (open_shop d (map (\<lambda>(u, clk, ids, op). begin_txn u clk ids op) calls))"
    and "k \<in> p_id ` set (products d)"
  shows "0 \<le> stock_of (products (committed S)) k \<and>
    ((\<forall>(u, clk, ids, op)\<in>set calls. \<not> sets_stock op k) \<longrightarrow>
      stock_of (products (committed S)) k =
        stock_of (products d) k +
        (\<Sum>tx\<leftarrow>running S. case tx_result tx of Some (Inr oid) \<Rightarrow> moved tx k | _ \<Rightarrow> 0))"
proof -
  have "stock_inv d S"
    unfolding assms(4) run_schedule_def using stock_inv.reachable_inv [OF assms(1,2)] reachable_fits [OF assms(2)] assms(3)
    by (intro stock.schedule_keeps stock_inv_start)
  note inv = stock_invD [OF this]
  have "k \<in> p_id ` set (products (committed S))" using assms(5) inv(3) by (metis set_map)
  then obtain p where p: "p \<in> set (products (committed S))" "p_id p = k" by auto
  have "stock_of (products (committed S)) k = p_stock p"
    using stock_of_row [OF db_fits_distinct(3) [OF inv(1)] p(1)] p(2) by simp
  moreover have "\<forall>tx\<in>set (running S). \<not> sets_stock (tx_op tx) k" if "\<forall>(u, clk, ids, op)\<in>set calls. \<not> sets_stock op k"
  proof -
    have "tx_op ` set (running S) = (\<lambda>(u, clk, ids, op). op) ` set calls"
      using run_schedule_ops [of cfg numeric schedule "open_shop d (map (\<lambda>(u, clk, ids, op). begin_txn u clk ids op) calls)"]
      unfolding assms(4) by (metis (no_types, lifting) call_ops set_map)
    then show ?thesis using that by fastforce
  qed
  ultimately show ?thesis using inv(2) inv(7) [OF assms(5)] p(1) by (simp add: stock_ok_def moved_by_def)
qed

text \<open>Two orders for three of the five lamps at the same time: the second waits for the lock and is then refused.\<close>

definition sample_call :: "uuid \<Rightarrow> shop_op \<Rightarrow> user \<times> clock \<times> new_ids \<times> shop_op" where
  "sample_call oid op = (sample_buyer, sample_clock 400000000, tk_new_ids (sample_tick 400000000 ''x'' oid), op)"

definition buy :: "uuid \<Rightarrow> int \<Rightarrow> string option \<Rightarrow> shop_op" where
  "buy pid n code = CreateOp \<lparr>ocr_items = [\<lparr>oc_product_id = pid, oc_quantity = n\<rparr>], ocr_promo_code = code\<rparr>"

definition sample_race :: shop where
  "sample_race =
     run_schedule default_settings sample_numeric [0, 0, 0, 1, 1, 1, 0, 1, 0, 0, 1, 1, 1]
       (open_shop sample_shop
         (map (\<lambda>(u, clk, ids, op). begin_txn u clk ids op)
           [sample_call ''o1'' (buy ''p1'' 3 None), sample_call ''o2'' (buy ''p1'' 3 None)]))"

lemma sample_race_results:
  "map (\<lambda>tx. case tx_result tx of Some (Inr oid) \<Rightarrow> moved tx ''p1'' | _ \<Rightarrow> 0) (running sample_race) = [- 3, 0]"
  unfolding sample_race_def sample_shop_eq by code_simp

theorem concurrent_stock_exact_witness: "stock_of (products (committed sample_race)) ''p1'' = 5 - 3"
proof -
  have "\<forall>(u, clk, ids, op)\<in>set [sample_call ''o1'' (buy ''p1'' 3 None), sample_call ''o2'' (buy ''p1'' 3 None)]. op_ok op"
    by (simp add: sample_call_def buy_def)
  from concurrent_stock_exact [OF sample_follows_schema sample_shop_reachable this sample_race_def, of "''p1''"]
  show ?thesis unfolding sample_race_results
    by (simp add: sample_call_def buy_def sample_shop_eq stock_of_def find_by_def)
qed

section \<open>Products that change\<close>

text \<open>
  What an order sells is what is stored when it commits: its products are active then and there are enough
  pieces of them, whatever their sellers do meanwhile.
\<close>

lemma sold_as_stored:
  assumes inv: "stock_inv d0 S" and i: "i < length (running S)" and tx: "running S ! i = tx"
    and left: "tx_left tx = [FlushCommit]" and op: "tx_op tx = CreateOp p"
    and work: "txn_work cfg numeric tx = Inr (oid, w)" and item: "item \<in> set (ocr_items p)"
  shows "\<exists>q. find_by p_id (oc_product_id item) (products (committed S)) = Some q \<and> p_status q = ACTIVE \<and>
    quantity_of (ocr_items p) (oc_product_id item) \<le> p_stock q"
proof -
  have ok: "txn_ok (committed S) tx" using stock_invD(4) [OF inv i] tx by simp
  have holding: "holding tx" using left by (simp add: holding_def)
  from work obtain q where q: "find_by p_id (oc_product_id item) (products (tx_view tx)) = Some q" "p_status q = ACTIVE"
    "quantity_of (ocr_items p) (oc_product_id item) \<le> p_stock q"
    using op item by (cases rule: txn_work_Inr) auto
  have "oc_product_id item \<in> set (lock_ids tx)"
    using item by (simp add: lock_ids_def op)
  moreover have "oc_product_id item \<in> p_id ` set (products (committed S))"
    using q(1) ok holding by (metis find_by_in_keys option.distinct(1) set_map txn_ok_def)
  ultimately have "find_by p_id (oc_product_id item) (products (committed S)) = Some q"
    using ok holding q(1) by (simp add: txn_ok_def)
  with q show ?thesis by blast
qed

text \<open>A seller archives the lamp while an order for it holds the lock: the change waits, then it is made.\<close>

definition race_archive :: "nat list \<Rightarrow> shop" where
  "race_archive schedule =
     run_schedule default_settings sample_numeric schedule
       (open_shop sample_shop
         [begin_txn sample_buyer (sample_clock 400000000) (tk_new_ids (sample_tick 400000000 ''x'' ''o1'')) (buy ''p1'' 3 None),
          begin_txn (sample_buyer\<lparr>u_id := ''u2'', u_role := SELLER\<rparr>) (sample_clock 400000000)
            (tk_new_ids (sample_tick 400000000 ''x'' ''o2'')) (ArchiveOp ''p1'')])"

lemma race_archive_waits:
  "map tx_result (running (race_archive [0, 0, 0, 0, 1, 1, 1, 1])) = [None, None]"
  unfolding race_archive_def sample_shop_eq by code_simp

lemma race_archive_done:
  "let S = race_archive [0, 0, 0, 0, 1, 1, 1, 1, 0, 0, 1]
   in map tx_result (running S) = [Some (Inr ''o1''), Some (Inr ''p1'')] \<and>
     map (\<lambda>p. (p_stock p, p_status p)) (products (committed S)) = [(2, ARCHIVED)]"
  unfolding race_archive_def sample_shop_eq by code_simp

section \<open>What is not locked\<close>

text \<open>
  Three things that hold of requests one after the other fail for requests at the same time, because what is
  checked is read before the products are locked or without a lock: two orders of one user that are both active, two
  cancellations of one order that both give its piece back (six in stock, where there have only ever been
  five), and a promo code of one use that two orders carry.
\<close>

definition one_use_code :: request where
  "one_use_code =
     AsUser (CreatePromoCode \<lparr>pcr_code = ''ONCE'', pcr_discount_type = Member ''PERCENTAGE'', pcr_discount_value = 50,
       pcr_min_order_amount = 10, pcr_max_uses = 1, pcr_valid_from = 0, pcr_valid_until = 1000000000, pcr_active = None\<rparr>)"

definition race_shop :: db where
  "race_shop = run_requests sample_deployment
     (take 3 sample_requests @
      [(sample_tick 4 ''p2'' ''x'', access_of ''u2'' ''SELLER'', sample_lamp),
       (sample_tick 5 ''c1'' ''x'', access_of ''u2'' ''SELLER'', one_use_code)]) empty_db"

definition race :: "nat list \<Rightarrow> db \<Rightarrow> shop_op \<Rightarrow> shop_op \<Rightarrow> db" where
  "race schedule d op1 op2 =
     committed (run_schedule default_settings sample_numeric schedule
       (open_shop d (map (\<lambda>(u, clk, ids, op). begin_txn u clk ids op) [sample_call ''o1'' op1, sample_call ''o2'' op2])))"

lemma race_active_orders:
  "length (active_orders (race [0, 0, 0, 1, 1, 1, 0, 0, 0, 1, 1, 1] race_shop (buy ''p1'' 1 None) (buy ''p1'' 1 None)) ''u1'') = 2"
  by code_simp

lemma race_cancellations:
  "stock_of (products (race [0, 0, 0, 1, 1, 1, 0, 0, 0, 1, 1, 1] sample_state (CancelOp ''o1'') (CancelOp ''o1''))) ''p1'' = 6"
  unfolding sample_state_eq by code_simp

lemma race_promo_code:
  "let d = race [0, 0, 0, 0, 0, 1, 1, 1, 1, 1, 0, 1] race_shop (buy ''p1'' 1 (Some ''ONCE'')) (buy ''p2'' 1 (Some ''ONCE''))
   in code_orders d ''c1'' = 2 \<and> uses_of (promo_codes d) ''c1'' = 1"
  by code_simp

end
