(* ===== verification/Concurrent_Serial.thy ===== *)
theory Concurrent_Serial
  imports Concurrent_Orders
begin

text \<open>
  A transaction that nothing comes in between is the handler: run statement by statement on what is
  committed, it ends with the result of the handler of \<open>main.py\<close> and leaves the data that the handler
  leaves. So the runs of Concurrent_Orders contain those of the other theories.
\<close>

definition with_id :: "('a \<Rightarrow> uuid) \<Rightarrow> (exn + 'a) \<times> session \<Rightarrow> (exn + uuid) \<times> session" where
  "with_id f rs = (map_sum id f (fst rs), snd rs)"

definition txn_handler ::
  "settings \<Rightarrow> (money \<Rightarrow> money) \<Rightarrow> clock \<Rightarrow> new_ids \<Rightarrow> shop_op \<Rightarrow> user \<Rightarrow> session \<Rightarrow> (exn + uuid) \<times> session" where
  "txn_handler cfg numeric clk ids op u s =
     (case op of
        CreateOp p \<Rightarrow> with_id or_id (create_order cfg numeric clk ids p u s)
      | UpdateOp oid items \<Rightarrow> with_id or_id (update_order cfg numeric clk ids oid items u s)
      | CancelOp oid \<Rightarrow> with_id or_id (cancel_order clk oid u s)
      | ReviseOp pid upd \<Rightarrow> with_id pr_id (update_product numeric (db_now clk) pid upd u s)
      | ArchiveOp pid \<Rightarrow> with_id (\<lambda>_. pid) (delete_product (db_now clk) pid u s))"

section \<open>A write to the rows that were read\<close>

lemma column_same [simp]: "column old new old = new" "column old old cur = cur"
  by (simp_all add: column_def)

lemma replaced_items_same [simp]: "replaced_items old new old = new" "replaced_items old old cur = cur"
  by (simp_all add: replaced_items_def filter_empty_conv)

lemma write_products_same:
  assumes "list_all2 same_origin ps qs" and "distinct (map p_id ps)"
  shows "map (write_product now ps qs) ps = map (touch_product now ps) qs"
proof (rule nth_equalityI)
  have len: "length qs = length ps" using assms(1) by (simp add: list_all2_lengthD)
  then show "length (map (write_product now ps qs) ps) = length (map (touch_product now ps) qs)" by simp
  fix n
  assume "n < length (map (write_product now ps qs) ps)"
  then have n: "n < length ps" "n < length qs" using len by simp_all
  have same: "same_origin (ps ! n) (qs ! n)" using assms(1) n by (simp add: list_all2_conv_all_nth)
  have "map p_id qs = map p_id ps"
    using assms(1) by (auto simp: list_all2_conv_all_nth same_origin_def intro!: nth_equalityI)
  with assms(2) have dist: "distinct (map p_id qs)" by simp
  have find: "find_by p_id (p_id (ps ! n)) ps = Some (ps ! n)" "find_by p_id (p_id (ps ! n)) qs = Some (qs ! n)"
    using distinct_find_by [OF assms(2), of "ps ! n"] distinct_find_by [OF dist, of "qs ! n"] n same
    by (simp_all add: same_origin_def)
  have key: "p_id (qs ! n) = p_id (ps ! n)" using same by (simp add: same_origin_def)
  have "qs ! n \<in> set ps \<longleftrightarrow> qs ! n = ps ! n"
  proof
    assume "qs ! n \<in> set ps"
    then have "find_by p_id (p_id (qs ! n)) ps = Some (qs ! n)" by (rule distinct_find_by [OF assms(2)])
    with find(1) show "qs ! n = ps ! n" unfolding key by simp
  next
    assume "qs ! n = ps ! n"
    with n show "qs ! n \<in> set ps" by (metis nth_mem)
  qed
  moreover have "(ps ! n)\<lparr>p_name := p_name (qs ! n), p_description := p_description (qs ! n), p_price := p_price (qs ! n),
      p_stock := p_stock (qs ! n), p_category := p_category (qs ! n), p_status := p_status (qs ! n),
      p_updated_at := now\<rparr> = (qs ! n)\<lparr>p_updated_at := now\<rparr>"
    using same by (simp add: same_origin_def)
  ultimately show "map (write_product now ps qs) ps ! n = map (touch_product now ps) qs ! n"
    using n find by (simp add: write_product_def touch_product_def)
qed

lemma write_promo_codes_same:
  assumes "distinct (map pc_id pcs)" and "pcs' = pcs \<or> pcs' = add_uses pid n pcs"
  shows "map (write_promo_code pcs pcs') pcs = pcs'"
proof -
  have find: "find_by pc_id (pc_id pc) pcs = Some pc" if "pc \<in> set pcs" for pc
    by (rule distinct_find_by [OF assms(1) that])
  from assms(2) show ?thesis
  proof
    assume "pcs' = pcs"
    with find show ?thesis by (simp add: write_promo_code_def map_idI)
  next
    assume new: "pcs' = add_uses pid n pcs"
    have rows: "add_uses pid n pcs =
        map (\<lambda>pc. if pc_id pc = pid then pc\<lparr>pc_current_uses := pc_current_uses pc + n\<rparr> else pc) pcs"
      by (simp add: add_uses_def modify_by_def)
    have "write_promo_code pcs (add_uses pid n pcs) pc =
        (if pc_id pc = pid then pc\<lparr>pc_current_uses := pc_current_uses pc + n\<rparr> else pc)" if "pc \<in> set pcs" for pc
      using find [OF that] by (auto simp: write_promo_code_def add_uses_lookup)
    then have "map (write_promo_code pcs (add_uses pid n pcs)) pcs = add_uses pid n pcs"
      by (subst (2) rows) (rule map_cong [OF refl])
    with new show ?thesis by simp
  qed
qed

lemma write_order_row_same: "od \<in> set ods \<Longrightarrow> distinct (map o_id ods) \<Longrightarrow> find_by o_id (o_id od) news = Some od \<Longrightarrow>
  write_order_row now ods news od = od"
  by (simp add: write_order_row_def distinct_find_by)

lemma write_orders_added:
  assumes "distinct (map o_id ods)" and "o_updated_at od = now"
  shows "map (write_order_row now ods (ods @ [od])) ods @ drop (length ods) (ods @ [od]) = map (touch_order now ods) (ods @ [od])"
proof -
  have "write_order_row now ods (ods @ [od]) c = c" if "c \<in> set ods" for c
    using that assms(1) by (simp add: write_order_row_same find_by_append distinct_find_by)
  moreover have "touch_order now ods od = od" using assms(2) by (simp add: touch_order_def)
  ultimately show ?thesis by (simp add: map_idI)
qed

lemma write_orders_replaced:
  assumes "distinct (map o_id ods)" and "od \<in> set ods"
    and od': "o_id od' = o_id od" "o_user_id od' = o_user_id od" "o_created_at od' = o_created_at od"
      "o_updated_at od' = o_updated_at od"
  shows "map (write_order_row now ods (replace_by o_id od' ods)) ods @ drop (length ods) (replace_by o_id od' ods) =
    map (touch_order now ods) (replace_by o_id od' ods)"
proof -
  have len: "length (replace_by o_id od' ods) = length ods" by (simp add: replace_by_def modify_by_def)
  have rows: "replace_by o_id od' ods = map (\<lambda>c. if o_id c = o_id od then od' else c) ods"
    by (simp add: replace_by_def modify_by_def od'(1))
  have find: "find_by o_id (o_id c) (replace_by o_id od' ods) = Some (if o_id c = o_id od then od' else c)" if "c \<in> set ods" for c
    using distinct_find_by [OF assms(1) that] by (auto simp: find_by_replace_by od'(1))
  have "write_order_row now ods (replace_by o_id od' ods) c = touch_order now ods (if o_id c = o_id od then od' else c)"
    if c: "c \<in> set ods" for c
  proof (cases "o_id c = o_id od")
    case False
    with c assms(1) find [OF c] show ?thesis by (simp add: write_order_row_same)
  next
    case True
    then have "c = od" using assms(1,2) c by (metis distinct_find_by option.inject)
    have "order_columns od' \<in> order_columns ` set ods \<longleftrightarrow> order_columns od' = order_columns od"
    proof
      assume "order_columns od' \<in> order_columns ` set ods"
      then obtain e where e: "e \<in> set ods" "order_columns od' = order_columns e" by auto
      then have "o_id (order_columns od') = o_id (order_columns e)" by simp
      then have "o_id e = o_id od" by (simp add: order_columns_def od'(1))
      then have "e = od" using assms(1,2) e(1) by (metis distinct_find_by option.inject)
      with e(2) show "order_columns od' = order_columns od" by simp
    qed (use assms(2) in auto)
    moreover have "write_order_row now ods (replace_by o_id od' ods) c =
        od'\<lparr>o_updated_at := (if order_columns od' = order_columns od then o_updated_at od else now)\<rparr>"
      using find [OF c] distinct_find_by [OF assms(1,2)] od' True
      by (simp add: \<open>c = od\<close> write_order_row_def)
    moreover have "od'\<lparr>o_updated_at := o_updated_at od\<rparr> = od'" by (simp add: od'(4) [symmetric])
    ultimately show ?thesis using True by (simp add: touch_order_def)
  qed
  then show ?thesis by (simp add: len rows)
qed

lemma write_orders_kept: "map (write_order_row now ods ods) rows = rows"
  by (intro map_idI) (simp add: write_order_row_def split: option.splits)

lemma touch_orders_kept: "map (touch_order now ods) ods = ods"
  by (intro map_idI) (simp add: touch_order_def)

lemma write_promo_codes_kept: "map (write_promo_code pcs pcs) rows = rows"
  by (intro map_idI) (simp add: write_promo_code_def split: option.splits)

section \<open>A commit on the data that was read\<close>

lemma apply_promo_code_frame:
  assumes "apply_promo_code now code amt od d = Inr (od', d\<lparr>promo_codes := pcs\<rparr>)"
  shows "o_updated_at od' = o_updated_at od" and "\<exists>pid n. pcs = promo_codes d \<or> pcs = add_uses pid n (promo_codes d)"
proof -
  have "o_updated_at od' = o_updated_at od \<and>
      (\<exists>pid n. promo_codes (d\<lparr>promo_codes := pcs\<rparr>) = promo_codes d \<or>
        promo_codes (d\<lparr>promo_codes := pcs\<rparr>) = add_uses pid n (promo_codes d))"
    using assms by (cases rule: apply_promo_code_Inr) auto
  then show "o_updated_at od' = o_updated_at od" and "\<exists>pid n. pcs = promo_codes d \<or> pcs = add_uses pid n (promo_codes d)"
    by simp_all
qed

lemma reapply_promo_code_rows:
  assumes "reapply_promo_code now amt od d = Inr (od', d\<lparr>promo_codes := pcs\<rparr>)"
  shows "o_id od' = o_id od" and "o_user_id od' = o_user_id od" and "o_created_at od' = o_created_at od"
    and "o_updated_at od' = o_updated_at od" and "\<exists>pid n. pcs = promo_codes d \<or> pcs = add_uses pid n (promo_codes d)"
proof -
  have "o_id od' = o_id od \<and> o_user_id od' = o_user_id od \<and> o_created_at od' = o_created_at od \<and>
      o_updated_at od' = o_updated_at od \<and>
      (\<exists>pid n. promo_codes (d\<lparr>promo_codes := pcs\<rparr>) = promo_codes d \<or>
        promo_codes (d\<lparr>promo_codes := pcs\<rparr>) = add_uses pid n (promo_codes d))"
    using assms by (cases rule: reapply_promo_code_Inr) auto
  then show "o_id od' = o_id od" and "o_user_id od' = o_user_id od" and "o_created_at od' = o_created_at od"
    and "o_updated_at od' = o_updated_at od" and "\<exists>pid n. pcs = promo_codes d \<or> pcs = add_uses pid n (promo_codes d)"
    by simp_all
qed

text \<open>The tables one by one.\<close>

lemma write_back_tables:
  assumes "users w = users d"
    and "map (write_product now (products d) (products w)) (products d) = map (touch_product now (products d)) (products w)"
    and "map (write_order_row now (orders d) (orders w)) (orders d) @ drop (length (orders d)) (orders w) =
      map (touch_order now (orders d)) (orders w)"
    and "map (write_promo_code (promo_codes d) (promo_codes w)) (promo_codes d) = promo_codes w"
    and "user_operations d @ drop (length (user_operations d)) (user_operations w) = user_operations w"
  shows "write_back now d w d = touch now d w"
  using assms by (simp add: write_back_def touch_def)

lemma write_back_read:
  assumes fits: "db_fits (tx_view tx)" and work: "txn_work cfg numeric tx = Inr (oid, w)"
  shows "write_back (db_now (tx_clock tx)) (tx_view tx) w (tx_view tx) = touch (db_now (tx_clock tx)) (tx_view tx) w"
proof -
  let ?d = "tx_view tx" and ?now = "db_now (tx_clock tx)"
  note dist = db_fits_distinct(3-5) [OF fits]
  note ps = write_products_same [OF txn_work_origin [OF work dist(1)] dist(1)]
  show ?thesis
  proof (cases "tx_op tx")
    case (CreateOp p)
    with work have "create_order_body cfg numeric (tx_clock tx) (tx_ids tx) p (tx_user tx) ?d = Inr (oid, w)"
      by (simp add: txn_work_def)
    then show ?thesis
    proof (cases rule: create_order_body_Inr)
      case (1 od pcs)
      have "o_updated_at (write_order numeric od) = ?now"
        using apply_promo_code_frame(1) [OF 1(5)] by (simp add: write_order_def base_order_def)
      from write_orders_added [OF dist(2) this] apply_promo_code_frame(2) [OF 1(5)] 1(6) ps show ?thesis
        by (intro write_back_tables) (auto intro: write_promo_codes_same [OF dist(3)])
    qed
  next
    case (UpdateOp oid' items)
    with work obtain od where l: "locate_order oid' (tx_user tx) {CREATED} ?d = Inr od"
      and b: "update_order_body cfg numeric (tx_clock tx) (tx_ids tx) items (tx_user tx) od ?d = Inr (oid, w)"
      by (auto simp: txn_work_def on_order_def Let_def split: sum.splits)
    from b show ?thesis
    proof (cases rule: update_order_body_Inr)
      case (1 od' pcs)
      note row = reapply_promo_code_rows [OF 1(4)]
      have "o_id (write_order numeric od') = o_id od" "o_user_id (write_order numeric od') = o_user_id od"
        "o_created_at (write_order numeric od') = o_created_at od" "o_updated_at (write_order numeric od') = o_updated_at od"
        using row(1-4) by (simp_all add: write_order_def edited_order_def)
      from write_orders_replaced [OF dist(2) locate_order_Inr(1) [OF l] this, of ?now] row(5) 1(5) ps show ?thesis
        by (intro write_back_tables) (auto intro: write_promo_codes_same [OF dist(3)])
    qed
  next
    case (CancelOp oid')
    with work obtain od where l: "locate_order oid' (tx_user tx) {CREATED, PAYMENT_PENDING} ?d = Inr od"
      and b: "cancel_order_body od ?d = Inr (oid, w)"
      by (auto simp: txn_work_def on_order_def Let_def split: sum.splits)
    from b show ?thesis
    proof (cases rule: cancel_order_body_Inr)
      case (1 pcs)
      have "\<exists>pid n. pcs = promo_codes ?d \<or> pcs = add_uses pid n (promo_codes ?d)" using 1(3) by blast
      with write_orders_replaced [OF dist(2) locate_order_Inr(1) [OF l], of "od\<lparr>o_status := CANCELED\<rparr>" ?now] 1(2) ps
      show ?thesis
        by (intro write_back_tables) (auto intro: write_promo_codes_same [OF dist(3)])
    qed
  next
    case (ReviseOp pid upd)
    with work have "on_product pid (tx_user tx) (revised numeric upd) ?d = Inr (oid, w)"
      by (simp add: txn_work_def Let_def)
    then obtain p' where "w = put_product p' ?d" by (rule on_product_Inr)
    with ps show ?thesis
      by (intro write_back_tables) (simp_all add: put_product_def write_orders_kept touch_orders_kept write_promo_codes_kept)
  next
    case (ArchiveOp pid)
    with work have "on_product pid (tx_user tx) (\<lambda>p. Inr (p\<lparr>p_status := ARCHIVED\<rparr>)) ?d = Inr (oid, w)"
      by (simp add: txn_work_def Let_def)
    then obtain p' where "w = put_product p' ?d" by (rule on_product_Inr)
    with ps show ?thesis
      by (intro write_back_tables) (simp_all add: put_product_def write_orders_kept touch_orders_kept write_promo_codes_kept)
  qed
qed

section \<open>The handlers in one piece\<close>

text \<open>What a handler returns and stores, from the work of its body.\<close>

definition committed_work :: "instant \<Rightarrow> db \<Rightarrow> exn + uuid \<times> db \<Rightarrow> (exn + uuid) \<times> db" where
  "committed_work now d r =
     (case r of
        Inl e \<Rightarrow> (Inl e, d)
      | Inr (oid, w) \<Rightarrow> if db_fits (touch now d w) then (Inr oid, touch now d w) else (Inl DBAPIError, d))"

lemma with_id_simps [simp]: "snd (with_id f rs) = snd rs" "with_id f (r, s) = (map_sum id f r, s)"
  by (simp_all add: with_id_def)

lemma order_result_work:
  assumes "clean s" and "db_fits (durable s)"
    and ids: "\<And>oid w. body (durable s) = Inr (oid, w) \<Longrightarrow> oid \<in> o_id ` set (orders w)"
  shows "map_prod id durable (with_id or_id (order_result (with_transaction now s body))) =
    committed_work now (durable s) (body (durable s))"
proof -
  obtain r s' where run: "with_transaction now s body = (r, s')" by force
  note eq = with_transaction_eq [OF assms(1,2) run]
  have "map_prod id durable (with_id or_id (order_result (r, s'))) = committed_work now (durable s) (body (durable s))"
  proof (cases "body (durable s)")
    case (Inl e)
    with eq show ?thesis by (simp add: committed_work_def order_result_def)
  next
    case (Inr x)
    obtain oid w where x: "x = (oid, w)" by (cases x)
    show ?thesis
    proof (cases "db_fits (touch now (durable s) w)")
      case False
      with eq Inr x show ?thesis by (simp add: committed_work_def order_result_def)
    next
      case True
      have "find_by o_id oid (orders (touch now (durable s) w)) \<noteq> None"
        using ids [of oid w] Inr x by (auto simp: find_by_None_iff image_iff)
      then obtain od where "find_by o_id oid (orders (touch now (durable s) w)) = Some od" by blast
      moreover from this have "o_id od = oid" by (auto dest: find_by_SomeD)
      ultimately show ?thesis
        using eq Inr x True
        by (simp add: committed_work_def order_result_def refresh_def to_order_response_def Let_def)
    qed
  qed
  then show ?thesis by (simp add: run)
qed

text \<open>The product handlers: a lookup, a change of the row, a commit.\<close>

lemma commit_work:
  assumes "clean s"
  shows "map_prod id durable (with_id (\<lambda>_. pid) (commit now ((autobegin s)\<lparr>work := w\<rparr>))) =
    committed_work now (durable s) (Inr (pid, w))"
  using assms by (simp add: committed_work_def commit_def flush_def rollback_def clean_def Let_def)

lemma commit_refresh_work:
  assumes "clean s" and "pid \<in> p_id ` set (products w)"
  shows "map_prod id durable (with_id pr_id (commit_refresh now (\<lambda>d. find_by p_id pid (products d)) to_product_response
      ((autobegin s)\<lparr>work := w\<rparr>))) = committed_work now (durable s) (Inr (pid, w))"
proof -
  obtain q where q: "find_by p_id pid (products w) = Some q" "p_id q = pid"
    using assms(2) by (auto simp: find_by_in_keys dest: find_by_SomeD)
  with assms(1) show ?thesis
    by (simp add: committed_work_def commit_refresh_def commit_def flush_def rollback_def refresh_def clean_def Let_def
        to_product_response_def touch_lookup)
qed

lemma on_product_found:
  assumes "on_product pid u change d = Inr x"
  obtains p p' where "one_or_none (filter (\<lambda>p. p_id p = pid) (products d)) = Inr (Some p)"
    and "require_product_owner p u = Inr ()" and "change p = Inr p'" and "x = (pid, put_product p' d)"
  using assms by (auto simp: on_product_def split: sum.splits option.splits)

lemma revise_work:
  assumes "clean s"
  shows "map_prod id durable (with_id pr_id (update_product numeric now pid upd u s)) =
    committed_work now (durable s) (on_product pid u (revised numeric upd) (durable s))"
proof (cases "on_product pid u (revised numeric upd) (durable s)")
  case (Inl e)
  with assms show ?thesis
    by (auto simp: on_product_def revised_def update_product_def committed_work_def clean_def rollback_def
        split: sum.splits option.splits)
next
  case (Inr x)
  then obtain p p' where p: "one_or_none (filter (\<lambda>p. p_id p = pid) (products (durable s))) = Inr (Some p)"
    "require_product_owner p u = Inr ()" "revised numeric upd p = Inr p'" "x = (pid, put_product p' (durable s))"
    by (rule on_product_found)
  from p(1) have found: "p \<in> set (products (durable s))" "p_id p = pid" by (auto dest: one_or_none_SomeD)
  have key: "p_id p' = pid" using revised_Inr(1) [OF p(3)] found(2) by (simp add: same_origin_def)
  obtain status where status: "updated_status upd = Inr status" "updated_product numeric upd status p = Some p'"
    using p(3) by (auto simp: revised_def split: sum.splits option.splits)
  let ?w = "put_product p' (durable s)"
  have "map p_id (products ?w) = map p_id (products (durable s))" by (simp add: put_product_def)
  then have "pid \<in> p_id ` set (products ?w)" using found by (metis image_eqI set_map)
  from commit_refresh_work [OF assms this, of now]
  have "map_prod id durable (with_id pr_id (update_product numeric now pid upd u s)) = committed_work now (durable s) (Inr (pid, ?w))"
    using assms by (simp add: update_product_def clean_def p(1,2) status key put_product_def Let_def)
  with Inr p(4) show ?thesis by simp
qed

lemma archive_work:
  assumes "clean s"
  shows "map_prod id durable (with_id (\<lambda>_. pid) (delete_product now pid u s)) =
    committed_work now (durable s) (on_product pid u (\<lambda>p. Inr (p\<lparr>p_status := ARCHIVED\<rparr>)) (durable s))"
  using assms commit_work [OF assms, of pid now]
  by (auto simp: on_product_def delete_product_def committed_work_def clean_def put_product_def
      split: sum.splits option.splits)

lemma with_order_located:
  assumes "clean s"
  shows "with_order oid u allowed s f =
    (case locate_order oid u allowed (durable s) of Inl e \<Rightarrow> (Inl e, autobegin s) | Inr od \<Rightarrow> f od (autobegin s))"
  using assms
  by (simp add: with_order_def locate_order_def clean_def Let_def split: sum.splits option.splits)

lemma txn_handler_work:
  assumes "clean s" and "db_fits (durable s)" and "tx_view tx = durable s"
  shows "map_prod id durable (txn_handler cfg numeric (tx_clock tx) (tx_ids tx) (tx_op tx) (tx_user tx) s) =
    committed_work (db_now (tx_clock tx)) (durable s) (txn_work cfg numeric tx)"
proof -
  have begun: "clean (autobegin s)" "db_fits (durable (autobegin s))" using assms(1,2) by simp_all
  show ?thesis
  proof (cases "tx_op tx")
    case (CreateOp p)
    with order_result_work [OF assms(1,2) create_order_body_id] show ?thesis
      by (simp add: txn_handler_def txn_work_def create_order_def assms(3))
  next
    case (UpdateOp oid items)
    show ?thesis
    proof (cases "locate_order oid (tx_user tx) {CREATED} (durable s)")
      case (Inl e)
      with UpdateOp show ?thesis
        by (simp add: txn_handler_def txn_work_def update_order_def with_order_located [OF assms(1)]
            assms(3) on_order_def committed_work_def)
    next
      case (Inr od)
      have "oid' \<in> o_id ` set (orders w)"
        if "update_order_body cfg numeric (tx_clock tx) (tx_ids tx) items (tx_user tx) od (durable (autobegin s)) = Inr (oid', w)"
        for oid' w
        using update_order_body_id [OF that] locate_order_Inr(1) [OF Inr] by simp
      from order_result_work [OF begun this] Inr UpdateOp show ?thesis
        by (simp add: txn_handler_def txn_work_def update_order_def with_order_located [OF assms(1)]
            assms(3) on_order_def)
    qed
  next
    case (CancelOp oid)
    show ?thesis
    proof (cases "locate_order oid (tx_user tx) {CREATED, PAYMENT_PENDING} (durable s)")
      case (Inl e)
      with CancelOp show ?thesis
        by (simp add: txn_handler_def txn_work_def cancel_order_def with_order_located [OF assms(1)]
            assms(3) on_order_def committed_work_def)
    next
      case (Inr od)
      have "oid' \<in> o_id ` set (orders w)" if "cancel_order_body od (durable (autobegin s)) = Inr (oid', w)" for oid' w
        using cancel_order_body_id [OF that] locate_order_Inr(1) [OF Inr] by simp
      from order_result_work [OF begun this] Inr CancelOp show ?thesis
        by (simp add: txn_handler_def txn_work_def cancel_order_def with_order_located [OF assms(1)]
            assms(3) on_order_def)
    qed
  next
    case (ReviseOp pid upd)
    with revise_work [OF assms(1)] show ?thesis by (simp add: txn_handler_def txn_work_def assms(3) Let_def)
  next
    case (ArchiveOp pid)
    with archive_work [OF assms(1)] show ?thesis by (simp add: txn_handler_def txn_work_def assms(3) Let_def)
  qed
qed

section \<open>A transaction on its own\<close>

lemma load_items_same:
  assumes "distinct (map o_id (orders d))"
  shows "map (load_items d) (orders d) = orders d"
  using distinct_find_by [OF assms] by (intro map_idI) (simp add: load_items_def)

lemma others_lock_change [simp]: "others_lock (txs[i := tx]) i k = others_lock txs i k"
  by (auto simp: others_lock_def list_ex_iff)

text \<open>
  All statements but the last read everything the handler uses: a cancellation reads no operations of users,
  a change of a product nothing but the user and the product.
\<close>

definition read_view :: "shop_op \<Rightarrow> db \<Rightarrow> db" where
  "read_view op d =
     (case op of
        CancelOp _ \<Rightarrow> d\<lparr>user_operations := []\<rparr>
      | ReviseOp _ _ \<Rightarrow> empty_db\<lparr>users := users d, products := products d\<rparr>
      | ArchiveOp _ \<Rightarrow> empty_db\<lparr>users := users d, products := products d\<rparr>
      | _ \<Rightarrow> d)"

lemma run_reads:
  assumes "i < length (running S)" and "running S ! i = begin_txn u clk ids op"
    and "\<forall>j<length (running S). j \<noteq> i \<longrightarrow> tx_locks (running S ! j) = []" and "distinct (map o_id (orders (committed S)))"
  shows "\<exists>locks. run_schedule cfg numeric (replicate (length (statements_of op) - 1) i) S =
    \<lparr>committed = committed S, running = (running S)[i := \<lparr>tx_user = u, tx_op = op, tx_clock = clk, tx_ids = ids,
       tx_view = read_view op (committed S), tx_left = [FlushCommit], tx_locks = locks, tx_result = None\<rparr>]\<rparr>"
proof -
  have free: "\<not> others_lock (running S) i k" for k using assms(3) by (auto simp: others_lock_def list_ex_iff)
  have d: "\<lparr>users = users (committed S), products = products (committed S), orders = orders (committed S),
      promo_codes = promo_codes (committed S), user_operations = user_operations (committed S)\<rparr> = committed S"
    "\<lparr>users = users (committed S), products = products (committed S), orders = orders (committed S),
      promo_codes = promo_codes (committed S), user_operations = []\<rparr> = (committed S)\<lparr>user_operations := []\<rparr>"
    by simp_all
  show ?thesis
    using assms(1,2) free load_items_same [OF assms(4)]
    by (cases op)
      (simp_all add: run_schedule_def step_def begin_txn_def read_def empty_db_def numeral_eq_Suc list_ex_iff d read_view_def,
       (rule exI, rule refl)+)
qed

lemma cancel_order_body_view:
  "cancel_order_body od (d\<lparr>user_operations := ops\<rparr>) =
    map_sum id (map_prod id (\<lambda>w. w\<lparr>user_operations := ops\<rparr>)) (cancel_order_body od d)"
  by (simp add: cancel_order_body_def put_order_def Let_def split: option.splits sum.splits)

lemma cancel_order_body_operations: "cancel_order_body od d = Inr (oid, w) \<Longrightarrow> user_operations w = user_operations d"
  by (auto elim!: cancel_order_body_Inr)

lemma write_back_view: "user_operations w = user_operations v \<Longrightarrow>
  write_back now (v\<lparr>user_operations := []\<rparr>) (w\<lparr>user_operations := []\<rparr>) d = write_back now v w d"
  by (simp add: write_back_def)

lemma locate_order_view [simp]: "locate_order oid u allowed (d\<lparr>user_operations := ops\<rparr>) = locate_order oid u allowed d"
  by (simp add: locate_order_def)

text \<open>A product operation sees and writes nothing but products.\<close>

lemma on_product_view:
  assumes "products v' = products v"
  shows "on_product pid u change v' = map_sum id (map_prod id (\<lambda>w. v'\<lparr>products := products w\<rparr>)) (on_product pid u change v)"
  using assms by (simp add: on_product_def put_product_def split: sum.splits option.splits)

lemma write_back_products:
  "write_back now v (v\<lparr>products := ps\<rparr>) d = d\<lparr>products := map (write_product now (products v) ps) (products d)\<rparr>"
  by (simp add: write_back_def write_orders_kept write_promo_codes_kept)

lemma finish_eq_iff [simp]: "finish r tx = finish r' tx \<longleftrightarrow> r = r'"
  by (metis finish_fields(3) option.inject)

lemma not_finished: "tx_result tx = None \<Longrightarrow> tx \<noteq> finish r tx"
  by (metis finish_fields(3) option.distinct(1))

lemma flush_product:
  assumes "txn_work cfg numeric tx = on_product pid u change (tx_view tx)"
    and "txn_work cfg numeric tx' = on_product pid u change (tx_view tx')"
    and "products (tx_view tx') = products (tx_view tx)" and "tx_clock tx' = tx_clock tx" and "tx_result tx = None"
    and "run_statement cfg numeric txs i FlushCommit d tx = (d', finish r tx)"
  shows "run_statement cfg numeric txs i FlushCommit d tx' = (d', finish r tx')"
proof (cases "on_product pid u change (tx_view tx)")
  case (Inl e)
  with assms(1,2,6) on_product_view [OF assms(3), of pid u change] show ?thesis by simp
next
  case (Inr x)
  then obtain p' where x: "x = (pid, put_product p' (tx_view tx))" by (auto elim: on_product_found)
  let ?ps = "replace_by p_id p' (products (tx_view tx))"
  have w: "put_product p' (tx_view tx) = (tx_view tx)\<lparr>products := ?ps\<rparr>" by (simp add: put_product_def)
  have "written_products (tx_view tx') ((tx_view tx')\<lparr>products := ?ps\<rparr>) =
      written_products (tx_view tx) ((tx_view tx)\<lparr>products := ?ps\<rparr>)"
    by (simp add: written_products_def assms(3))
  then show ?thesis
    using assms(1,2,4,6) on_product_view [OF assms(3), of pid u change] Inr x w not_finished [OF assms(5)]
    by (auto simp: write_back_products assms(3) Let_def split: if_splits)
qed

lemma flush_view:
  assumes "run_statement cfg numeric txs i FlushCommit d tx = (d', finish r tx)" and "tx_result tx = None"
    and "tx_view tx = v"
  shows "run_statement cfg numeric txs i FlushCommit d (tx\<lparr>tx_view := read_view (tx_op tx) v\<rparr>) =
    (d', finish r (tx\<lparr>tx_view := read_view (tx_op tx) v\<rparr>))"
proof -
  have same: "tx\<lparr>tx_view := v\<rparr> = tx" by (simp add: assms(3) [symmetric])
  show ?thesis
  proof (cases "tx_op tx")
    case (CancelOp oid)
    note wait = not_finished [OF assms(2), of r]
    show ?thesis
    proof (cases "locate_order oid (tx_user tx) {CREATED, PAYMENT_PENDING} v")
      case (Inl e)
      with assms(1,3) CancelOp show ?thesis by (simp add: txn_work_def on_order_def read_view_def)
    next
      case (Inr od)
      show ?thesis
      proof (cases "cancel_order_body od v")
        case (Inl e)
        with assms(1,3) CancelOp \<open>locate_order _ _ _ _ = _\<close> show ?thesis
          by (simp add: txn_work_def on_order_def read_view_def cancel_order_body_view)
      next
        case (Inr x)
        obtain oid' w where x: "x = (oid', w)" by (cases x)
        with Inr have "user_operations w = user_operations v" using cancel_order_body_operations by simp
        from write_back_view [OF this] assms(1,3) wait CancelOp \<open>locate_order _ _ _ _ = _\<close> Inr x show ?thesis
          by (simp add: txn_work_def on_order_def read_view_def cancel_order_body_view Let_def written_products_def
              split: if_splits)
      qed
    qed
  next
    case (ReviseOp pid upd)
    show ?thesis
      by (rule flush_product [OF _ _ _ _ _ assms(1), of pid "tx_user tx" "revised numeric upd"])
        (simp_all add: ReviseOp txn_work_def read_view_def assms(2,3) Let_def)
  next
    case (ArchiveOp pid)
    show ?thesis
      by (rule flush_product [OF _ _ _ _ _ assms(1), of pid "tx_user tx" "\<lambda>p. Inr (p\<lparr>p_status := ARCHIVED\<rparr>)"])
        (simp_all add: ArchiveOp txn_work_def read_view_def assms(2,3) Let_def)
  qed (use assms(1) same in \<open>simp_all add: read_view_def\<close>)
qed

text \<open>
  C23: A transaction whose statements nothing comes in between does what the handler of the operation does
  for a request on its own: the same result or the same exception, and the same data, while the other
  transactions stay where they are. The statements are those of the interleaved runs; the handler is the
  function that requests one after the other go through, for orders as for products.
\<close>

theorem undisturbed_transaction:
  assumes "db_fits (committed S)" and "i < length (running S)" and "running S ! i = begin_txn u clk ids op"
    and "\<forall>j<length (running S). j \<noteq> i \<longrightarrow> tx_locks (running S ! j) = []"
  shows "\<exists>tx. run_schedule cfg numeric (replicate (length (statements_of op)) i) S =
      \<lparr>committed = durable (snd (txn_handler cfg numeric clk ids op u (SessionLocal (committed S)))),
       running = (running S)[i := tx]\<rparr> \<and>
    tx_left tx = [] \<and> tx_locks tx = [] \<and>
    tx_result tx = Some (fst (txn_handler cfg numeric clk ids op u (SessionLocal (committed S))))"
proof -
  let ?d = "committed S" and ?h = "txn_handler cfg numeric clk ids op u (SessionLocal (committed S))"
  obtain locks where reads: "run_schedule cfg numeric (replicate (length (statements_of op) - 1) i) S =
      \<lparr>committed = ?d, running = (running S)[i := \<lparr>tx_user = u, tx_op = op, tx_clock = clk, tx_ids = ids,
         tx_view = read_view op ?d, tx_left = [FlushCommit], tx_locks = locks, tx_result = None\<rparr>]\<rparr>"
    using run_reads [OF assms(2-4) db_fits_distinct(4) [OF assms(1)]] by blast
  let ?tx = "\<lparr>tx_user = u, tx_op = op, tx_clock = clk, tx_ids = ids, tx_view = ?d, tx_left = [FlushCommit],
      tx_locks = locks, tx_result = None\<rparr>"
  let ?tv = "?tx\<lparr>tx_view := read_view op ?d\<rparr>"
  have s: "durable (SessionLocal ?d) = ?d" "clean (SessionLocal ?d)" "db_fits (durable (SessionLocal ?d))"
    "tx_view ?tx = durable (SessionLocal ?d)"
    using assms(1) clean_SessionLocal by (simp_all add: SessionLocal_def)
  have handler: "committed_work (db_now clk) ?d (txn_work cfg numeric ?tx) = (fst ?h, durable (snd ?h))"
    using txn_handler_work [OF s(2-4), of cfg numeric] by (cases ?h) (simp add: s(1))
  have last: "replicate (length (statements_of op)) i = replicate (length (statements_of op) - 1) i @ [i]"
    by (cases op) (simp_all add: numeral_eq_Suc)
  have free: "\<not> list_ex (others_lock ((running S)[i := tx]) i) ks" for tx ks
    using assms(3,4) by (auto simp: others_lock_def list_ex_iff begin_txn_def)
  have flush: "run_statement cfg numeric ((running S)[i := tx]) i FlushCommit ?d ?tv = (durable (snd ?h), finish (fst ?h) ?tv)" for tx
  proof -
    have "run_statement cfg numeric ((running S)[i := tx]) i FlushCommit ?d ?tx = (durable (snd ?h), finish (fst ?h) ?tx)"
      using write_back_read [of ?tx cfg numeric] assms(1) handler free
      by (auto simp: committed_work_def Let_def split: sum.splits if_splits)
    from flush_view [OF this, of ?d] show ?thesis by simp
  qed
  have "run_schedule cfg numeric (replicate (length (statements_of op)) i) S =
      \<lparr>committed = durable (snd ?h), running = (running S)[i := finish (fst ?h) ?tv]\<rparr>"
    unfolding last run_schedule_def fold_append comp_def reads [unfolded run_schedule_def]
    using assms(2) flush by (simp add: step_def)
  then show ?thesis by (intro exI [of _ "finish (fst ?h) ?tv"]) simp
qed

definition serial_shop :: shop where
  "serial_shop = open_shop sample_shop
     [begin_txn sample_buyer (sample_clock 400000000) (tk_new_ids (sample_tick 400000000 ''x'' ''o1'')) (CreateOp sample_basket),
      begin_txn sample_buyer (sample_clock 400000000) (tk_new_ids (sample_tick 400000000 ''x'' ''o2'')) (CancelOp ''o1'')]"

theorem undisturbed_transaction_witness:
  "stock_of (products (committed (run_schedule default_settings sample_numeric (replicate 6 0) serial_shop))) ''p1'' = 4 \<and>
   o_id (hd (orders (committed (run_schedule default_settings sample_numeric (replicate 6 0) serial_shop)))) = ''o1''"
proof -
  let ?op = "CreateOp sample_basket" and ?ids = "tk_new_ids (sample_tick 400000000 ''x'' ''o1'')"
  let ?h = "txn_handler default_settings sample_numeric (sample_clock 400000000) ?ids ?op sample_buyer (SessionLocal sample_shop)"
  have "committed serial_shop = sample_shop" "running serial_shop ! 0 = begin_txn sample_buyer (sample_clock 400000000) ?ids ?op"
    "0 < length (running serial_shop)" "\<forall>j<length (running serial_shop). j \<noteq> 0 \<longrightarrow> tx_locks (running serial_shop ! j) = []"
    by (auto simp: serial_shop_def open_shop_def begin_txn_def less_Suc_eq nth_Cons')
  from undisturbed_transaction [of serial_shop 0, OF _ this(3,2,4), unfolded this(1), OF sample_fits(1),
      of default_settings sample_numeric]
  have "committed (run_schedule default_settings sample_numeric (replicate 6 0) serial_shop) = durable (snd ?h)"
    by (auto simp: numeral_eq_Suc)
  moreover have "stock_of (products (durable (snd ?h))) ''p1'' = 4 \<and> o_id (hd (orders (durable (snd ?h)))) = ''o1''"
    unfolding sample_shop_eq by code_simp
  ultimately show ?thesis by simp
qed

end
