(* ===== verification/Schema_Migrations.thy ===== *)
theory Schema_Migrations
  imports Models
begin

text \<open>
  The migrations (app/alembic/versions of the marketplace and of dz_5/aggregation-service) as lists of
  schema operations, what PostgreSQL does with such an operation, and the tables that the mapped
  classes of \<open>models/\<close> ask for. The property compares the two and runs the migrations up, down and up
  again.
\<close>

section \<open>Schemas\<close>

datatype column_type =
  UUID | VarChar nat | TextType | Numeric nat nat | Integer | FloatType | Boolean | DateType | DateTimeTZ | JSONB
| EnumType string "string list"

record db_column =
  col_name :: string
  col_type :: column_type
  col_nullable :: bool
  col_server_default :: "string option"

definition column :: "string \<Rightarrow> column_type \<Rightarrow> bool \<Rightarrow> string option \<Rightarrow> db_column" where
  "column name t nullable dflt = \<lparr>col_name = name, col_type = t, col_nullable = nullable, col_server_default = dflt\<rparr>"

record db_table =
  columns :: "db_column list"
  primary_key :: "string list"
  unique_keys :: "string list list"
  foreign_keys :: "(string \<times> string) list"

record db_index =
  ix_name :: string
  ix_table :: string
  ix_columns :: "string list"
  ix_unique :: bool

record schema =
  schema_tables :: "(string \<times> db_table) list"
  schema_indexes :: "db_index list"
  schema_enums :: "string list"

section \<open>Operations\<close>

datatype schema_op =
  CreateTable string db_table
| CreateIndex string string "string list" bool
| DropTable string
| DropIndex string

datatype schema_error =
  DuplicateTable string
| UndefinedTable string
| DuplicateObject string
| UndefinedObject string
| DependentObjects string

definition enums_of :: "db_table \<Rightarrow> string list" where
  "enums_of t = List.map_filter (\<lambda>c. case col_type c of EnumType n _ \<Rightarrow> Some n | _ \<Rightarrow> None) (columns t)"

definition references :: "string \<Rightarrow> db_table \<Rightarrow> bool" where
  "references n t = list_ex (\<lambda>(_, m). m = n) (foreign_keys t)"

text \<open>
  \<open>create_table\<close> first creates the enumeration types of its columns, without asking whether they exist;
  \<open>drop_table\<close> does not know them and leaves them, it drops the indexes of the table, and it is refused
  while another table has a foreign key to it.
\<close>

fun apply_op :: "schema_op \<Rightarrow> schema \<Rightarrow> schema_error + schema" where
  "apply_op (CreateTable n t) s =
     (case List.find (\<lambda>e. e \<in> set (schema_enums s)) (enums_of t) of
        Some e \<Rightarrow> Inl (DuplicateObject e)
      | None \<Rightarrow>
          if n \<in> fst ` set (schema_tables s) then Inl (DuplicateTable n)
          else (case List.find (\<lambda>(_, m). m \<notin> fst ` set (schema_tables s)) (foreign_keys t) of
                  Some (_, m) \<Rightarrow> Inl (UndefinedTable m)
                | None \<Rightarrow> Inr (s\<lparr>schema_tables := schema_tables s @ [(n, t)], schema_enums := schema_enums s @ enums_of t\<rparr>)))"
| "apply_op (CreateIndex i n cs u) s =
     (if n \<notin> fst ` set (schema_tables s) then Inl (UndefinedTable n)
      else if i \<in> ix_name ` set (schema_indexes s) then Inl (DuplicateTable i)
      else Inr (s\<lparr>schema_indexes := schema_indexes s @ [\<lparr>ix_name = i, ix_table = n, ix_columns = cs, ix_unique = u\<rparr>]\<rparr>))"
| "apply_op (DropTable n) s =
     (if n \<notin> fst ` set (schema_tables s) then Inl (UndefinedTable n)
      else if list_ex (\<lambda>(m, t). m \<noteq> n \<and> references n t) (schema_tables s) then Inl (DependentObjects n)
      else Inr (s\<lparr>schema_tables := filter (\<lambda>(m, _). m \<noteq> n) (schema_tables s),
                  schema_indexes := filter (\<lambda>i. ix_table i \<noteq> n) (schema_indexes s)\<rparr>))"
| "apply_op (DropIndex i) s =
     (if i \<notin> ix_name ` set (schema_indexes s) then Inl (UndefinedObject i)
      else Inr (s\<lparr>schema_indexes := filter (\<lambda>x. ix_name x \<noteq> i) (schema_indexes s)\<rparr>))"

text \<open>A migration runs in one transaction: an operation that fails undoes the ones before it.\<close>

fun apply_ops :: "schema_op list \<Rightarrow> schema \<Rightarrow> schema_error + schema" where
  "apply_ops [] s = Inr s"
| "apply_ops (x # xs) s = (case apply_op x s of Inl e \<Rightarrow> Inl e | Inr s' \<Rightarrow> apply_ops xs s')"

definition migrate :: "schema_op list \<Rightarrow> schema \<Rightarrow> schema_error option \<times> schema" where
  "migrate xs s = (case apply_ops xs s of Inl e \<Rightarrow> (Some e, s) | Inr s' \<Rightarrow> (None, s'))"

section \<open>The initial schema of the marketplace\<close>

definition promo_codes_table :: db_table where
  "promo_codes_table =
     \<lparr>columns =
          [column ''id'' UUID False None,
           column ''code'' (VarChar 20) False None,
           column ''discount_type'' (EnumType ''discount_type'' [''PERCENTAGE'', ''FIXED_AMOUNT'']) False None,
           column ''discount_value'' (Numeric 12 2) False None,
           column ''min_order_amount'' (Numeric 12 2) False None,
           column ''max_uses'' Integer False None,
           column ''current_uses'' Integer False None,
           column ''valid_from'' DateTimeTZ False None,
           column ''valid_until'' DateTimeTZ False None,
           column ''active'' Boolean False None,
           column ''created_at'' DateTimeTZ False (Some ''now()'')],
        primary_key = [''id''], unique_keys = [[''code'']],
        foreign_keys = []\<rparr>"

definition users_table :: db_table where
  "users_table =
     \<lparr>columns =
          [column ''id'' UUID False None,
           column ''email'' (VarChar 255) False None,
           column ''hashed_password'' (VarChar 255) False None,
           column ''role'' (EnumType ''user_role'' [''USER'', ''SELLER'', ''ADMIN'']) False None,
           column ''created_at'' DateTimeTZ False (Some ''now()'')],
        primary_key = [''id''], unique_keys = [],
        foreign_keys = []\<rparr>"

definition orders_table :: db_table where
  "orders_table =
     \<lparr>columns =
          [column ''id'' UUID False None,
           column ''user_id'' UUID False None,
           column ''status'' (EnumType ''order_status'' [''CREATED'', ''PAYMENT_PENDING'', ''PAID'', ''SHIPPED'', ''COMPLETED'', ''CANCELED'']) False None,
           column ''promo_code_id'' UUID True None,
           column ''total_amount'' (Numeric 12 2) False None,
           column ''discount_amount'' (Numeric 12 2) False None,
           column ''created_at'' DateTimeTZ False (Some ''now()''),
           column ''updated_at'' DateTimeTZ False (Some ''now()'')],
        primary_key = [''id''], unique_keys = [],
        foreign_keys = [(''promo_code_id'', ''promo_codes''), (''user_id'', ''users'')]\<rparr>"

definition products_table :: db_table where
  "products_table =
     \<lparr>columns =
          [column ''id'' UUID False None,
           column ''name'' (VarChar 255) False None,
           column ''description'' (VarChar 4000) True None,
           column ''price'' (Numeric 12 2) False None,
           column ''stock'' Integer False None,
           column ''category'' (VarChar 100) False None,
           column ''status'' (EnumType ''product_status'' [''ACTIVE'', ''INACTIVE'', ''ARCHIVED'']) False None,
           column ''seller_id'' UUID False None,
           column ''created_at'' DateTimeTZ False (Some ''now()''),
           column ''updated_at'' DateTimeTZ False (Some ''now()'')],
        primary_key = [''id''], unique_keys = [],
        foreign_keys = [(''seller_id'', ''users'')]\<rparr>"

definition user_operations_table :: db_table where
  "user_operations_table =
     \<lparr>columns =
          [column ''id'' UUID False None,
           column ''user_id'' UUID False None,
           column ''operation_type'' (EnumType ''operation_type'' [''CREATE_ORDER'', ''UPDATE_ORDER'']) False None,
           column ''created_at'' DateTimeTZ False (Some ''now()'')],
        primary_key = [''id''], unique_keys = [],
        foreign_keys = [(''user_id'', ''users'')]\<rparr>"

definition order_items_table :: db_table where
  "order_items_table =
     \<lparr>columns =
          [column ''id'' UUID False None,
           column ''order_id'' UUID False None,
           column ''product_id'' UUID False None,
           column ''quantity'' Integer False None,
           column ''price_at_order'' (Numeric 12 2) False None],
        primary_key = [''id''], unique_keys = [],
        foreign_keys = [(''order_id'', ''orders''), (''product_id'', ''products'')]\<rparr>"

definition upgrade :: "schema_op list" where
  "upgrade =
     [CreateTable ''promo_codes'' promo_codes_table,
      CreateTable ''users'' users_table,
      CreateIndex ''ix_users_email'' ''users'' [''email''] True,
      CreateTable ''orders'' orders_table,
      CreateTable ''products'' products_table,
      CreateTable ''user_operations'' user_operations_table,
      CreateTable ''order_items'' order_items_table]"

definition downgrade :: "schema_op list" where
  "downgrade =
     [DropTable ''order_items'', DropTable ''user_operations'', DropTable ''products'', DropTable ''orders'',
      DropIndex ''ix_users_email'', DropTable ''users'', DropTable ''promo_codes'']"

section \<open>The table of the metrics\<close>

definition metrics_upgrade :: "schema_op list" where
  "metrics_upgrade =
     [CreateTable ''daily_metrics''
       \<lparr>columns =
          [column ''metric_date'' DateType False None,
           column ''metric_name'' TextType False None,
           column ''dimension_key'' TextType False (Some []),
           column ''dimension_value'' TextType False (Some []),
           column ''metric_value'' FloatType False None,
           column ''computed_at'' DateTimeTZ False (Some ''NOW()''),
           column ''metadata'' JSONB False (Some ''{}'')],
        primary_key = [''metric_date'', ''metric_name'', ''dimension_key'', ''dimension_value''], unique_keys = [],
        foreign_keys = []\<rparr>,
      CreateIndex ''idx_daily_metrics_lookup'' ''daily_metrics'' [''metric_date'', ''metric_name''] False]"

definition metrics_downgrade :: "schema_op list" where
  "metrics_downgrade = [DropIndex ''idx_daily_metrics_lookup'', DropTable ''daily_metrics'']"

section \<open>The mapped classes\<close>

record orm_column =
  oc_name :: string
  oc_type :: column_type
  oc_primary_key :: bool
  oc_unique :: bool
  oc_index :: bool
  oc_nullable :: bool
  oc_server_default :: "string option"
  oc_references :: "string option"

text \<open>
  A column of the classes: not null unless it says otherwise, as all of them but two do (a primary key
  is never null).
\<close>

definition mapped_column :: "string \<Rightarrow> column_type \<Rightarrow> orm_column" where
  "mapped_column name t =
     \<lparr>oc_name = name, oc_type = t, oc_primary_key = False, oc_unique = False, oc_index = False, oc_nullable = False,
      oc_server_default = None, oc_references = None\<rparr>"

fun operation_type_value :: "operation_type \<Rightarrow> string" where
  "operation_type_value CREATE_ORDER = ''CREATE_ORDER''"
| "operation_type_value UPDATE_ORDER = ''UPDATE_ORDER''"

definition User_class :: "string \<times> orm_column list" where
  "User_class =
     (''users'',
      [(mapped_column ''id'' UUID)\<lparr>oc_primary_key := True\<rparr>,
       (mapped_column ''email'' (VarChar 255))\<lparr>oc_unique := True, oc_index := True\<rparr>,
       mapped_column ''hashed_password'' (VarChar 255),
       mapped_column ''role'' (EnumType ''user_role'' (map user_role_value [USER, SELLER, ADMIN])),
       (mapped_column ''created_at'' DateTimeTZ)\<lparr>oc_server_default := Some ''now()''\<rparr>])"

definition Product_class :: "string \<times> orm_column list" where
  "Product_class =
     (''products'',
      [(mapped_column ''id'' UUID)\<lparr>oc_primary_key := True\<rparr>,
       mapped_column ''name'' (VarChar 255),
       (mapped_column ''description'' (VarChar 4000))\<lparr>oc_nullable := True\<rparr>,
       mapped_column ''price'' (Numeric 12 2),
       mapped_column ''stock'' Integer,
       mapped_column ''category'' (VarChar 100),
       mapped_column ''status'' (EnumType ''product_status'' (map product_status_value [ACTIVE, INACTIVE, ARCHIVED])),
       (mapped_column ''seller_id'' UUID)\<lparr>oc_references := Some ''users''\<rparr>,
       (mapped_column ''created_at'' DateTimeTZ)\<lparr>oc_server_default := Some ''now()''\<rparr>,
       (mapped_column ''updated_at'' DateTimeTZ)\<lparr>oc_server_default := Some ''now()''\<rparr>])"

definition Order_class :: "string \<times> orm_column list" where
  "Order_class =
     (''orders'',
      [(mapped_column ''id'' UUID)\<lparr>oc_primary_key := True\<rparr>,
       (mapped_column ''user_id'' UUID)\<lparr>oc_references := Some ''users''\<rparr>,
       mapped_column ''status'' (EnumType ''order_status'' (map order_status_value [CREATED, PAYMENT_PENDING, PAID, SHIPPED, COMPLETED, CANCELED])),
       (mapped_column ''promo_code_id'' UUID)\<lparr>oc_references := Some ''promo_codes'', oc_nullable := True\<rparr>,
       mapped_column ''total_amount'' (Numeric 12 2),
       mapped_column ''discount_amount'' (Numeric 12 2),
       (mapped_column ''created_at'' DateTimeTZ)\<lparr>oc_server_default := Some ''now()''\<rparr>,
       (mapped_column ''updated_at'' DateTimeTZ)\<lparr>oc_server_default := Some ''now()''\<rparr>])"

definition OrderItem_class :: "string \<times> orm_column list" where
  "OrderItem_class =
     (''order_items'',
      [(mapped_column ''id'' UUID)\<lparr>oc_primary_key := True\<rparr>,
       (mapped_column ''order_id'' UUID)\<lparr>oc_references := Some ''orders''\<rparr>,
       (mapped_column ''product_id'' UUID)\<lparr>oc_references := Some ''products''\<rparr>,
       mapped_column ''quantity'' Integer,
       mapped_column ''price_at_order'' (Numeric 12 2)])"

definition PromoCode_class :: "string \<times> orm_column list" where
  "PromoCode_class =
     (''promo_codes'',
      [(mapped_column ''id'' UUID)\<lparr>oc_primary_key := True\<rparr>,
       (mapped_column ''code'' (VarChar 20))\<lparr>oc_unique := True\<rparr>,
       mapped_column ''discount_type'' (EnumType ''discount_type'' (map discount_type_value [PERCENTAGE, FIXED_AMOUNT])),
       mapped_column ''discount_value'' (Numeric 12 2),
       mapped_column ''min_order_amount'' (Numeric 12 2),
       mapped_column ''max_uses'' Integer,
       mapped_column ''current_uses'' Integer,
       mapped_column ''valid_from'' DateTimeTZ,
       mapped_column ''valid_until'' DateTimeTZ,
       mapped_column ''active'' Boolean,
       (mapped_column ''created_at'' DateTimeTZ)\<lparr>oc_server_default := Some ''now()''\<rparr>])"

definition UserOperation_class :: "string \<times> orm_column list" where
  "UserOperation_class =
     (''user_operations'',
      [(mapped_column ''id'' UUID)\<lparr>oc_primary_key := True\<rparr>,
       (mapped_column ''user_id'' UUID)\<lparr>oc_references := Some ''users''\<rparr>,
       mapped_column ''operation_type'' (EnumType ''operation_type'' (map operation_type_value [CREATE_ORDER, UPDATE_ORDER])),
       (mapped_column ''created_at'' DateTimeTZ)\<lparr>oc_server_default := Some ''now()''\<rparr>])"

definition mapped_classes :: "(string \<times> orm_column list) list" where
  "mapped_classes = [Order_class, OrderItem_class, Product_class, PromoCode_class, User_class, UserOperation_class]"

text \<open>
  The table and the indexes that SQLAlchemy derives from a class: a unique column that also asks for an
  index has a unique index, another unique column a constraint.
\<close>

definition table_of_class :: "orm_column list \<Rightarrow> db_table" where
  "table_of_class cs =
     \<lparr>columns = map (\<lambda>c. column (oc_name c) (oc_type c) (oc_nullable c) (oc_server_default c)) cs,
      primary_key = map oc_name (filter oc_primary_key cs),
      unique_keys = map (\<lambda>c. [oc_name c]) (filter (\<lambda>c. oc_unique c \<and> \<not> oc_index c) cs),
      foreign_keys = List.map_filter (\<lambda>c. map_option (\<lambda>n. (oc_name c, n)) (oc_references c)) cs\<rparr>"

definition indexes_of_class :: "string \<Rightarrow> orm_column list \<Rightarrow> db_index list" where
  "indexes_of_class n cs =
     map (\<lambda>c. \<lparr>ix_name = ''ix_'' @ n @ ''_'' @ oc_name c, ix_table = n, ix_columns = [oc_name c], ix_unique = oc_unique c\<rparr>)
       (filter oc_index cs)"

text \<open>Two tables are the same up to the order of their keys.\<close>

definition same_table :: "db_table \<Rightarrow> db_table \<Rightarrow> bool" where
  "same_table t t' \<longleftrightarrow>
     columns t = columns t' \<and> primary_key t = primary_key t' \<and> set (unique_keys t) = set (unique_keys t') \<and>
     set (foreign_keys t) = set (foreign_keys t')"

section \<open>Properties\<close>

text \<open>What the upgrade adds to a schema.\<close>

definition new_tables :: "(string \<times> db_table) list" where
  "new_tables =
     [(''promo_codes'', promo_codes_table), (''users'', users_table), (''orders'', orders_table),
      (''products'', products_table), (''user_operations'', user_operations_table), (''order_items'', order_items_table)]"

definition new_enums :: "string list" where
  "new_enums = [''discount_type'', ''user_role'', ''order_status'', ''product_status'', ''operation_type'']"

lemmas table_defs = promo_codes_table_def users_table_def orders_table_def products_table_def
  user_operations_table_def order_items_table_def

lemma enums_of_tables:
  "enums_of promo_codes_table = [''discount_type'']" "enums_of users_table = [''user_role'']"
  "enums_of orders_table = [''order_status'']" "enums_of products_table = [''product_status'']"
  "enums_of user_operations_table = [''operation_type'']" "enums_of order_items_table = []"
  by (simp_all add: enums_of_def table_defs column_def map_filter_simps)

lemma foreign_keys_of_tables:
  "foreign_keys promo_codes_table = []" "foreign_keys users_table = []"
  "foreign_keys orders_table = [(''promo_code_id'', ''promo_codes''), (''user_id'', ''users'')]"
  "foreign_keys products_table = [(''seller_id'', ''users'')]"
  "foreign_keys user_operations_table = [(''user_id'', ''users'')]"
  "foreign_keys order_items_table = [(''order_id'', ''orders''), (''product_id'', ''products'')]"
  by (simp_all add: table_defs)

lemma references_tables:
  "\<not> references n promo_codes_table" "\<not> references n users_table"
  "references n orders_table \<longleftrightarrow> n = ''promo_codes'' \<or> n = ''users''"
  "references n products_table \<longleftrightarrow> n = ''users''" "references n user_operations_table \<longleftrightarrow> n = ''users''"
  "references n order_items_table \<longleftrightarrow> n = ''orders'' \<or> n = ''products''"
  by (auto simp: references_def foreign_keys_of_tables)

text \<open>A schema that has none of the names the migration uses, and no foreign key to its tables.\<close>

definition free_schema :: "schema \<Rightarrow> bool" where
  "free_schema s \<longleftrightarrow>
     list_all (\<lambda>n. n \<notin> fst ` set (schema_tables s)) (map fst new_tables) \<and>
     list_all (\<lambda>n. list_all (\<lambda>(m, t). \<not> references n t) (schema_tables s)) (map fst new_tables) \<and>
     list_all (\<lambda>n. list_all (\<lambda>i. ix_table i \<noteq> n) (schema_indexes s)) (map fst new_tables) \<and>
     ''ix_users_email'' \<notin> ix_name ` set (schema_indexes s) \<and>
     list_all (\<lambda>e. e \<notin> set (schema_enums s)) new_enums"

lemma filter_other_tables: "n \<notin> fst ` set ts \<Longrightarrow> filter (\<lambda>(m, t). m \<noteq> n) ts = ts"
  by (induction ts) auto

lemma filter_other_index: "n \<notin> ix_name ` set xs \<Longrightarrow> filter (\<lambda>x. ix_name x \<noteq> n) xs = xs"
  by (induction xs) auto

lemma filter_other_index_tables: "list_all (\<lambda>i. ix_table i \<noteq> n) xs \<Longrightarrow> filter (\<lambda>x. ix_table x \<noteq> n) xs = xs"
  by (induction xs) auto

lemma no_references: "list_all (\<lambda>(m, t). \<not> references n t) ts \<Longrightarrow> \<not> list_ex (\<lambda>(m, t). m \<noteq> n \<and> references n t) ts"
  by (induction ts) auto

definition upgraded :: "schema \<Rightarrow> schema" where
  "upgraded s =
     \<lparr>schema_tables = schema_tables s @ new_tables,
      schema_indexes = schema_indexes s @ concat (map (\<lambda>(n, cs). indexes_of_class n cs) mapped_classes),
      schema_enums = schema_enums s @ new_enums\<rparr>"

lemma class_indexes:
  "concat (map (\<lambda>(n, cs). indexes_of_class n cs) mapped_classes) =
     [\<lparr>ix_name = ''ix_users_email'', ix_table = ''users'', ix_columns = [''email''], ix_unique = True\<rparr>]"
  by code_simp

lemma upgrade_ok:
  assumes "free_schema s"
  shows "migrate upgrade s = (None, upgraded s)"
  using assms
  by (simp add: migrate_def upgrade_def enums_of_tables foreign_keys_of_tables free_schema_def upgraded_def class_indexes
      new_tables_def new_enums_def)

lemma downgrade_ok:
  assumes "free_schema s"
  shows "migrate downgrade (upgraded s) = (None, s\<lparr>schema_enums := schema_enums s @ new_enums\<rparr>)"
  using assms
  by (simp add: migrate_def downgrade_def free_schema_def upgraded_def class_indexes references_tables
      new_tables_def new_enums_def filter_other_tables filter_other_index filter_other_index_tables no_references)

lemma second_upgrade_fails:
  "migrate upgrade (s\<lparr>schema_enums := schema_enums s @ new_enums\<rparr>) =
     (Some (DuplicateObject ''discount_type''), s\<lparr>schema_enums := schema_enums s @ new_enums\<rparr>)"
  by (simp add: migrate_def upgrade_def enums_of_tables new_enums_def)

lemma classes_match: "list_all (\<lambda>(n, cs). \<exists>t\<in>set new_tables. fst t = n \<and> same_table (snd t) (table_of_class cs)) mapped_classes"
  by code_simp

lemma new_table_names: "distinct (map fst new_tables) \<and> set (map fst new_tables) = set (map fst mapped_classes)"
  by code_simp

text \<open>
  C5: In a database where its names are free, the first migration creates exactly the tables and indexes
  that the mapped classes ask for, column by column, and touches no other; its downgrade removes them in
  an order that no foreign key forbids. But the types of the enumerations stay behind, and so the
  migration cannot be run again: it stops at the first type and is rolled back.
\<close>

theorem migration_matches_models:
  assumes "free_schema s"
  shows "\<exists>s1 s2. migrate upgrade s = (None, s1) \<and>
    (\<exists>ts. schema_tables s1 = schema_tables s @ ts \<and> distinct (map fst ts) \<and> set (map fst ts) = set (map fst mapped_classes) \<and>
       (\<forall>(n, cs)\<in>set mapped_classes. \<exists>t. map_of ts n = Some t \<and> same_table t (table_of_class cs))) \<and>
    schema_indexes s1 = schema_indexes s @ concat (map (\<lambda>(n, cs). indexes_of_class n cs) mapped_classes) \<and>
    migrate downgrade s1 = (None, s2) \<and> schema_tables s2 = schema_tables s \<and> schema_indexes s2 = schema_indexes s \<and>
    migrate upgrade s2 = (Some (DuplicateObject ''discount_type''), s2)"
proof (intro exI conjI)
  show "migrate upgrade s = (None, upgraded s)" by (rule upgrade_ok [OF assms])
  show "schema_tables (upgraded s) = schema_tables s @ new_tables" by (simp add: upgraded_def)
  show "distinct (map fst new_tables)" "set (map fst new_tables) = set (map fst mapped_classes)"
    using new_table_names by blast+
  show "\<forall>(n, cs)\<in>set mapped_classes. \<exists>t. map_of new_tables n = Some t \<and> same_table t (table_of_class cs)"
    using classes_match new_table_names by (fastforce simp: list_all_iff)
  show "schema_indexes (upgraded s) = schema_indexes s @ concat (map (\<lambda>(n, cs). indexes_of_class n cs) mapped_classes)"
    by (simp add: upgraded_def)
  show "migrate downgrade (upgraded s) = (None, s\<lparr>schema_enums := schema_enums s @ new_enums\<rparr>)"
    by (rule downgrade_ok [OF assms])
  show "migrate upgrade (s\<lparr>schema_enums := schema_enums s @ new_enums\<rparr>) =
      (Some (DuplicateObject ''discount_type''), s\<lparr>schema_enums := schema_enums s @ new_enums\<rparr>)"
    by (rule second_upgrade_fails)
qed simp_all

theorem migration_matches_models_witness:
  "\<exists>s1. migrate upgrade \<lparr>schema_tables = [(''alembic_version'', \<lparr>columns = [], primary_key = [], unique_keys = [], foreign_keys = []\<rparr>)],
       schema_indexes = [], schema_enums = []\<rparr> = (None, s1) \<and> length (schema_tables s1) = 7"
proof -
  let ?s = "\<lparr>schema_tables = [(''alembic_version'', \<lparr>columns = [], primary_key = [], unique_keys = [], foreign_keys = []\<rparr>)],
       schema_indexes = [], schema_enums = []\<rparr>"
  have "free_schema ?s" by code_simp
  from migration_matches_models [OF this] obtain s1 ts where s1: "migrate upgrade ?s = (None, s1)"
      "schema_tables s1 = schema_tables ?s @ ts" "distinct (map fst ts)" "set (map fst ts) = set (map fst mapped_classes)"
    by blast
  have "card (set (map fst mapped_classes)) = 6" by code_simp
  then have "length ts = 6" using s1(3,4) by (metis distinct_card length_map)
  with s1 show ?thesis by simp
qed

text \<open>The metrics table goes up and down in the same way, and has no types to leave behind.\<close>

lemma metrics_migration_reversible:
  "let s = \<lparr>schema_tables = [], schema_indexes = [], schema_enums = []\<rparr> in
   \<exists>s1. migrate metrics_upgrade s = (None, s1) \<and> migrate metrics_downgrade s1 = (None, s)"
  by (simp add: migrate_def metrics_upgrade_def metrics_downgrade_def enums_of_def column_def map_filter_simps references_def)

end
