(* ===== verification/Alembic_Env.thy ===== *)
theory Alembic_Env
  imports Schema_Migrations Security
begin

text \<open>
  The environments in which Alembic runs the migrations (app/alembic/env.py of the marketplace and
  alembic/env.py of dz_5/aggregation-service): where each takes the address of the database from, what
  it configures, and the offline and the online run. The options of \<open>alembic.ini\<close> are read and written
  through Python's \<open>ConfigParser\<close>, whose interpolation of percent signs is part of the model. Of
  Alembic itself, \<open>upgrade head\<close> is modelled for a directory with one revision, as documented.
\<close>

section \<open>Options with interpolation\<close>

text \<open>
  The options of the main section by name, those of the default section included. \<open>before_set\<close> of
  \<open>BasicInterpolation\<close> refuses a value in which a percent sign is neither doubled nor the start of a
  reference; \<open>before_get\<close> replaces references, up to ten deep, and undoubles the signs; the name in a
  reference is put in lower case.
\<close>

type_synonym options = "(string \<times> string) list"

datatype env_error =
  InvalidInterpolation
| InterpolationSyntaxError
| InterpolationMissingOptionError string
| InterpolationDepthError
| NoUrl
| OperationalError
| SchemaError schema_error
| UnknownRevision string

text \<open>The pattern \<open>%\(([^)]+)\)s\<close> at the start of a text: the name and what follows.\<close>

definition key_reference :: "string \<Rightarrow> (string \<times> string) option" where
  "key_reference s =
     (if take 2 s = ''%('' then
        let name = takeWhile (\<lambda>c. c \<noteq> CHR '')'') (drop 2 s); rest = dropWhile (\<lambda>c. c \<noteq> CHR '')'') (drop 2 s)
        in if name \<noteq> [] \<and> take 2 rest = '')s'' then Some (name, drop 2 rest) else None
      else None)"

lemma key_reference_shorter: "key_reference s = Some (name, rest) \<Longrightarrow> length rest < length s"
proof -
  assume "key_reference s = Some (name, rest)"
  then have "rest = drop 2 (dropWhile (\<lambda>c. c \<noteq> CHR '')'') (drop 2 s))" "take 2 s = ''%(''"
    by (auto simp: key_reference_def Let_def split: if_splits)
  moreover have "length (dropWhile (\<lambda>c. c \<noteq> CHR '')'') (drop 2 s)) \<le> length (drop 2 s)"
    by (rule length_dropWhile_le)
  moreover have "2 \<le> length s"
    using \<open>take 2 s = ''%(''\<close> by (metis length_Cons length_take list.size(3) min.cobounded1 Suc_1 One_nat_def)
  ultimately show ?thesis by simp
qed

text \<open>\<open>value.replace("%%", "")\<close> and \<open>_KEYCRE.sub("", value)\<close>.\<close>

fun remove_escapes :: "string \<Rightarrow> string" where
  "remove_escapes (a # b # s) =
     (if a = CHR ''%'' \<and> b = CHR ''%'' then remove_escapes s else a # remove_escapes (b # s))"
| "remove_escapes s = s"

function remove_references :: "string \<Rightarrow> string" where
  "remove_references [] = []"
| "remove_references (c # s) =
     (case key_reference (c # s) of
        Some (name, rest) \<Rightarrow> remove_references rest
      | None \<Rightarrow> c # remove_references s)"
  by pat_completeness auto
termination
  by (relation "measure length") (auto dest: key_reference_shorter)

definition before_set :: "string \<Rightarrow> env_error + string" where
  "before_set v = (if CHR ''%'' \<in> set (remove_references (remove_escapes v)) then Inl InvalidInterpolation else Inr v)"

definition then_append :: "env_error + string \<Rightarrow> (unit \<Rightarrow> env_error + string) \<Rightarrow> env_error + string" where
  "then_append r f = (case r of Inl e \<Rightarrow> Inl e | Inr a \<Rightarrow> (case f () of Inl e \<Rightarrow> Inl e | Inr b \<Rightarrow> Inr (a @ b)))"

lemma then_append_cong [fundef_cong]:
  "r = r' \<Longrightarrow> (\<And>a. r' = Inr a \<Longrightarrow> f () = f' ()) \<Longrightarrow> then_append r f = then_append r' f'"
  by (auto simp: then_append_def split: sum.splits)

text \<open>\<open>_interpolate_some\<close>, its first argument the levels that are left.\<close>

function interpolate :: "nat \<Rightarrow> options \<Rightarrow> string \<Rightarrow> env_error + string" where
  "interpolate 0 m s = Inl InterpolationDepthError"
| "interpolate (Suc n) m [] = Inr []"
| "interpolate (Suc n) m (c # s) =
     (if c \<noteq> CHR ''%'' then then_append (Inr [c]) (\<lambda>_. interpolate (Suc n) m s)
      else if take 1 s = ''%'' then then_append (Inr ''%'') (\<lambda>_. interpolate (Suc n) m (drop 1 s))
      else if take 1 s = ''('' then
        (case key_reference (c # s) of
           None \<Rightarrow> Inl InterpolationSyntaxError
         | Some (name, rest) \<Rightarrow>
             (case map_of m (lower_case name) of
                None \<Rightarrow> Inl (InterpolationMissingOptionError (lower_case name))
              | Some v \<Rightarrow>
                  then_append (if CHR ''%'' \<in> set v then interpolate n m v else Inr v)
                    (\<lambda>_. interpolate (Suc n) m rest)))
      else Inl InterpolationSyntaxError)"
  by pat_completeness auto
termination
  by (relation "inv_image (less_than <*lex*> less_than) (\<lambda>(n, m, s). (n, length s))")
    (auto dest: key_reference_shorter)

definition before_get :: "options \<Rightarrow> string \<Rightarrow> env_error + string" where
  "before_get m v = interpolate 10 m v"

text \<open>\<open>config.set_main_option\<close>, \<open>config.get_main_option\<close> and \<open>config.get_section\<close>.\<close>

definition set_main_option :: "string \<Rightarrow> string \<Rightarrow> options \<Rightarrow> env_error + options" where
  "set_main_option name v m = (case before_set v of Inl e \<Rightarrow> Inl e | Inr v' \<Rightarrow> Inr (AList.update name v' m))"

definition get_main_option :: "string \<Rightarrow> options \<Rightarrow> env_error + string option" where
  "get_main_option name m =
     (case map_of m name of
        None \<Rightarrow> Inr None
      | Some v \<Rightarrow> (case before_get m v of Inl e \<Rightarrow> Inl e | Inr v' \<Rightarrow> Inr (Some v')))"

fun get_section_items :: "options \<Rightarrow> options \<Rightarrow> env_error + options" where
  "get_section_items m [] = Inr []"
| "get_section_items m ((k, v) # rest) =
     (case before_get m v of
        Inl e \<Rightarrow> Inl e
      | Inr v' \<Rightarrow> (case get_section_items m rest of Inl e \<Rightarrow> Inl e | Inr kvs \<Rightarrow> Inr ((k, v') # kvs)))"

definition get_section :: "options \<Rightarrow> env_error + options" where
  "get_section m = get_section_items m m"

section \<open>Running a migration\<close>

text \<open>
  What \<open>context.configure\<close> is given. \<open>servers\<close> are the databases that answer at an address, each with
  the revision recorded in it and its schema.
\<close>

record configured =
  conf_url :: "string option"
  conf_connection :: "string option"
  conf_target_metadata :: "(string \<times> orm_column list) list option"
  conf_literal_binds :: bool
  conf_paramstyle :: "string option"
  conf_compare_type :: bool

record revision_script =
  head_revision :: string
  revision_ops :: "schema_op list"

type_synonym servers = "string \<Rightarrow> (string option \<times> schema) option"

text \<open>An offline run prints the statements from the base to the head, an online one executes them.\<close>

datatype env_outcome = SqlScript configured "schema_op list" | Migrated configured

definition initial_script :: revision_script where
  "initial_script = \<lparr>head_revision = ''9b6b825cc7cb'', revision_ops = upgrade\<rparr>"

definition metrics_script :: revision_script where
  "metrics_script = \<lparr>head_revision = ''5e2007233592'', revision_ops = metrics_upgrade\<rparr>"

definition upgrade_head :: "revision_script \<Rightarrow> string option \<times> schema \<Rightarrow> (env_error + unit) \<times> (string option \<times> schema)" where
  "upgrade_head script db =
     (case db of
        (None, s) \<Rightarrow>
          (case migrate (revision_ops script) s of
             (Some e, s') \<Rightarrow> (Inl (SchemaError e), (None, s'))
           | (None, s') \<Rightarrow> (Inr (), (Some (head_revision script), s')))
      | (Some r, s) \<Rightarrow> (if r = head_revision script then Inr () else Inl (UnknownRevision r), (Some r, s)))"

text \<open>Connect, configure with the connection, and run the migrations in a transaction.\<close>

definition run_connected :: "revision_script \<Rightarrow> configured \<Rightarrow> string \<Rightarrow> servers \<Rightarrow> (env_error + env_outcome) \<times> servers" where
  "run_connected script conf url srv =
     (case srv url of
        None \<Rightarrow> (Inl OperationalError, srv)
      | Some db \<Rightarrow>
          (case upgrade_head script db of
             (Inl e, db') \<Rightarrow> (Inl e, srv(url \<mapsto> db'))
           | (Inr _, db') \<Rightarrow> (Inr (Migrated conf), srv(url \<mapsto> db'))))"

section \<open>The environment of the marketplace\<close>

definition run_migrations_offline :: "options \<Rightarrow> env_error + env_outcome" where
  "run_migrations_offline config =
     (case get_main_option ''sqlalchemy.url'' config of
        Inl e \<Rightarrow> Inl e
      | Inr url \<Rightarrow>
          Inr (SqlScript
            \<lparr>conf_url = url, conf_connection = None, conf_target_metadata = Some mapped_classes,
             conf_literal_binds = True, conf_paramstyle = Some ''named'', conf_compare_type = False\<rparr>
            (revision_ops initial_script)))"

text \<open>\<open>engine_from_config\<close> takes the options that begin with \<open>sqlalchemy.\<close>, of which the address is one.\<close>

definition run_migrations_online :: "options \<Rightarrow> servers \<Rightarrow> (env_error + env_outcome) \<times> servers" where
  "run_migrations_online config srv =
     (case get_section config of
        Inl e \<Rightarrow> (Inl e, srv)
      | Inr section_options \<Rightarrow>
          (case map_of section_options ''sqlalchemy.url'' of
             None \<Rightarrow> (Inl NoUrl, srv)
           | Some url \<Rightarrow>
               run_connected initial_script
                 \<lparr>conf_url = None, conf_connection = Some url, conf_target_metadata = Some mapped_classes,
                  conf_literal_binds = False, conf_paramstyle = None, conf_compare_type = True\<rparr>
                 url srv))"

text \<open>The address of the settings takes the place of the one in the file, whichever way the run goes.\<close>

definition env_config :: "settings \<Rightarrow> options \<Rightarrow> env_error + options" where
  "env_config cfg ini = set_main_option ''sqlalchemy.url'' (database_url cfg) ini"

definition run_env :: "bool \<Rightarrow> settings \<Rightarrow> options \<Rightarrow> servers \<Rightarrow> (env_error + env_outcome) \<times> servers" where
  "run_env offline cfg ini srv =
     (case env_config cfg ini of
        Inl e \<Rightarrow> (Inl e, srv)
      | Inr config \<Rightarrow>
          if offline then (run_migrations_offline config, srv) else run_migrations_online config srv)"

section \<open>The environment of the aggregation service\<close>

text \<open>The default of \<open>os.getenv\<close> is an argument, so that the option is read in any case.\<close>

definition metrics_database_url :: "(string \<Rightarrow> string option) \<Rightarrow> options \<Rightarrow> env_error + string option" where
  "metrics_database_url getenv config =
     (case get_main_option ''sqlalchemy.url'' config of
        Inl e \<Rightarrow> Inl e
      | Inr dflt \<Rightarrow> Inr (case getenv ''POSTGRES_DSN'' of Some url \<Rightarrow> Some url | None \<Rightarrow> dflt))"

definition metrics_run_offline :: "(string \<Rightarrow> string option) \<Rightarrow> options \<Rightarrow> env_error + env_outcome" where
  "metrics_run_offline getenv config =
     (case metrics_database_url getenv config of
        Inl e \<Rightarrow> Inl e
      | Inr url \<Rightarrow>
          Inr (SqlScript
            \<lparr>conf_url = url, conf_connection = None, conf_target_metadata = None, conf_literal_binds = True,
             conf_paramstyle = Some ''named'', conf_compare_type = False\<rparr>
            (revision_ops metrics_script)))"

definition metrics_run_online :: "(string \<Rightarrow> string option) \<Rightarrow> options \<Rightarrow> servers \<Rightarrow> (env_error + env_outcome) \<times> servers" where
  "metrics_run_online getenv config srv =
     (case metrics_database_url getenv config of
        Inl e \<Rightarrow> (Inl e, srv)
      | Inr None \<Rightarrow> (Inl NoUrl, srv)
      | Inr (Some url) \<Rightarrow>
          run_connected metrics_script
            \<lparr>conf_url = None, conf_connection = Some url, conf_target_metadata = None, conf_literal_binds = False,
             conf_paramstyle = None, conf_compare_type = False\<rparr>
            url srv)"

definition metrics_run_env ::
  "bool \<Rightarrow> (string \<Rightarrow> string option) \<Rightarrow> options \<Rightarrow> servers \<Rightarrow> (env_error + env_outcome) \<times> servers" where
  "metrics_run_env offline getenv config srv =
     (if offline then (metrics_run_offline getenv config, srv) else metrics_run_online getenv config srv)"

section \<open>Values without percent signs\<close>

lemma key_reference_eq: "key_reference s = Some (name, rest) \<Longrightarrow> s = ''%('' @ name @ '')s'' @ rest"
proof -
  assume k: "key_reference s = Some (name, rest)"
  let ?t = "drop 2 s"
  let ?r = "dropWhile (\<lambda>c. c \<noteq> CHR '')'') ?t"
  have "take 2 s = ''%(''" "name = takeWhile (\<lambda>c. c \<noteq> CHR '')'') ?t" "take 2 ?r = '')s''" "rest = drop 2 ?r"
    using k by (auto simp: key_reference_def Let_def split: if_splits)
  then have "s = ''%('' @ ?t" "?t = name @ ?r" "?r = '')s'' @ rest"
    by (metis append_take_drop_id takeWhile_dropWhile_id)+
  then show ?thesis by metis
qed

lemma remove_escapes_plain: "CHR ''%'' \<notin> set s \<Longrightarrow> remove_escapes s = s"
  by (induction s rule: remove_escapes.induct) auto

lemma remove_references_plain: "CHR ''%'' \<notin> set s \<Longrightarrow> remove_references s = s"
proof (induction s)
  case (Cons c s)
  have "key_reference (c # s) = None"
    using Cons.prems by (cases s) (auto simp: key_reference_def)
  with Cons show ?case by simp
qed simp

lemma before_set_plain: "CHR ''%'' \<notin> set v \<Longrightarrow> before_set v = Inr v"
  by (simp add: before_set_def remove_escapes_plain remove_references_plain)

lemma interpolate_plain: "CHR ''%'' \<notin> set s \<Longrightarrow> interpolate (Suc n) m s = Inr s"
  by (induction s) (auto simp: then_append_def)

lemma before_get_plain: "CHR ''%'' \<notin> set s \<Longrightarrow> before_get m s = Inr s"
  by (simp add: before_get_def interpolate_plain eval_nat_numeral del: interpolate.simps)

lemma get_section_items_plain:
  "\<forall>(k, v)\<in>set rest. CHR ''%'' \<notin> set v \<Longrightarrow> get_section_items m rest = Inr rest"
  by (induction rest) (auto simp: before_get_plain)

section \<open>Values with percent signs\<close>

text \<open>
  Whatever is read has fewer percent signs than what was set, when only the option itself has any: a
  doubled sign becomes one, a reference to another option becomes its value, and a reference of the
  option to itself never ends.
\<close>

definition percents :: "string \<Rightarrow> nat" where
  "percents s = length (filter (\<lambda>c. c = CHR ''%'') s)"

lemma percents_simps [simp]:
  "percents [] = 0" "percents (c # s) = (if c = CHR ''%'' then Suc (percents s) else percents s)"
  "percents (s @ t) = percents s + percents t"
  by (simp_all add: percents_def)

lemma percents_0: "CHR ''%'' \<notin> set s \<Longrightarrow> percents s = 0"
  by (auto simp: percents_def filter_empty_conv)

lemma then_append_Inr: "then_append r f = Inr x \<longleftrightarrow> (\<exists>a b. r = Inr a \<and> f () = Inr b \<and> x = a @ b)"
  by (auto simp: then_append_def split: sum.splits)

text \<open>The ways in which the interpolation of a text goes on.\<close>

lemma interpolate_Cons_Inr:
  "interpolate (Suc n) m (c # t) = Inr r \<longleftrightarrow>
     (c \<noteq> CHR ''%'' \<and> (\<exists>a. interpolate (Suc n) m t = Inr a \<and> r = c # a)) \<or>
     (c = CHR ''%'' \<and> (\<exists>t' a. t = CHR ''%'' # t' \<and> interpolate (Suc n) m t' = Inr a \<and> r = CHR ''%'' # a)) \<or>
     (c = CHR ''%'' \<and> (\<exists>name rest v a b. key_reference (c # t) = Some (name, rest) \<and>
        map_of m (lower_case name) = Some v \<and> (if CHR ''%'' \<in> set v then interpolate n m v else Inr v) = Inr a \<and>
        interpolate (Suc n) m rest = Inr b \<and> r = a @ b))" (is "?L \<longleftrightarrow> ?R")
proof (cases "c = CHR ''%''")
  case False
  then show ?thesis by (auto simp: then_append_Inr)
next
  case True
  have no_reference: "key_reference (c # t) = None" if "take 1 t \<noteq> ''(''"
    using that by (cases t) (auto simp: key_reference_def)
  consider (escape) t' where "t = CHR ''%'' # t'" | (reference) t' where "t = CHR ''('' # t'"
    | (other) "take 1 t \<noteq> ''%''" "take 1 t \<noteq> ''(''"
    by (cases t) auto
  then show ?thesis
  proof cases
    case escape
    with True no_reference show ?thesis by (auto simp: then_append_Inr)
  next
    case reference
    then have "take 1 t \<noteq> ''%''" "take 1 t = ''(''" by simp_all
    with True show ?thesis
      by (auto simp: then_append_Inr reference split: option.splits)
  next
    case other
    with True no_reference show ?thesis by auto
  qed
qed

declare interpolate.simps(3) [simp del]

lemma interpolate_more_levels: "interpolate n m s = Inr r \<Longrightarrow> interpolate (Suc n) m s = Inr r"
proof (induction n arbitrary: s r)
  case (Suc n)
  note levels = Suc.IH
  from Suc.prems show ?case
  proof (induction s arbitrary: r rule: length_induct)
    case (1 s)
    show ?case
    proof (cases s)
      case (Cons c t)
      have rest: "interpolate (Suc (Suc n)) m u = Inr a" if "length u < length s" "interpolate (Suc n) m u = Inr a" for u a
        using "1.IH" that by blast
      have nested: "(if CHR ''%'' \<in> set v then interpolate (Suc n) m v else Inr v) = Inr a"
        if "(if CHR ''%'' \<in> set v then interpolate n m v else Inr v) = Inr a" for v a
        using that levels [of v a] by (auto split: if_splits)
      from "1.prems" [unfolded Cons interpolate_Cons_Inr] show ?thesis
      proof (elim disjE conjE exE)
        fix a
        assume "c \<noteq> CHR ''%''" "interpolate (Suc n) m t = Inr a" "r = c # a"
        with rest [of t a] show ?thesis unfolding Cons interpolate_Cons_Inr by simp
      next
        fix t' a
        assume "c = CHR ''%''" "t = CHR ''%'' # t'" "interpolate (Suc n) m t' = Inr a" "r = CHR ''%'' # a"
        with rest [of t' a] Cons show ?thesis unfolding Cons interpolate_Cons_Inr by simp
      next
        fix name rst v a b
        assume c: "c = CHR ''%''" and k: "key_reference (c # t) = Some (name, rst)"
          and v: "map_of m (lower_case name) = Some v" "(if CHR ''%'' \<in> set v then interpolate n m v else Inr v) = Inr a"
          and b: "interpolate (Suc n) m rst = Inr b" and r: "r = a @ b"
        have "interpolate (Suc (Suc n)) m rst = Inr b" using rest [OF _ b] key_reference_shorter [OF k] Cons by simp
        with c k v(1) nested [OF v(2)] r show ?thesis unfolding Cons interpolate_Cons_Inr by blast
      qed
    qed (use "1.prems" in simp)
  qed
qed simp

lemma interpolate_levels: "n \<le> n' \<Longrightarrow> interpolate n m s = Inr r \<Longrightarrow> interpolate n' m s = Inr r"
  by (induction rule: dec_induct) (auto intro: interpolate_more_levels)

lemma interpolate_fewer:
  assumes "interpolate (Suc n) m s = Inr r"
    and "\<And>name v. map_of m name = Some v \<Longrightarrow> CHR ''%'' \<in> set v \<Longrightarrow> isl (interpolate n m v)"
  shows "percents r + (if CHR ''%'' \<in> set s then 1 else 0) \<le> percents s"
  using assms(1)
proof (induction s arbitrary: r rule: length_induct)
  case (1 s)
  show ?case
  proof (cases s)
    case Nil
    with "1.prems" show ?thesis by simp
  next
    case (Cons c t)
    have rest: "percents a \<le> percents u" if "length u < length s" "interpolate (Suc n) m u = Inr a" for u a
      using "1.IH" that by fastforce
    from "1.prems" [unfolded Cons interpolate_Cons_Inr] show ?thesis
    proof (elim disjE conjE exE)
      fix a
      assume "c \<noteq> CHR ''%''" "interpolate (Suc n) m t = Inr a" "r = c # a"
      with "1.IH" Cons show ?thesis by fastforce
    next
      fix t' a
      assume "c = CHR ''%''" "t = CHR ''%'' # t'" "interpolate (Suc n) m t' = Inr a" "r = CHR ''%'' # a"
      with rest [of t' a] Cons show ?thesis by simp
    next
      fix name rst v a b
      assume c: "c = CHR ''%''" and k: "key_reference (c # t) = Some (name, rst)"
        and v: "map_of m (lower_case name) = Some v" "(if CHR ''%'' \<in> set v then interpolate n m v else Inr v) = Inr a"
        and b: "interpolate (Suc n) m rst = Inr b" and r: "r = a @ b"
      have "CHR ''%'' \<notin> set v" using assms(2) [OF v(1)] v(2) by (auto split: if_splits)
      then have "percents a = 0" using v(2) by (simp add: percents_0)
      moreover have "percents b \<le> percents rst" using rest [OF _ b] key_reference_shorter [OF k] Cons by simp
      moreover have "Suc (percents rst) \<le> percents s"
        using key_reference_eq [OF k] unfolding Cons by (simp add: c)
      ultimately show ?thesis by (simp add: r)
    qed
  qed
qed

section \<open>Where the migrations run\<close>

abbreviation plain_options :: "options \<Rightarrow> bool" where
  "plain_options ini \<equiv> \<forall>(k, v)\<in>set ini. CHR ''%'' \<notin> set v"

abbreviation with_url :: "string \<Rightarrow> options \<Rightarrow> options" where
  "with_url url ini \<equiv> AList.update ''sqlalchemy.url'' url ini"

lemma with_url_values:
  assumes "plain_options ini"
  shows "map_of (with_url url ini) name = Some v \<Longrightarrow> CHR ''%'' \<in> set v \<Longrightarrow> v = url"
    and "CHR ''%'' \<notin> set url \<Longrightarrow> plain_options (with_url url ini)"
proof -
  assume v: "map_of (with_url url ini) name = Some v" "CHR ''%'' \<in> set v"
  show "v = url"
  proof (cases "name = ''sqlalchemy.url''")
    case False
    with v(1) have "map_of ini name = Some v" by (simp add: update_conv')
    with assms v(2) show ?thesis by (auto dest: map_of_SomeD)
  qed (use v in \<open>simp add: update_conv'\<close>)
next
  have "set (with_url url ini) \<subseteq> insert (''sqlalchemy.url'', url) (set ini)"
    by (induction ini) auto
  then show "CHR ''%'' \<notin> set url \<Longrightarrow> plain_options (with_url url ini)"
    using assms by fast
qed

text \<open>An address with a percent sign is never read back as it was set.\<close>

lemma url_changed:
  assumes "plain_options ini" and "CHR ''%'' \<in> set url" and "before_get (with_url url ini) url = Inr r"
  shows "r \<noteq> url"
proof -
  let ?m = "with_url url ini"
  let ?ends = "\<lambda>n. \<exists>r. interpolate n ?m url = Inr r"
  define n where "n = (LEAST n. ?ends n)"
  have ten: "interpolate 10 ?m url = Inr r" using assms(3) by (simp add: before_get_def)
  then have "?ends 10" by blast
  from LeastI [of ?ends, OF this] Least_le [of ?ends, OF this] have least: "?ends n" "n \<le> 10"
    unfolding n_def by blast+
  then obtain r' where r': "interpolate n ?m url = Inr r'" by blast
  with interpolate_levels [OF least(2) r'] ten have "interpolate n ?m url = Inr r" by simp
  then obtain k where k: "n = Suc k" "interpolate (Suc k) ?m url = Inr r" by (cases n) simp_all
  have "isl (interpolate k ?m v)" if "map_of ?m name = Some v" "CHR ''%'' \<in> set v" for name v
  proof -
    have "v = url" using with_url_values(1) [OF assms(1) that] .
    moreover have "\<not> ?ends k" using not_less_Least [of k ?ends] k(1) n_def by simp
    ultimately show ?thesis by (cases "interpolate k ?m v") auto
  qed
  from interpolate_fewer [OF k(2) this] assms(2) show ?thesis by auto
qed

lemma get_section_items_url:
  "get_section_items m kvs = Inr kvs' \<Longrightarrow> map_of kvs name = Some v \<Longrightarrow>
     \<exists>v'. map_of kvs' name = Some v' \<and> before_get m v = Inr v'"
  by (induction m kvs arbitrary: kvs' rule: get_section_items.induct) (auto split: sum.splits if_splits)

lemma run_connected_other: "url' \<noteq> url \<Longrightarrow> snd (run_connected script conf url srv) url' = srv url'"
  by (auto simp: run_connected_def split: option.splits prod.splits sum.splits)

lemma run_migrations_online_elsewhere:
  assumes "plain_options ini" and "CHR ''%'' \<in> set url"
  shows "snd (run_migrations_online (with_url url ini) srv) url = srv url"
proof (cases "get_section (with_url url ini)")
  case (Inl e)
  then show ?thesis by (simp add: run_migrations_online_def)
next
  case (Inr kvs)
  have "map_of (with_url url ini) ''sqlalchemy.url'' = Some url" by (simp add: update_conv')
  with Inr obtain r where r: "map_of kvs ''sqlalchemy.url'' = Some r" "before_get (with_url url ini) url = Inr r"
    unfolding get_section_def by (blast dest: get_section_items_url)
  with url_changed [OF assms r(2)] show ?thesis
    by (simp add: run_migrations_online_def Inr run_connected_other)
qed

lemma run_migrations_online_plain:
  assumes "plain_options ini" and "CHR ''%'' \<notin> set url"
  shows "run_migrations_online (with_url url ini) srv =
    run_connected initial_script
      \<lparr>conf_url = None, conf_connection = Some url, conf_target_metadata = Some mapped_classes,
       conf_literal_binds = False, conf_paramstyle = None, conf_compare_type = True\<rparr> url srv"
  using get_section_items_plain [OF with_url_values(2) [OF assms], of "with_url url ini"]
  by (simp add: run_migrations_online_def get_section_def update_conv')

text \<open>
  C27: The migrations of the marketplace run on the database of the settings, if its address has no
  percent sign: offline they are printed for that address, online they take an empty database to the
  schema of the mapped classes and record the revision, no other database is touched, and running them
  again changes nothing. But the address goes through \<open>ConfigParser\<close>: with a percent sign in it, as in
  a password that is encoded for an address, no run ever reaches the database of the settings.
\<close>

theorem migrations_follow_settings:
  assumes "\<forall>(k, v)\<in>set ini. CHR ''%'' \<notin> set v"
  shows "if CHR ''%'' \<in> set (database_url cfg)
    then snd (run_env offline cfg ini srv) (database_url cfg) = srv (database_url cfg) \<and>
      (\<forall>conf ops. fst (run_env True cfg ini srv) = Inr (SqlScript conf ops) \<longrightarrow> conf_url conf \<noteq> Some (database_url cfg))
    else (\<exists>conf. run_env True cfg ini srv = (Inr (SqlScript conf upgrade), srv) \<and> conf_url conf = Some (database_url cfg)) \<and>
      (\<forall>s. srv (database_url cfg) = Some (None, s) \<and> free_schema s \<longrightarrow>
        (\<exists>out srv'. run_env False cfg ini srv = (Inr out, srv') \<and>
          srv' = srv(database_url cfg \<mapsto> (Some (head_revision initial_script), upgraded s)) \<and>
          run_env False cfg ini srv' = (Inr out, srv')))"
proof (cases "CHR ''%'' \<in> set (database_url cfg)")
  case True
  have "run_env offline cfg ini srv = (Inl InvalidInterpolation, srv)"
    if "before_set (database_url cfg) = Inl InvalidInterpolation" for offline
    using that by (simp add: run_env_def env_config_def set_main_option_def)
  moreover have "snd (run_env offline cfg ini srv) (database_url cfg) = srv (database_url cfg)"
      "fst (run_env True cfg ini srv) = Inr (SqlScript conf ops) \<Longrightarrow> conf_url conf \<noteq> Some (database_url cfg)"
    if "before_set (database_url cfg) = Inr (database_url cfg)" for conf ops
    using that run_migrations_online_elsewhere [OF assms True] url_changed [OF assms True]
    by (auto simp: run_env_def env_config_def set_main_option_def run_migrations_offline_def get_main_option_def update_conv'
        split: sum.splits)
  moreover have "before_set (database_url cfg) \<in> {Inl InvalidInterpolation, Inr (database_url cfg)}"
    by (simp add: before_set_def)
  ultimately show ?thesis using True by auto
next
  case False
  note plain = before_set_plain [OF False] before_get_plain [OF False] run_migrations_online_plain [OF assms False]
  have "run_env True cfg ini srv = (Inr (SqlScript
      \<lparr>conf_url = Some (database_url cfg), conf_connection = None, conf_target_metadata = Some mapped_classes,
       conf_literal_binds = True, conf_paramstyle = Some ''named'', conf_compare_type = False\<rparr> upgrade), srv)"
    by (simp add: run_env_def env_config_def set_main_option_def plain run_migrations_offline_def get_main_option_def update_conv'
        initial_script_def)
  moreover have "run_env False cfg ini srv = (Inr (Migrated
      \<lparr>conf_url = None, conf_connection = Some (database_url cfg), conf_target_metadata = Some mapped_classes,
       conf_literal_binds = False, conf_paramstyle = None, conf_compare_type = True\<rparr>),
      srv(database_url cfg \<mapsto> (Some (head_revision initial_script), upgraded s)))"
    if "srv (database_url cfg) = Some (None, s)" "free_schema s" for s
    using that by (simp add: run_env_def env_config_def set_main_option_def plain run_connected_def upgrade_head_def upgrade_ok initial_script_def)
  moreover have "run_env False cfg ini (srv(database_url cfg \<mapsto> (Some (head_revision initial_script), s))) = (Inr (Migrated
      \<lparr>conf_url = None, conf_connection = Some (database_url cfg), conf_target_metadata = Some mapped_classes,
       conf_literal_binds = False, conf_paramstyle = None, conf_compare_type = True\<rparr>),
      srv(database_url cfg \<mapsto> (Some (head_revision initial_script), s)))" for s
    by (simp add: run_env_def env_config_def set_main_option_def plain run_connected_def upgrade_head_def)
  ultimately show ?thesis using False by auto
qed

text \<open>The main section of the file alembic.ini, and one empty database that answers.\<close>

definition alembic_ini :: options where
  "alembic_ini = [(''script_location'', ''alembic''), (''sqlalchemy.url'', database_url default_settings)]"

definition encoded_settings :: settings where
  "encoded_settings = default_settings\<lparr>database_url := ''postgresql+psycopg2://marketplace:p%40ss@db:5432/marketplace''\<rparr>"

definition no_schema :: schema where
  "no_schema = \<lparr>schema_tables = [], schema_indexes = [], schema_enums = []\<rparr>"

theorem migrations_follow_settings_witness:
  "snd (run_env False default_settings alembic_ini [database_url default_settings \<mapsto> (None, no_schema)]) (database_url default_settings) =
     Some (Some ''9b6b825cc7cb'', upgraded no_schema) \<and>
   snd (run_env False encoded_settings alembic_ini [database_url encoded_settings \<mapsto> (None, no_schema)]) (database_url encoded_settings) =
     Some (None, no_schema)"
proof -
  have ini: "\<forall>(k, v)\<in>set alembic_ini. CHR ''%'' \<notin> set v" by code_simp
  have "CHR ''%'' \<notin> set (database_url default_settings)" by code_simp
  with migrations_follow_settings [OF ini, of default_settings False "[database_url default_settings \<mapsto> (None, no_schema)]"]
  have "free_schema no_schema \<longrightarrow> snd (run_env False default_settings alembic_ini
      [database_url default_settings \<mapsto> (None, no_schema)]) (database_url default_settings) =
      Some (Some (head_revision initial_script), upgraded no_schema)"
    by auto
  moreover have "free_schema no_schema" by code_simp
  moreover have "CHR ''%'' \<in> set (database_url encoded_settings)" by code_simp
  with migrations_follow_settings [OF ini, of encoded_settings False "[database_url encoded_settings \<mapsto> (None, no_schema)]"]
  have "snd (run_env False encoded_settings alembic_ini [database_url encoded_settings \<mapsto> (None, no_schema)])
      (database_url encoded_settings) = Some (None, no_schema)"
    by simp
  ultimately show ?thesis by (simp add: initial_script_def)
qed

text \<open>The same in numbers: the encoded address is refused where it is set.\<close>

lemma encoded_address_refused:
  "run_env False encoded_settings alembic_ini srv = (Inl InvalidInterpolation, srv)"
proof -
  have "before_set (database_url encoded_settings) = Inl InvalidInterpolation" by code_simp
  then show ?thesis by (simp add: run_env_def env_config_def set_main_option_def)
qed

text \<open>
  The aggregation service takes its address from the environment as it is, percent signs included; the
  option of the file is only the default.
\<close>

lemma metrics_migrations_follow_environment:
  assumes "plain_options config" and "getenv ''POSTGRES_DSN'' = Some url"
    and "srv url = Some (None, s)" and "migrate metrics_upgrade s = (None, s')"
  shows "\<exists>out. metrics_run_env False getenv config srv = (Inr out, srv(url \<mapsto> (Some ''5e2007233592'', s')))"
proof -
  obtain dflt where "get_main_option ''sqlalchemy.url'' config = Inr dflt"
  proof (cases "map_of config ''sqlalchemy.url''")
    case (Some v)
    with assms(1) have "CHR ''%'' \<notin> set v" by (auto dest: map_of_SomeD)
    with Some that show ?thesis by (simp add: get_main_option_def before_get_plain)
  qed (use that in \<open>simp add: get_main_option_def\<close>)
  then show ?thesis
    using assms(2-4)
    by (simp add: metrics_run_env_def metrics_run_online_def metrics_database_url_def run_connected_def upgrade_head_def
        metrics_script_def)
qed

end
