(* ===== verification/Users_Sessions.thy ===== *)
theory Users_Sessions
  imports Users_Auth Interleaving "HOL-Library.Multiset"
begin

text \<open>
  The registration service with requests that run at the same time (app.py and the session of db.py). Each
  request has a session of its own, opened by \<open>get_db\<close> and closed when the answer is ready, whatever it
  is. Between two statements of a request those of others may run: two requests can both find that an
  address is free. What then keeps the accounts in order is the unique constraint of the table.
\<close>

section \<open>A request, statement by statement\<close>

datatype auth_call = RegisterCall users_register_request | LoginCall users_login_request

datatype auth_answer = Registered registered | Token users_token_response

text \<open>
  Where a request is: its session is open, its new account has been added to the session, the account has
  been committed, or the session is closed and the request answered.
\<close>

datatype call_state =
    Opened auth_call
  | Adding users_register_request
  | Committed users_register_request account
  | Closed "auth_error + auth_answer"

text \<open>\<open>get_db\<close>: every request starts with a new session and ends with a closed one.\<close>

definition open_call :: "auth_call \<Rightarrow> call_state" where
  "open_call c = Opened c"

definition close_call :: "auth_error + auth_answer \<Rightarrow> call_state" where
  "close_call r = Closed r"

fun call_step :: "auth_library \<Rightarrow> accounts \<Rightarrow> call_state \<Rightarrow> accounts \<times> call_state" where
  "call_step A db (Opened (RegisterCall raw)) =
     (case valid_register A raw of
        None \<Rightarrow> (db, close_call (Inl InvalidPayload))
      | Some p \<Rightarrow>
          (case existing_account p db of
             Some existing \<Rightarrow> (db, close_call (Inl (HTTPException 409 ''User already exists'')))
           | None \<Rightarrow> (db, Adding p)))"
| "call_step A db (Opened (LoginCall raw)) = (db, close_call (map_sum id Token (login A raw db)))"
| "call_step A db (Adding p) =
     (case insert_account A p db of
        (Inl e, db') \<Rightarrow> (db', close_call (Inl e))
      | (Inr user, db') \<Rightarrow> (db', Committed p user))"
| "call_step A db (Committed p user) = (db, close_call (map_sum id Registered (refresh_account user db)))"
| "call_step A db (Closed r) = (db, Closed r)"

record auth_world =
  stored :: accounts
  calls :: "call_state list"

definition auth_step :: "auth_library \<Rightarrow> nat \<Rightarrow> auth_world \<Rightarrow> auth_world" where
  "auth_step A i S =
     (if i < length (calls S)
      then (case call_step A (stored S) (calls S ! i) of
              (db, st) \<Rightarrow> \<lparr>stored = db, calls = (calls S)[i := st]\<rparr>)
      else S)"

definition auth_run :: "auth_library \<Rightarrow> nat list \<Rightarrow> accounts \<Rightarrow> auth_call list \<Rightarrow> auth_world" where
  "auth_run A schedule db cs = fold (auth_step A) schedule \<lparr>stored = db, calls = map open_call cs\<rparr>"

section \<open>One request at a time\<close>

text \<open>Three turns of a request that is alone are the handler in one piece.\<close>

lemma undisturbed_registration:
  "auth_run A [0, 0, 0] db [RegisterCall raw] =
    \<lparr>stored = snd (register A raw db), calls = [Closed (map_sum id Registered (fst (register A raw db)))]\<rparr>"
  by (simp add: auth_run_def auth_step_def open_call_def close_call_def register_def
      split: option.splits prod.splits sum.splits)

section \<open>Every request ends\<close>

fun turns :: "call_state \<Rightarrow> nat" where
  "turns (Opened c) = 3"
| "turns (Adding p) = 2"
| "turns (Committed p user) = 1"
| "turns (Closed r) = 0"

definition turns_left :: "nat \<Rightarrow> auth_world \<Rightarrow> nat" where
  "turns_left i S = (if i < length (calls S) then turns (calls S ! i) else 0)"

lemma call_step_turns: "turns (snd (call_step A db st)) \<le> turns st - 1"
  by (cases "(A, db, st)" rule: call_step.cases)
    (auto simp: close_call_def split: option.splits prod.splits sum.splits)

interpretation auth_turns: interleaving_progress "auth_step A" turns_left for A
proof
  fix i S
  show "turns_left i (auth_step A i S) \<le> turns_left i S - 1"
    using call_step_turns [of A "stored S" "calls S ! i"]
    by (auto simp: turns_left_def auth_step_def split: prod.splits)
next
  fix i j S
  assume "i \<noteq> (j::nat)"
  then show "turns_left i (auth_step A j S) \<le> turns_left i S"
    by (auto simp: turns_left_def auth_step_def split: prod.splits)
qed

section \<open>What every turn keeps\<close>

text \<open>The key of the account that a request has got, once it has one.\<close>

fun enrolled_id :: "call_state \<Rightarrow> int option" where
  "enrolled_id (Committed p user) = Some (ac_id user)"
| "enrolled_id (Closed (Inr (Registered r))) = Some (rd_id r)"
| "enrolled_id _ = None"

definition account_of :: "auth_library \<Rightarrow> int \<Rightarrow> users_register_request \<Rightarrow> account" where
  "account_of A k p =
     \<lparr>ac_id = k, ac_email = reg_email p, ac_password_hash = users_auth_hash A (reg_password p), ac_role = reg_role p\<rparr>"

fun call_ok :: "auth_library \<Rightarrow> accounts \<Rightarrow> auth_call \<Rightarrow> call_state \<Rightarrow> bool" where
  "call_ok A db c (Opened c') = (c' = c)"
| "call_ok A db c (Adding p) = (\<exists>raw. c = RegisterCall raw \<and> valid_register A raw = Some p)"
| "call_ok A db c (Committed p user) =
     (\<exists>raw. c = RegisterCall raw \<and> valid_register A raw = Some p \<and> (\<exists>k. user = account_of A k p) \<and> user \<in> set (ac_rows db))"
| "call_ok A db c (Closed (Inr (Registered r))) =
     (\<exists>raw p. c = RegisterCall raw \<and> valid_register A raw = Some p \<and> account_of A (rd_id r) p \<in> set (ac_rows db) \<and>
        rd_email r = reg_email p \<and> rd_role r = reg_role p)"
| "call_ok A db c (Closed _) = True"

definition auth_inv :: "auth_library \<Rightarrow> accounts \<Rightarrow> auth_call list \<Rightarrow> auth_world \<Rightarrow> bool" where
  "auth_inv A db0 cs S \<longleftrightarrow>
     accounts_fit (stored S) \<and> list_all2 (call_ok A (stored S)) cs (calls S) \<and>
     (\<exists>new. ac_rows (stored S) = ac_rows db0 @ new \<and> mset (List.map_filter enrolled_id (calls S)) = mset (map ac_id new))"

lemma map_filter_update:
  assumes "i < length xs"
  shows "mset (List.map_filter f (xs[i := y])) + mset_set (set_option (f (xs ! i))) =
    mset (List.map_filter f xs) + mset_set (set_option (f y))"
  using assms
proof (induction xs arbitrary: i)
  case (Cons x xs)
  then show ?case by (cases i) (auto simp: List.map_filter_simps split: option.splits)
qed simp

lemma map_filter_distinct:
  assumes "distinct (List.map_filter f xs)" and "i < length xs" and "j < length xs" and "i \<noteq> j"
    and "f (xs ! i) = Some a" and "f (xs ! j) = Some b"
  shows "a \<noteq> b"
  using assms
proof (induction xs arbitrary: i j)
  case (Cons x xs)
  have mem: "c \<in> set (List.map_filter f xs)" if "k < length xs" "f (xs ! k) = Some c" for k c
    using that by (force simp: List.map_filter_def intro!: image_eqI [of _ _ "xs ! k"])
  from Cons mem show ?case
    by (cases i; cases j) (auto simp: List.map_filter_simps split: option.splits)
qed simp

lemma call_ok_more_rows: "call_ok A db c st \<Longrightarrow> set (ac_rows db) \<subseteq> set (ac_rows db') \<Longrightarrow> call_ok A db' c st"
  by (cases "(A, db, c, st)" rule: call_ok.cases) auto

lemma key_skipped: "accounts_fit db \<Longrightarrow> accounts_fit (db\<lparr>ac_next_id := ac_next_id db + 1\<rparr>)"
  by (fastforce simp: accounts_fit_def list_all_iff)

text \<open>One turn: the table gains the account of the request, if the turn was its insertion.\<close>

lemma call_step_effect:
  assumes "call_step A db st = (db', st')" and "accounts_fit db" and "call_ok A db c st"
  obtains new where "ac_rows db' = ac_rows db @ new" and "accounts_fit db'" and "call_ok A db' c st'"
    and "mset_set (set_option (enrolled_id st')) = mset_set (set_option (enrolled_id st)) + mset (map ac_id new)"
proof (cases "(A, db, st)" rule: call_step.cases)
  case (1 A' db1 raw)
  with assms show thesis
    by (intro that [of "[]"]) (auto simp: close_call_def split: option.splits)
next
  case (2 A' db1 raw)
  with assms show thesis
    by (intro that [of "[]"]) (auto simp: close_call_def map_sum_def split: sum.splits)
next
  case (3 A' db1 p)
  show thesis
  proof (cases "insert_account A p db")
    case (Pair r db2)
    show thesis
    proof (cases r)
      case (Inl e)
      from insert_account_Inl [OF Pair [unfolded Inl]] Pair Inl 3 assms key_skipped show thesis
        by (intro that [of "[]"]) (auto simp: close_call_def)
    next
      case (Inr user)
      from insert_account_Inr [OF Pair [unfolded Inr]] Pair Inr 3 assms show thesis
        by (intro that [of "[user]"]) (auto simp: account_of_def)
    qed
  qed
next
  case (4 A' db1 p user)
  with assms(3) obtain k where user: "user = account_of A k p" and row: "user \<in> set (ac_rows db)" by auto
  from refresh_account_row [OF assms(2) row] 4 assms user row show thesis
    by (intro that [of "[]"]) (auto simp: close_call_def account_of_def)
next
  case (5 A' db1 r)
  with assms show thesis by (intro that [of "[]"]) auto
qed

interpretation auth_runs: interleaving_invariant "auth_step A" "auth_inv A db0 cs" for A db0 cs
proof
  fix S i
  assume inv: "auth_inv A db0 cs S"
  show "auth_inv A db0 cs (auth_step A i S)"
  proof (cases "i < length (calls S)")
    case False
    with inv show ?thesis by (simp add: auth_step_def)
  next
    case True
    obtain db' st' where step: "call_step A (stored S) (calls S ! i) = (db', st')" by force
    from inv obtain new where fit: "accounts_fit (stored S)" and ok: "list_all2 (call_ok A (stored S)) cs (calls S)"
      and new: "ac_rows (stored S) = ac_rows db0 @ new" "mset (List.map_filter enrolled_id (calls S)) = mset (map ac_id new)"
      unfolding auth_inv_def by blast
    have "call_ok A (stored S) (cs ! i) (calls S ! i)" using ok True by (simp add: list_all2_conv_all_nth)
    from call_step_effect [OF step fit this] obtain more where
      more: "ac_rows db' = ac_rows (stored S) @ more" "accounts_fit db'" "call_ok A db' (cs ! i) st'"
        "mset_set (set_option (enrolled_id st')) = mset_set (set_option (enrolled_id (calls S ! i))) + mset (map ac_id more)" .
    have "list_all2 (call_ok A db') cs ((calls S)[i := st'])"
      using True ok more(1,3) call_ok_more_rows [of A "stored S" _ _ db']
      by (auto simp: list_all2_conv_all_nth nth_list_update)
    moreover have "mset (List.map_filter enrolled_id ((calls S)[i := st'])) = mset (map ac_id (new @ more))"
      using map_filter_update [OF True, of enrolled_id st'] new(2) more(4) by (simp add: ac_simps)
    ultimately show ?thesis
      using True step more(1,2) new(1) by (auto simp: auth_inv_def auth_step_def)
  qed
qed

section \<open>Registrations at the same time\<close>

fun registered_as :: "call_state \<Rightarrow> registered option" where
  "registered_as (Closed (Inr (Registered r))) = Some r"
| "registered_as _ = None"

lemma registered_asD: "registered_as st = Some r \<Longrightarrow> st = Closed (Inr (Registered r))"
  by (cases st rule: registered_as.cases) auto

lemma turns_0: "turns st = 0 \<longleftrightarrow> (\<exists>r. st = Closed r)"
  by (cases st) auto

lemma auth_run_inv:
  assumes "accounts_fit db"
  shows "auth_inv A db cs (auth_run A schedule db cs)"
proof -
  have "List.map_filter enrolled_id (map open_call cs) = []"
    by (induction cs) (simp_all add: List.map_filter_simps open_call_def)
  then have "auth_inv A db cs \<lparr>stored = db, calls = map open_call cs\<rparr>"
    using assms by (simp add: auth_inv_def list_all2_conv_all_nth open_call_def)
  then show ?thesis unfolding auth_run_def by (rule auth_runs.schedule_keeps)
qed

lemma auth_run_closed:
  assumes "i < length cs" and "length (calls (auth_run A schedule db cs)) = length cs" and "3 \<le> count_list schedule i"
  shows "\<exists>r. calls (auth_run A schedule db cs) ! i = Closed r"
proof -
  have "turns_left i (auth_run A schedule db cs) = 0"
    unfolding auth_run_def using assms(1,3)
    by (intro auth_turns.enough_turns) (simp add: turns_left_def open_call_def)
  then show ?thesis using assms(1,2) by (simp add: turns_left_def turns_0)
qed

lemma auth_inv_keys:
  assumes "auth_inv A db cs S"
  obtains new where "ac_rows (stored S) = ac_rows db @ new" and "distinct (List.map_filter enrolled_id (calls S))"
    and "set (List.map_filter enrolled_id (calls S)) = ac_id ` set new"
    and "length (List.map_filter enrolled_id (calls S)) = length new"
proof -
  from assms obtain new where rows: "ac_rows (stored S) = ac_rows db @ new" and fit: "accounts_fit (stored S)"
    and ids: "mset (List.map_filter enrolled_id (calls S)) = mset (map ac_id new)"
    unfolding auth_inv_def by blast
  have "distinct (map ac_id new)" using fit rows by (simp add: accounts_fit_def)
  then have "distinct (List.map_filter enrolled_id (calls S))" using ids by (metis mset_eq_imp_distinct_iff)
  with that [OF rows] mset_eq_setD [OF ids] mset_eq_length [OF ids] show thesis by simp
qed

lemma registered_account:
  assumes "auth_inv A db cs S" and i: "i < length cs" and r: "registered_as (calls S ! i) = Some r"
  obtains raw p where "cs ! i = RegisterCall raw" and "valid_register A raw = Some p"
    and "rd_email r = reg_email p" and "rd_role r = reg_role p"
    and "account_of A (rd_id r) p \<in> set (drop (length (ac_rows db)) (ac_rows (stored S)))"
proof -
  obtain new where rows: "ac_rows (stored S) = ac_rows db @ new"
    and ids: "set (List.map_filter enrolled_id (calls S)) = ac_id ` set new"
    using assms(1) by (rule auth_inv_keys)
  have ok: "list_all2 (call_ok A (stored S)) cs (calls S)" and fit: "accounts_fit (stored S)"
    using assms(1) by (simp_all add: auth_inv_def)
  then have "call_ok A (stored S) (cs ! i) (calls S ! i)" and len: "length (calls S) = length cs"
    using i by (simp_all add: list_all2_conv_all_nth)
  then obtain raw p where p: "cs ! i = RegisterCall raw" "valid_register A raw = Some p"
    "rd_email r = reg_email p" "rd_role r = reg_role p" and row: "account_of A (rd_id r) p \<in> set (ac_rows db @ new)"
    using registered_asD [OF r] rows by auto
  have "enrolled_id (calls S ! i) = Some (rd_id r)" using registered_asD [OF r] by simp
  then have "rd_id r \<in> ac_id ` set new"
    using i len unfolding ids [symmetric] by (force simp: List.map_filter_def intro!: image_eqI [of _ _ "calls S ! i"])
  then have "rd_id r \<notin> ac_id ` set (ac_rows db)" using fit by (auto simp: rows accounts_fit_def)
  then have "account_of A (rd_id r) p \<notin> set (ac_rows db)" by (force simp: account_of_def)
  with row p that show thesis by (auto simp: rows)
qed

lemma registered_apart:
  assumes "auth_inv A db cs S" and "i < length cs" and "j < length cs" and "i \<noteq> j"
    and "registered_as (calls S ! i) = Some r" and "registered_as (calls S ! j) = Some r'"
  shows "rd_id r \<noteq> rd_id r'" and "rd_email r \<noteq> rd_email r'"
proof -
  have len: "length (calls S) = length cs" and fit: "accounts_fit (stored S)"
    using assms(1) by (auto simp: auth_inv_def list_all2_lengthD)
  have "distinct (List.map_filter enrolled_id (calls S))" using assms(1) by (rule auth_inv_keys)
  then show ids: "rd_id r \<noteq> rd_id r'"
    by (rule map_filter_distinct [where i = i and j = j]) (use assms(2-6) len registered_asD in fastforce)+
  obtain p p' where rows: "account_of A (rd_id r) p \<in> set (ac_rows (stored S))" "rd_email r = reg_email p"
      "account_of A (rd_id r') p' \<in> set (ac_rows (stored S))" "rd_email r' = reg_email p'"
    using registered_account [OF assms(1,2,5)] registered_account [OF assms(1,3,6)] by (metis in_set_dropD)
  have "inj_on ac_email (set (ac_rows (stored S)))" using fit by (simp add: accounts_fit_def distinct_map)
  from inj_onD [OF this _ rows(1,3)] rows(2,4) ids show "rd_email r \<noteq> rd_email r'" by (auto simp: account_of_def)
qed

lemma closed_enrolled:
  assumes "\<forall>st\<in>set sts. \<exists>r. st = Closed r"
  shows "length (List.map_filter enrolled_id sts) = length (List.map_filter registered_as sts)"
proof -
  have "enrolled_id st = map_option rd_id (registered_as st)" if "st \<in> set sts" for st
    using assms that by (cases st rule: enrolled_id.cases) auto
  then show ?thesis by (induction sts) (auto simp: List.map_filter_simps split: option.splits)
qed

text \<open>
  C22: However the statements of requests to the registration service are interleaved: the constraints of
  the table hold, no account that was there is lost or changed, every request has its answer after three
  turns, and the requests that are told that they have registered have exactly one account each, with
  the address, the password and the role of the request. So no address and no key is given to two of
  them, although both may have found the address free.
\<close>

theorem concurrent_registrations:
  assumes "accounts_fit db" and "S = auth_run A schedule db cs"
  shows "accounts_fit (stored S) \<and> take (length (ac_rows db)) (ac_rows (stored S)) = ac_rows db \<and>
    length (calls S) = length cs \<and>
    (\<forall>i<length cs. 3 \<le> count_list schedule i \<longrightarrow> (\<exists>r. calls S ! i = Closed r)) \<and>
    (\<forall>i<length cs. \<forall>r. registered_as (calls S ! i) = Some r \<longrightarrow>
       (\<exists>raw p. cs ! i = RegisterCall raw \<and> valid_register A raw = Some p \<and> rd_email r = reg_email p \<and> rd_role r = reg_role p \<and>
          account_of A (rd_id r) p \<in> set (drop (length (ac_rows db)) (ac_rows (stored S))))) \<and>
    (\<forall>i<length cs. \<forall>j<length cs. \<forall>r r'. i \<noteq> j \<and> registered_as (calls S ! i) = Some r \<and> registered_as (calls S ! j) = Some r' \<longrightarrow>
       rd_id r \<noteq> rd_id r' \<and> rd_email r \<noteq> rd_email r') \<and>
    ((\<forall>st\<in>set (calls S). \<exists>r. st = Closed r) \<longrightarrow>
       length (ac_rows (stored S)) = length (ac_rows db) + length (List.map_filter registered_as (calls S)))"
proof -
  have inv: "auth_inv A db cs S" unfolding assms(2) by (rule auth_run_inv [OF assms(1)])
  then have fit: "accounts_fit (stored S)" and len: "length (calls S) = length cs"
    by (auto simp: auth_inv_def list_all2_lengthD)
  obtain new where rows: "ac_rows (stored S) = ac_rows db @ new"
    and count: "length (List.map_filter enrolled_id (calls S)) = length new"
    using inv by (rule auth_inv_keys)
  have "\<exists>raw p. cs ! i = RegisterCall raw \<and> valid_register A raw = Some p \<and> rd_email r = reg_email p \<and> rd_role r = reg_role p \<and>
      account_of A (rd_id r) p \<in> set (drop (length (ac_rows db)) (ac_rows (stored S)))"
    if "i < length cs" "registered_as (calls S ! i) = Some r" for i r
    using inv that by (rule registered_account) blast
  moreover have "rd_id r \<noteq> rd_id r' \<and> rd_email r \<noteq> rd_email r'"
    if "i < length cs" "j < length cs" "i \<noteq> j" "registered_as (calls S ! i) = Some r" "registered_as (calls S ! j) = Some r'"
    for i j r r'
    using registered_apart [OF inv that] by blast
  moreover have "\<exists>r. calls S ! i = Closed r" if "i < length cs" "3 \<le> count_list schedule i" for i
    using auth_run_closed [of i cs A schedule db] that len assms(2) by simp
  moreover have "length (ac_rows (stored S)) = length (ac_rows db) + length (List.map_filter registered_as (calls S))"
    if "\<forall>st\<in>set (calls S). \<exists>r. st = Closed r"
    using closed_enrolled [OF that] count rows by simp
  moreover have "take (length (ac_rows db)) (ac_rows (stored S)) = ac_rows db" using rows by simp
  ultimately show ?thesis using fit len by blast
qed

text \<open>Two requests for one address both find it free; one is registered, the other refused by the constraint.\<close>

definition sample_registration :: "string \<Rightarrow> auth_call" where
  "sample_registration pw = RegisterCall \<lparr>reg_email = ''ann@shop.org'', reg_password = pw, reg_role = ''seller''\<rparr>"

theorem concurrent_registrations_witness:
  "calls (auth_run sample_auth_library [0, 1, 1, 0, 0, 1, 1] \<lparr>ac_rows = [], ac_next_id = 1\<rparr>
       [sample_registration ''secret1'', sample_registration ''secret2'']) =
     [Closed (Inl IntegrityError), Closed (Inr (Registered \<lparr>rd_id = 1, rd_email = ''ann@shop.org'', rd_role = ''seller''\<rparr>))] \<and>
   length (ac_rows (stored (auth_run sample_auth_library [0, 1, 1, 0, 0, 1, 1] \<lparr>ac_rows = [], ac_next_id = 1\<rparr>
       [sample_registration ''secret1'', sample_registration ''secret2'']))) = 1"
proof -
  let ?db = "\<lparr>ac_rows = [], ac_next_id = 1\<rparr>" and ?cs = "[sample_registration ''secret1'', sample_registration ''secret2'']"
  let ?S = "auth_run sample_auth_library [0, 1, 1, 0, 0, 1, 1] ?db ?cs"
  have "accounts_fit ?db" by code_simp
  note all = concurrent_registrations [OF this refl, of sample_auth_library "[0, 1, 1, 0, 0, 1, 1]" ?cs]
  have calls: "calls ?S = [Closed (Inl IntegrityError),
      Closed (Inr (Registered \<lparr>rd_id = 1, rd_email = ''ann@shop.org'', rd_role = ''seller''\<rparr>))]"
    by code_simp
  from all have "(\<forall>st\<in>set (calls ?S). \<exists>r. st = Closed r) \<longrightarrow>
      length (ac_rows (stored ?S)) = length (ac_rows ?db) + length (List.map_filter registered_as (calls ?S))"
    by blast
  then show ?thesis unfolding calls by (simp add: List.map_filter_simps)
qed

end
