(* ===== verification/Floats.thy ===== *)
theory Floats
  imports Complex_Main
begin

text \<open>
  Double precision arithmetic, as Python's \<open>float\<close> and ClickHouse's \<open>Float64\<close> have it: a rational is
  rounded to the nearest number with 53 significant bits, a tie to the even one. \<open>double\<close> computes
  this for results in the normal range, neither underflowing nor overflowing; every number that the
  modelled code computes is there. The lemmas bound the error and show that rounding keeps signs and
  the unit interval.
\<close>

section \<open>Rounding to an integer\<close>

definition round_half_even :: "rat \<Rightarrow> int" where
  "round_half_even x =
     (let n = \<lfloor>x\<rfloor>; r = x - of_int n
      in if r < 1 / 2 then n else if 1 / 2 < r then n + 1 else if even n then n else n + 1)"

lemma round_half_even_error: "\<bar>of_int (round_half_even x) - x\<bar> \<le> 1 / 2"
proof -
  obtain f :: rat where f: "of_int \<lfloor>x\<rfloor> = f" "f \<le> x" "x < f + 1"
    using floor_correct [of x] by simp
  then show ?thesis by (auto simp: round_half_even_def Let_def abs_if)
qed

lemma round_half_even_of_int [simp]: "round_half_even (of_int n) = n"
  by (simp add: round_half_even_def)

lemma round_half_even_le:
  assumes "x \<le> of_int n"
  shows "round_half_even x \<le> n"
proof -
  have "of_int (round_half_even x) \<le> x + 1 / 2"
    using round_half_even_error [of x] by linarith
  with assms have "of_int (round_half_even x) < (of_int (n + 1) :: rat)" by simp
  then show ?thesis by linarith
qed

lemma round_half_even_nonneg: "0 \<le> x \<Longrightarrow> 0 \<le> round_half_even x"
  using of_int_floor_le [of x] by (auto simp: round_half_even_def Let_def)

section \<open>Rounding to a double\<close>

text \<open>
  \<open>binary_exponent q\<close> is the \<open>k\<close> with \<open>2 ^ k \<le> q < 2 ^ (k + 1)\<close>, computed from the bit lengths of
  numerator and denominator, which are off by one at most.
\<close>

fun bit_length :: "int \<Rightarrow> nat" where
  "bit_length n = (if n \<le> 0 then 0 else Suc (bit_length (n div 2)))"

declare bit_length.simps [simp del]

definition binary_exponent :: "rat \<Rightarrow> int" where
  "binary_exponent q =
     (let (n, d) = quotient_of q; k = int (bit_length n) - int (bit_length d)
      in if 2 powi k \<le> q then k else k - 1)"

definition double :: "rat \<Rightarrow> rat" where
  "double x =
     (if x = 0 then 0
      else let k = binary_exponent \<bar>x\<bar> in of_int (round_half_even (x * 2 powi (52 - k))) * 2 powi (k - 52))"

lemma bit_length_bounds:
  "0 < n \<Longrightarrow> 0 < bit_length n \<and> 2 ^ (bit_length n - 1) \<le> n \<and> n < 2 ^ bit_length n"
proof (induction n rule: bit_length.induct)
  case (1 n)
  show ?case
  proof (cases "n = 1")
    case True
    then show ?thesis by (simp add: bit_length.simps)
  next
    case False
    with "1.prems" have "0 < n div 2" by simp
    with "1.IH" "1.prems" have ih: "0 < bit_length (n div 2)" "2 ^ (bit_length (n div 2) - 1) \<le> n div 2" "n div 2 < 2 ^ bit_length (n div 2)"
      by simp_all
    obtain m where m: "bit_length (n div 2) = Suc m" using ih(1) gr0_conv_Suc by blast
    have "bit_length n = Suc (Suc m)" using "1.prems" m by (subst bit_length.simps) simp
    moreover have "2 * P \<le> n \<and> n < 4 * P" if "P \<le> n div 2" "n div 2 < 2 * P" for P
      using that by presburger
    ultimately show ?thesis using ih(2,3) m by simp
  qed
qed

lemma bit_length_rat:
  assumes "0 < n"
  shows "0 < bit_length n \<and> (2::rat) ^ (bit_length n - 1) \<le> of_int n \<and> (of_int n :: rat) < 2 ^ bit_length n"
proof -
  have b: "0 < bit_length n" "2 ^ (bit_length n - 1) \<le> n" "n < 2 ^ bit_length n"
    using bit_length_bounds [OF assms] by simp_all
  then have "(of_int (2 ^ (bit_length n - 1)) :: rat) \<le> of_int n" "(of_int n :: rat) < of_int (2 ^ bit_length n)"
    by (simp_all only: of_int_le_iff of_int_less_iff)
  with b(1) show ?thesis by simp
qed

lemma binary_exponent_bounds:
  assumes "0 < q"
  shows "2 powi binary_exponent q \<le> q \<and> q < 2 powi (binary_exponent q + 1)"
proof -
  obtain n d where nd: "quotient_of q = (n, d)" by force
  have q: "q = of_int n / of_int d" and d: "0 < d"
    using nd quotient_of_div quotient_of_denom_pos by blast+
  have n: "0 < n"
    using assms d unfolding q by (simp add: zero_less_divide_iff)
  let ?a = "bit_length n" and ?b = "bit_length d"
  have pos: "0 < ?a" "0 < ?b"
    using bit_length_rat [OF n] bit_length_rat [OF d] by simp_all
  have N: "(2::rat) powi (int ?a - 1) \<le> of_int n" "(of_int n :: rat) < 2 powi int ?a"
    using bit_length_rat [OF n] pos by (simp_all add: power_int_def nat_diff_distrib)
  have D: "(2::rat) powi (int ?b - 1) \<le> of_int d" "(of_int d :: rat) < 2 powi int ?b"
    using bit_length_rat [OF d] pos by (simp_all add: power_int_def nat_diff_distrib)
  let ?k = "int ?a - int ?b"
  have dpos: "0 < (of_int d :: rat)" using d by simp
  have "q < 2 powi int ?a / of_int d"
    unfolding q using N(2) dpos by (simp add: divide_strict_right_mono)
  also have "\<dots> \<le> 2 powi int ?a / 2 powi (int ?b - 1)"
    using D(1) dpos by (intro divide_left_mono mult_pos_pos) simp_all
  also have "\<dots> = 2 powi (?k + 1)"
    using power_int_diff [of "2::rat" "int ?a" "int ?b - 1"] by (simp add: algebra_simps)
  finally have upper: "q < 2 powi (?k + 1)" .
  have "2 powi (?k - 1) = 2 powi (int ?a - 1) / (2 powi int ?b :: rat)"
    using power_int_diff [of "2::rat" "int ?a - 1" "int ?b"] by (simp add: algebra_simps)
  also have "\<dots> \<le> 2 powi (int ?a - 1) / of_int d"
    using D(2) dpos by (intro divide_left_mono mult_pos_pos) simp_all
  also have "\<dots> \<le> q"
    unfolding q using N(1) dpos by (simp add: divide_right_mono)
  finally have lower: "2 powi (?k - 1) \<le> q" .
  show ?thesis
    using upper lower by (auto simp: binary_exponent_def nd Let_def)
qed

lemma powi_less_imp: "(2::rat) powi k < 2 powi m \<Longrightarrow> k + 1 \<le> m"
  using power_int_increasing [of m k "2::rat"] by linarith

lemma double_0 [simp]: "double 0 = 0"
  by (simp add: double_def)

lemma double_error:
  assumes "\<bar>x\<bar> < 2 powi m"
  shows "\<bar>double x - x\<bar> \<le> 2 powi (m - 54)"
proof (cases "x = 0")
  case False
  let ?k = "binary_exponent \<bar>x\<bar>" and ?y = "x * 2 powi (52 - binary_exponent \<bar>x\<bar>)"
  have "2 powi ?k \<le> \<bar>x\<bar>" using binary_exponent_bounds [of "\<bar>x\<bar>"] False by simp
  then have "(2::rat) powi ?k < 2 powi m" using assms by (rule le_less_trans)
  then have k: "?k + 1 \<le> m" by (rule powi_less_imp)
  have x: "x = ?y * 2 powi (?k - 52)"
    by (simp add: power_int_add [symmetric] mult.assoc)
  have "double x - x = (of_int (round_half_even ?y) - ?y) * 2 powi (?k - 52)"
    using False by (subst (2) x) (simp add: double_def Let_def left_diff_distrib)
  then have "\<bar>double x - x\<bar> = \<bar>of_int (round_half_even ?y) - ?y\<bar> * 2 powi (?k - 52)"
    by (simp add: abs_mult)
  also have "\<dots> \<le> 1 / 2 * 2 powi (?k - 52)"
    by (intro mult_right_mono round_half_even_error) simp
  also have "\<dots> = 2 powi (?k + 1 - 54)"
    by (simp add: power_int_diff power_int_add)
  also have "\<dots> \<le> 2 powi (m - 54)"
    using k by (intro power_int_increasing) simp_all
  finally show ?thesis .
qed simp

lemma double_nonneg: "0 \<le> x \<Longrightarrow> 0 \<le> double x"
  by (simp add: double_def Let_def round_half_even_nonneg)

lemma double_1 [simp]: "double 1 = 1"
  by code_simp

lemma double_le_1:
  assumes "0 \<le> x" and "x \<le> 1"
  shows "double x \<le> 1"
proof (cases "x = 0 \<or> x = 1")
  case False
  with assms have x: "0 < x" "x < 1" by simp_all
  let ?k = "binary_exponent x"
  have k: "2 powi ?k \<le> x" "x < 2 powi (?k + 1)" using binary_exponent_bounds [OF x(1)] by simp_all
  have "(2::rat) powi ?k < 2 powi 0" using k(1) x(2) by simp
  then have neg: "?k + 1 \<le> 0" by (rule powi_less_imp)
  have "x * 2 powi (52 - ?k) \<le> 2 powi (?k + 1) * 2 powi (52 - ?k)"
    using k(2) by (intro mult_right_mono) simp_all
  also have "\<dots> = of_int (2 ^ 53)"
    by (simp add: power_int_add [symmetric])
  finally have "round_half_even (x * 2 powi (52 - ?k)) \<le> 2 ^ 53"
    by (rule round_half_even_le)
  then have "of_int (round_half_even (x * 2 powi (52 - ?k))) \<le> (of_int (2 ^ 53) :: rat)"
    by (simp only: of_int_le_iff)
  then have "double x \<le> 2 ^ 53 * 2 powi (?k - 52)"
    using x by (simp add: double_def Let_def mult_right_mono)
  also have "\<dots> = 2 powi (53 + (?k - 52))"
    by (subst power_int_add) simp_all
  also have "\<dots> \<le> 2 powi 0"
    using neg by (intro power_int_increasing) simp_all
  finally show ?thesis by simp
qed auto

text \<open>A number close enough to an integer that fits rounds to that integer.\<close>

lemma binary_exponent_unique:
  assumes "2 powi k \<le> q" and "q < 2 powi (k + 1)"
  shows "binary_exponent q = k"
proof -
  have "0 < (2::rat) powi k" by simp
  then have "0 < q" using assms(1) by linarith
  from binary_exponent_bounds [OF this] have b: "2 powi binary_exponent q \<le> q" "q < 2 powi (binary_exponent q + 1)"
    by simp_all
  have "(2::rat) powi k < 2 powi (binary_exponent q + 1)" using assms(1) b(2) by (rule le_less_trans)
  moreover have "(2::rat) powi binary_exponent q < 2 powi (k + 1)" using b(1) assms(2) by (rule le_less_trans)
  ultimately show ?thesis by (force dest: powi_less_imp)
qed

lemma round_half_even_nearby:
  assumes "\<bar>x - of_int n\<bar> < 1 / 2"
  shows "round_half_even x = n"
proof -
  have "\<bar>of_int (round_half_even x) - of_int n\<bar> < (1::rat)"
    using assms round_half_even_error [of x] by linarith
  then have "\<bar>of_int (round_half_even x - n)\<bar> < (1::rat)" by simp
  then show ?thesis by linarith
qed

lemma double_nearby:
  assumes "2 powi int k \<le> x" and "x < 2 powi (int k + 1)" and "k \<le> 52"
    and "\<bar>x - of_int n\<bar> < 2 powi (int k - 53)"
  shows "double x = of_int n"
proof -
  have pos: "0 < x" using assms(1) zero_less_power_int [of "2::rat" "int k"] by linarith
  have e: "binary_exponent x = int k" using assms(1,2) by (rule binary_exponent_unique)
  let ?s = "(2::rat) powi (52 - int k)"
  have s: "?s = of_int (2 ^ (52 - k))"
    using assms(3) by (simp add: power_int_def nat_diff_distrib)
  have "\<bar>x * ?s - of_int n * ?s\<bar> = \<bar>x - of_int n\<bar> * ?s"
    by (simp add: left_diff_distrib [symmetric] abs_mult)
  also have "\<dots> < 2 powi (int k - 53) * ?s"
    using assms(4) by (intro mult_strict_right_mono) simp_all
  also have "\<dots> = 1 / 2"
    by (simp add: power_int_add [symmetric] power_int_minus_left)
  finally have "\<bar>x * ?s - of_int (n * 2 ^ (52 - k))\<bar> < 1 / 2"
    by (simp add: s)
  then have "round_half_even (x * ?s) = n * 2 ^ (52 - k)"
    by (rule round_half_even_nearby)
  then have "double x = of_int n * ?s * 2 powi (int k - 52)"
    using pos by (simp add: double_def e s)
  also have "\<dots> = of_int n"
    by (simp add: mult.assoc power_int_add [symmetric])
  finally show ?thesis .
qed

end
