(* ===== verification/Movie_Events.thy ===== *)
theory Movie_Events
  imports Errors Floats
begin

text \<open>
  The events of the movie platform (dz_5/producer-service/app/models.py): the payload class with its
  field constraints and its validator, the dictionary that is written as Avro, and the registered
  schema (dz_5/schemas/movie-event.avsc). The lemmas show what a constructed event satisfies, when
  its dictionary conforms to the schema, and what becomes of its time stamp, whose milliseconds are
  computed in floating point.
\<close>

section \<open>Enumerations\<close>

datatype event_type = VIEW_STARTED | VIEW_FINISHED | VIEW_PAUSED | VIEW_RESUMED | LIKED | SEARCHED

fun event_type_value :: "event_type \<Rightarrow> string" where
  "event_type_value VIEW_STARTED = ''VIEW_STARTED''"
| "event_type_value VIEW_FINISHED = ''VIEW_FINISHED''"
| "event_type_value VIEW_PAUSED = ''VIEW_PAUSED''"
| "event_type_value VIEW_RESUMED = ''VIEW_RESUMED''"
| "event_type_value LIKED = ''LIKED''"
| "event_type_value SEARCHED = ''SEARCHED''"

datatype device_type = MOBILE | DESKTOP | TV | TABLET

fun device_type_value :: "device_type \<Rightarrow> string" where
  "device_type_value MOBILE = ''MOBILE''"
| "device_type_value DESKTOP = ''DESKTOP''"
| "device_type_value TV = ''TV''"
| "device_type_value TABLET = ''TABLET''"

text \<open>\<open>list(DeviceType)\<close> is the enumeration of the type, in the order of the class.\<close>

instantiation device_type :: enum
begin

definition enum_device_type :: "device_type list" where
  "enum_device_type = [MOBILE, DESKTOP, TV, TABLET]"

definition enum_all_device_type :: "(device_type \<Rightarrow> bool) \<Rightarrow> bool" where
  "enum_all_device_type P \<longleftrightarrow> P MOBILE \<and> P DESKTOP \<and> P TV \<and> P TABLET"

definition enum_ex_device_type :: "(device_type \<Rightarrow> bool) \<Rightarrow> bool" where
  "enum_ex_device_type P \<longleftrightarrow> P MOBILE \<or> P DESKTOP \<or> P TV \<or> P TABLET"

instance
proof
  have all: "(UNIV :: device_type set) = {MOBILE, DESKTOP, TV, TABLET}"
    using device_type.exhaust by blast
  show "(UNIV :: device_type set) = set enum_class.enum" by (simp add: all enum_device_type_def)
  show "distinct (enum_class.enum :: device_type list)" by (simp add: enum_device_type_def)
  fix P :: "device_type \<Rightarrow> bool"
  show "enum_class.enum_all P \<longleftrightarrow> Ball UNIV P" by (simp add: all enum_all_device_type_def)
  show "enum_class.enum_ex P \<longleftrightarrow> Bex UNIV P" by (simp add: all enum_ex_device_type_def)
qed

end

section \<open>Time stamps\<close>

text \<open>
  A \<open>datetime\<close> is a wall clock reading, in microseconds since 1970-01-01T00:00:00, and the offset of
  its zone from UTC, or none for a naive one. Python's \<open>datetime\<close> ends with the years 1 and 9999.
\<close>

datatype datetime = Datetime (wall: instant) (utc_offset: "int option")

definition datetime_min :: instant where
  "datetime_min = - 62135596800000000"

definition datetime_max :: instant where
  "datetime_max = 253402300799999999"

definition in_datetime_range :: "instant \<Rightarrow> bool" where
  "in_datetime_range t \<longleftrightarrow> datetime_min \<le> t \<and> t \<le> datetime_max"

text \<open>
  What the code of this service raises: pydantic's \<open>ValidationError\<close> with the failing fields, the
  \<open>OverflowError\<close> of date arithmetic, \<open>struct.error\<close>, and what the clients of other services raise.
\<close>

datatype pipeline_error = ValidationError "string list" | OverflowError | StructError | ClientError string

definition checked_instant :: "instant \<Rightarrow> pipeline_error + instant" where
  "checked_instant t = (if in_datetime_range t then Inr t else Inl OverflowError)"

text \<open>A naive time stamp is taken as UTC, another one is converted, which leaves the range at its ends.\<close>

definition utc_timestamp :: "datetime \<Rightarrow> pipeline_error + datetime" where
  "utc_timestamp dt =
     (case utc_offset dt of
        None \<Rightarrow> Inr (Datetime (wall dt) (Some 0))
      | Some off \<Rightarrow>
          (case checked_instant (wall dt - off) of
             Inl e \<Rightarrow> Inl e
           | Inr t \<Rightarrow> Inr (Datetime t (Some 0))))"

section \<open>Events\<close>

record movie_event =
  event_id :: uuid
  user_id :: string
  movie_id :: string
  event_type :: event_type
  timestamp :: datetime
  device_type :: device_type
  session_id :: string
  progress_seconds :: "int option"
  search_query :: "string option"
  schema_version :: int

text \<open>The constraints of the fields: \<open>min_length=1\<close> and \<open>ge=0\<close>.\<close>

definition field_errors :: "movie_event \<Rightarrow> string list" where
  "field_errors ev =
     (if user_id ev = [] then [''user_id''] else []) @
     (if movie_id ev = [] then [''movie_id''] else []) @
     (if session_id ev = [] then [''session_id''] else []) @
     (case progress_seconds ev of Some n \<Rightarrow> if n < 0 then [''progress_seconds''] else [] | None \<Rightarrow> [])"

definition requires_progress :: "event_type list" where
  "requires_progress = [VIEW_STARTED, VIEW_PAUSED, VIEW_RESUMED, VIEW_FINISHED]"

text \<open>The falsy values of the search query are \<open>None\<close> and the empty string.\<close>

definition validate_payload :: "movie_event \<Rightarrow> pipeline_error + movie_event" where
  "validate_payload ev =
     (case utc_timestamp (timestamp ev) of
        Inl e \<Rightarrow> Inl e
      | Inr dt \<Rightarrow>
          let ev' = ev\<lparr>timestamp := dt\<rparr> in
          if event_type ev' \<in> set requires_progress \<and> progress_seconds ev' = None
            then Inl (ValidationError [''progress_seconds is required for watch events''])
          else if event_type ev' = SEARCHED \<and> (search_query ev' = None \<or> search_query ev' = Some [])
            then Inl (ValidationError [''search_query is required for SEARCHED events''])
          else Inr ev')"

definition movie_event_in :: "movie_event \<Rightarrow> pipeline_error + movie_event" where
  "movie_event_in ev =
     (if field_errors ev \<noteq> [] then Inl (ValidationError (field_errors ev)) else validate_payload ev)"

subsection \<open>What a constructed event satisfies\<close>

definition valid_event :: "movie_event \<Rightarrow> bool" where
  "valid_event ev \<longleftrightarrow>
     user_id ev \<noteq> [] \<and> movie_id ev \<noteq> [] \<and> session_id ev \<noteq> [] \<and>
     (case progress_seconds ev of Some n \<Rightarrow> 0 \<le> n | None \<Rightarrow> event_type ev \<in> {LIKED, SEARCHED}) \<and>
     (event_type ev = SEARCHED \<longrightarrow> search_query ev \<noteq> None \<and> search_query ev \<noteq> Some []) \<and>
     utc_offset (timestamp ev) = Some 0 \<and> in_datetime_range (wall (timestamp ev))"

lemma not_requires_progress: "t \<notin> set requires_progress \<longleftrightarrow> t \<in> {LIKED, SEARCHED}"
  by (cases t) (simp_all add: requires_progress_def)

lemma utc_timestamp_ok:
  assumes "utc_timestamp dt = Inr dt'" and "in_datetime_range (wall dt)"
  shows "utc_offset dt' = Some 0 \<and> in_datetime_range (wall dt')"
  using assms by (auto simp: utc_timestamp_def checked_instant_def split: option.splits if_splits)

lemma movie_event_in_valid:
  assumes "movie_event_in ev = Inr ev'" and "in_datetime_range (wall (timestamp ev))"
  shows "valid_event ev'"
proof -
  have f: "field_errors ev = []" and v: "validate_payload ev = Inr ev'"
    using assms(1) by (simp_all add: movie_event_in_def split: if_splits)
  obtain dt where dt: "utc_timestamp (timestamp ev) = Inr dt" and ev': "ev' = ev\<lparr>timestamp := dt\<rparr>"
    and rules: "\<not> (event_type ev \<in> set requires_progress \<and> progress_seconds ev = None)"
      "\<not> (event_type ev = SEARCHED \<and> (search_query ev = None \<or> search_query ev = Some []))"
    using v by (auto simp: validate_payload_def Let_def split: sum.splits if_splits)
  have "utc_offset dt = Some 0 \<and> in_datetime_range (wall dt)"
    using dt assms(2) by (rule utc_timestamp_ok)
  with f rules not_requires_progress [of "event_type ev"] show ?thesis
    by (auto simp: valid_event_def ev' field_errors_def split: option.splits if_splits)
qed

lemma valid_event_accepted:
  assumes "valid_event ev"
  shows "movie_event_in ev = Inr ev"
proof -
  have "field_errors ev = []"
    using assms by (auto simp: valid_event_def field_errors_def split: option.splits)
  moreover have "utc_timestamp (timestamp ev) = Inr (timestamp ev)"
    using assms by (auto simp: valid_event_def utc_timestamp_def checked_instant_def intro: datetime.expand)
  moreover have "\<not> (event_type ev \<in> set requires_progress \<and> progress_seconds ev = None)"
    using assms not_requires_progress [of "event_type ev"] by (auto simp: valid_event_def)
  moreover have "event_type ev = SEARCHED \<Longrightarrow> search_query ev \<noteq> None \<and> search_query ev \<noteq> Some []"
    using assms by (auto simp: valid_event_def)
  ultimately show ?thesis
    by (auto simp: movie_event_in_def validate_payload_def)
qed

section \<open>The dictionary written as Avro\<close>

text \<open>\<open>datetime.timestamp()\<close> is a correctly rounded quotient; \<open>int\<close> cuts the fraction off.\<close>

definition posix_microseconds :: "datetime \<Rightarrow> int" where
  "posix_microseconds dt = wall dt - (case utc_offset dt of Some off \<Rightarrow> off | None \<Rightarrow> 0)"

definition int_of_float :: "rat \<Rightarrow> int" where
  "int_of_float x = (if 0 \<le> x then \<lfloor>x\<rfloor> else \<lceil>x\<rceil>)"

definition epoch_millis :: "int \<Rightarrow> int" where
  "epoch_millis us = int_of_float (double (double (of_int us / 1000000) * 1000))"

datatype avro_value = AvroNone | AvroNumber int | AvroText string

definition avro_opt :: "('a \<Rightarrow> avro_value) \<Rightarrow> 'a option \<Rightarrow> avro_value" where
  "avro_opt f x = (case x of None \<Rightarrow> AvroNone | Some y \<Rightarrow> f y)"

definition to_avro_dict :: "movie_event \<Rightarrow> (string \<times> avro_value) list" where
  "to_avro_dict ev =
     [(''event_id'', AvroText (event_id ev)),
      (''user_id'', AvroText (user_id ev)),
      (''movie_id'', AvroText (movie_id ev)),
      (''event_type'', AvroText (event_type_value (event_type ev))),
      (''timestamp'', AvroNumber (epoch_millis (posix_microseconds (timestamp ev)))),
      (''device_type'', AvroText (device_type_value (device_type ev))),
      (''session_id'', AvroText (session_id ev)),
      (''progress_seconds'', avro_opt AvroNumber (progress_seconds ev)),
      (''search_query'', avro_opt AvroText (search_query ev)),
      (''schema_version'', AvroNumber (schema_version ev))]"

subsection \<open>The registered schema\<close>

datatype avro_type = AvroNull | AvroString | AvroInt | AvroLong | AvroEnum "string list" | AvroUnion "avro_type list"

definition movie_event_schema :: "(string \<times> avro_type) list" where
  "movie_event_schema =
     [(''event_id'', AvroString),
      (''user_id'', AvroString),
      (''movie_id'', AvroString),
      (''event_type'', AvroEnum [''VIEW_STARTED'', ''VIEW_FINISHED'', ''VIEW_PAUSED'', ''VIEW_RESUMED'', ''LIKED'', ''SEARCHED'']),
      (''timestamp'', AvroLong),
      (''device_type'', AvroEnum [''MOBILE'', ''DESKTOP'', ''TV'', ''TABLET'']),
      (''session_id'', AvroString),
      (''progress_seconds'', AvroUnion [AvroNull, AvroInt]),
      (''search_query'', AvroUnion [AvroNull, AvroString]),
      (''schema_version'', AvroInt)]"

text \<open>A value conforms to a type as Avro defines it; \<open>int\<close> has 32 bits and \<open>long\<close> 64.\<close>

definition fits_int :: "int \<Rightarrow> bool" where
  "fits_int n \<longleftrightarrow> - (2 ^ 31) \<le> n \<and> n < 2 ^ 31"

definition fits_long :: "int \<Rightarrow> bool" where
  "fits_long n \<longleftrightarrow> - (2 ^ 63) \<le> n \<and> n < 2 ^ 63"

fun conforms :: "avro_type \<Rightarrow> avro_value \<Rightarrow> bool" where
  "conforms AvroNull v = (v = AvroNone)"
| "conforms AvroString v = (case v of AvroText _ \<Rightarrow> True | _ \<Rightarrow> False)"
| "conforms AvroInt v = (case v of AvroNumber n \<Rightarrow> fits_int n | _ \<Rightarrow> False)"
| "conforms AvroLong v = (case v of AvroNumber n \<Rightarrow> fits_long n | _ \<Rightarrow> False)"
| "conforms (AvroEnum symbols) v = (case v of AvroText t \<Rightarrow> t \<in> set symbols | _ \<Rightarrow> False)"
| "conforms (AvroUnion types) v = list_ex (\<lambda>t. conforms t v) types"

definition record_conforms :: "(string \<times> avro_type) list \<Rightarrow> (string \<times> avro_value) list \<Rightarrow> bool" where
  "record_conforms schema d =
     list_all (\<lambda>(f, t). case map_of d f of Some v \<Rightarrow> conforms t v | None \<Rightarrow> False) schema"

section \<open>Milliseconds computed in floating point\<close>

text \<open>
  Two roundings and a cut: over the whole range of \<open>datetime\<close> the result is off by little more than
  the cut.
\<close>

lemma epoch_seconds_error:
  assumes "\<bar>us\<bar> < 2 ^ m * 1000000"
  shows "\<bar>double (of_int us / 1000000) - of_int us / 1000000\<bar> \<le> 2 powi (int m - 54)"
proof (rule double_error)
  have "(of_int \<bar>us\<bar> :: rat) < of_int (2 ^ m * 1000000)"
    using assms by (simp only: of_int_less_iff)
  then show "\<bar>of_int us / 1000000\<bar> < (2::rat) powi int m"
    by (simp add: pos_divide_less_eq)
qed

lemma millis_product_error:
  assumes "\<bar>us\<bar> < 2 ^ m * 1000000"
  shows "\<bar>double (of_int us / 1000000) * 1000 - of_int us / 1000\<bar> \<le> 1000 * 2 powi (int m - 54)"
proof -
  have "double (of_int us / 1000000) * 1000 - of_int us / 1000 =
      1000 * (double (of_int us / 1000000) - of_int us / 1000000)"
    by simp
  then have "\<bar>double (of_int us / 1000000) * 1000 - of_int us / 1000\<bar> =
      1000 * \<bar>double (of_int us / 1000000) - of_int us / 1000000\<bar>"
    by (simp only: abs_mult abs_numeral)
  with epoch_seconds_error [OF assms] show ?thesis by simp
qed

lemma int_of_float_error: "x - 1 < of_int (int_of_float x) \<and> of_int (int_of_float x) < x + 1"
  using floor_correct [of x] ceiling_correct [of x] unfolding int_of_float_def
  by (cases "0 \<le> x") (simp_all only: if_True if_False, linarith+)

lemma epoch_millis_error:
  assumes "in_datetime_range us"
  shows "\<bar>1000 * epoch_millis us - us\<bar> \<le> 1031"
proof -
  have us: "\<bar>us\<bar> < 2 ^ 38 * 1000000" "- 253402300800000000 \<le> us" "us \<le> 253402300800000000"
    using assms by (auto simp: in_datetime_range_def datetime_min_def datetime_max_def)
  define u y z :: rat where "u = of_int us" and "y = double (of_int us / 1000000) * 1000" and "z = double y"
  have pow: "2 powi (int 38 - 54) = (1 / 65536 :: rat)" by (simp add: power_int_def power_divide)
  have pow': "2 powi (48 - 54) = (1 / 64 :: rat)" by (simp add: power_int_def power_divide)
  have "\<bar>y - u / 1000\<bar> \<le> 1000 / 65536"
    using millis_product_error [OF us(1)] unfolding y_def u_def pow by simp
  then have y: "y - u / 1000 \<le> 1000 / 65536" "u / 1000 - y \<le> 1000 / 65536"
    by (simp_all only: abs_le_iff minus_diff_eq)
  have u: "- 253402300800000000 \<le> u" "u \<le> 253402300800000000"
    using us(2,3) unfolding u_def by linarith+
  have "\<bar>y\<bar> < 281474976710656"
    unfolding abs_less_iff using y u by linarith
  then have "\<bar>z - y\<bar> \<le> 2 powi (48 - 54)"
    unfolding z_def by (intro double_error) simp
  then have "\<bar>z - y\<bar> \<le> 1 / 64" unfolding pow' .
  then have z: "z - y \<le> 1 / 64" "y - z \<le> 1 / 64"
    by (simp_all only: abs_le_iff minus_diff_eq)
  have m: "epoch_millis us = int_of_float z"
    by (simp add: epoch_millis_def z_def y_def)
  have "of_int (1000 * epoch_millis us - us) < (1032 :: rat)" "(- 1032 :: rat) < of_int (1000 * epoch_millis us - us)"
    using y z int_of_float_error [of z] unfolding m of_int_diff of_int_mult of_int_numeral u_def [symmetric]
    by linarith+
  then show ?thesis by linarith
qed

text \<open>
  Between the second \<open>2 ^ 40 / 1000\<close> of the epoch (November 2004) and the second \<open>2 ^ 31\<close> (January 2038)
  the milliseconds are exact: the roundings are too small to move the product off or past a whole number.
\<close>

lemma epoch_millis_exact:
  assumes "2 ^ 40 * 1000 < us" and "us < 2 ^ 31 * 1000000"
  shows "epoch_millis us = us div 1000"
proof -
  define n r where "n = us div 1000" and "r = us mod 1000"
  have nr: "us = 1000 * n + r" "0 \<le> r" "r < 1000" by (simp_all add: n_def r_def)
  define u y z :: rat where "u = of_int us" and "y = double (of_int us / 1000000) * 1000" and "z = double y"
  have pow: "2 powi (int 31 - 54) = (1 / 8388608 :: rat)" by (simp add: power_int_def power_divide)
  have pow': "2 powi (41 - 54) = (1 / 8192 :: rat)" by (simp add: power_int_def power_divide)
  have "\<bar>us\<bar> < 2 ^ 31 * 1000000" using assms by simp
  then have "\<bar>y - u / 1000\<bar> \<le> 1000 / 8388608"
    using millis_product_error [of us 31] unfolding y_def u_def pow by simp
  then have y: "y - u / 1000 \<le> 1000 / 8388608" "u / 1000 - y \<le> 1000 / 8388608"
    by (simp_all only: abs_le_iff minus_diff_eq)
  have u: "u = 1000 * of_int n + of_int r" by (simp add: u_def nr(1))
  have n: "1099511627776 \<le> n" "n < 2147483648000" "r = 0 \<Longrightarrow> 1099511627777 \<le> n"
    using assms nr by simp_all
  then have n': "1099511627776 \<le> (of_int n :: rat)" "(of_int n :: rat) < 2147483648000"
    by linarith+
  have m: "epoch_millis us = int_of_float z" by (simp add: epoch_millis_def z_def y_def)
  show ?thesis
  proof (cases "r = 0")
    case True
    have "1099511627777 \<le> (of_int n :: rat)" using n(3) [OF True] by linarith
    have "z = of_int n" unfolding z_def
    proof (rule double_nearby [where k = 40])
      show "\<bar>y - of_int n\<bar> < 2 powi (int 40 - 53)"
        using y unfolding u True abs_less_iff by (simp add: power_int_def power_divide)
      show "2 powi int 40 \<le> y" "y < 2 powi (int 40 + 1)"
        using y n' \<open>1099511627777 \<le> (of_int n :: rat)\<close> by (simp_all add: u True)
    qed simp
    then show ?thesis using n by (simp add: m int_of_float_def n_def)
  next
    case False
    then have r: "1 \<le> (of_int r :: rat)" "(of_int r :: rat) \<le> 999"
      using nr(2,3) by linarith+
    have y': "y - of_int n \<le> of_int r / 1000 + 1000 / 8388608" "of_int n + of_int r / 1000 - 1000 / 8388608 \<le> y"
      using y by (simp_all add: u field_simps)
    have "\<bar>y\<bar> < 2199023255552" unfolding abs_less_iff using y' n' r by linarith
    then have "\<bar>z - y\<bar> \<le> 2 powi (41 - 54)"
      unfolding z_def by (intro double_error) simp
    then have "\<bar>z - y\<bar> \<le> 1 / 8192" unfolding pow' .
    then have z: "z - y \<le> 1 / 8192" "y - z \<le> 1 / 8192"
      by (simp_all only: abs_le_iff minus_diff_eq)
    have "of_int n \<le> z" "z < of_int n + 1"
      using y' z r by linarith+
    moreover from this n' have "0 \<le> z" by linarith
    ultimately show ?thesis by (simp add: m int_of_float_def n_def [symmetric] floor_eq_iff)
  qed
qed

text \<open>After that second a whole number of milliseconds may come out one short.\<close>

lemma millis_lost_after_2038:
  "epoch_millis 2147483648002000 = 2147483648001"
  by code_simp

section \<open>Properties\<close>

lemma event_type_value_symbol:
  "event_type_value t \<in> {''VIEW_STARTED'', ''VIEW_FINISHED'', ''VIEW_PAUSED'', ''VIEW_RESUMED'', ''LIKED'', ''SEARCHED''}"
  by (cases t) simp_all

lemma device_type_value_symbol: "device_type_value t \<in> {''MOBILE'', ''DESKTOP'', ''TV'', ''TABLET''}"
  by (cases t) simp_all

lemma valid_event_millis:
  assumes "valid_event ev"
  shows "\<bar>1000 * epoch_millis (wall (timestamp ev)) - wall (timestamp ev)\<bar> \<le> 1031"
    and "posix_microseconds (timestamp ev) = wall (timestamp ev)"
  using assms by (simp_all add: valid_event_def posix_microseconds_def epoch_millis_error)

text \<open>
  C33: The record of a valid event has every field of the registered schema with a value of its type,
  except that the payload class does not bound the two numbers that the schema gives 32 bits: it
  conforms exactly when the progress and the version fit.
\<close>

theorem registered_schema_exact:
  assumes "valid_event ev"
  shows "record_conforms movie_event_schema (to_avro_dict ev) \<longleftrightarrow>
    (case progress_seconds ev of Some n \<Rightarrow> n < 2 ^ 31 | None \<Rightarrow> True) \<and> fits_int (schema_version ev)"
proof -
  let ?t = "wall (timestamp ev)"
  have t: "- 62135596800000000 \<le> ?t" "?t \<le> 253402300799999999"
    using assms by (auto simp: valid_event_def in_datetime_range_def datetime_min_def datetime_max_def)
  have "\<bar>1000 * epoch_millis ?t - ?t\<bar> \<le> 1031" by (rule valid_event_millis [OF assms])
  with t have "fits_long (epoch_millis ?t)"
    by (simp add: fits_long_def abs_le_iff)
  moreover have "case progress_seconds ev of Some n \<Rightarrow> 0 \<le> n | None \<Rightarrow> True"
    using assms by (auto simp: valid_event_def split: option.splits)
  ultimately show ?thesis
    using event_type_value_symbol [of "event_type ev"] device_type_value_symbol [of "device_type ev"]
    by (simp add: record_conforms_def movie_event_schema_def to_avro_dict_def avro_opt_def
        valid_event_millis(2) [OF assms] fits_int_def split: option.splits)
qed

definition sample_event :: movie_event where
  "sample_event =
     \<lparr>event_id = ''e1'', user_id = ''user-1'', movie_id = ''movie-1'', event_type = VIEW_FINISHED,
      timestamp = Datetime 1776800000123456 (Some 0), device_type = DESKTOP, session_id = ''s'',
      progress_seconds = Some 3210, search_query = None, schema_version = 1\<rparr>"

lemma sample_event_valid: "valid_event sample_event"
  by code_simp

theorem registered_schema_exact_witness:
  "record_conforms movie_event_schema (to_avro_dict sample_event)"
  unfolding registered_schema_exact [OF sample_event_valid] by code_simp

text \<open>
  C34: The time stamp that is written, in milliseconds, is within 1.031 milliseconds of the event's for
  every date, and it is exactly the whole milliseconds of it from November 2004 until the second
  \<open>2 ^ 31\<close> of the epoch, in January 2038.
\<close>

theorem timestamp_millis:
  assumes "valid_event ev"
  shows "\<exists>ms. map_of (to_avro_dict ev) ''timestamp'' = Some (AvroNumber ms) \<and>
    \<bar>1000 * ms - wall (timestamp ev)\<bar> \<le> 1031 \<and>
    (2 ^ 40 * 1000 < wall (timestamp ev) \<and> wall (timestamp ev) < 2 ^ 31 * 1000000 \<longrightarrow>
       ms = wall (timestamp ev) div 1000)"
proof (intro exI conjI impI)
  show "map_of (to_avro_dict ev) ''timestamp'' = Some (AvroNumber (epoch_millis (wall (timestamp ev))))"
    by (simp add: to_avro_dict_def valid_event_millis(2) [OF assms])
  show "\<bar>1000 * epoch_millis (wall (timestamp ev)) - wall (timestamp ev)\<bar> \<le> 1031"
    by (rule valid_event_millis [OF assms])
  show "epoch_millis (wall (timestamp ev)) = wall (timestamp ev) div 1000"
    if "2 ^ 40 * 1000 < wall (timestamp ev) \<and> wall (timestamp ev) < 2 ^ 31 * 1000000"
    using that by (simp add: epoch_millis_exact)
qed

theorem timestamp_millis_witness:
  "map_of (to_avro_dict sample_event) ''timestamp'' = Some (AvroNumber 1776800000123)"
proof -
  have "wall (timestamp sample_event) = 1776800000123456" by (simp add: sample_event_def)
  with timestamp_millis [OF sample_event_valid] show ?thesis by auto
qed

end
