(* ===== verification/Retry.thy ===== *)
theory Retry
  imports Movie_Events
begin

text \<open>
  The decorator that the publisher, the metrics repository and the exporter put on an operation that
  talks to another service, as an interface: the laws that tenacity documents for it, what follows
  from them for any operation, and the bounded loop \<open>attempts\<close> as their model.
\<close>

section \<open>Interface: retrying an operation\<close>

text \<open>
  An action returns or raises and leaves a state. The decorator
  \<open>retry(reraise=True, stop=stop_after_attempt(n), retry=retry_if_exception_type(Exception))\<close> calls it
  again after an exception, up to \<open>n\<close> times, and raises the last exception. The waiting between the
  attempts is not modelled.
\<close>

type_synonym ('w, 'a) action = "'w \<Rightarrow> (pipeline_error + 'a) \<times> 'w"

fun attempts :: "nat \<Rightarrow> ('w, 'a) action \<Rightarrow> ('w, 'a) action" where
  "attempts 0 f w = f w"
| "attempts (Suc n) f w =
     (case f w of
        (Inr x, w') \<Rightarrow> (Inr x, w')
      | (Inl e, w') \<Rightarrow> if n = 0 then (Inl e, w') else attempts n f w')"

definition state_after :: "nat \<Rightarrow> ('w, 'a) action \<Rightarrow> 'w \<Rightarrow> 'w" where
  "state_after k f = (\<lambda>w. snd (f w)) ^^ k"

lemma state_after_0 [simp]: "state_after 0 f w = w"
  by (simp add: state_after_def)

lemma state_after_Suc: "state_after (Suc k) f w = state_after k f (snd (f w))"
  by (simp add: state_after_def funpow_Suc_right del: funpow.simps)

lemma state_after_keeps:
  assumes "\<And>w. I w \<Longrightarrow> I (snd (f w))" and "I w"
  shows "I (state_after k f w)"
  using assms(2) by (induction k arbitrary: w) (simp_all add: state_after_Suc assms(1))

locale tenacity =
  fixes retrying :: "nat \<Rightarrow> ('w, 'a) action \<Rightarrow> ('w, 'a) action"
  assumes returned: "f w = (Inr x, w') \<Longrightarrow> retrying n f w = (Inr x, w')"
    and reraised: "f w = (Inl e, w') \<Longrightarrow> n \<le> 1 \<Longrightarrow> retrying n f w = (Inl e, w')"
    and repeated: "f w = (Inl e, w') \<Longrightarrow> 1 < n \<Longrightarrow> retrying n f w = retrying (n - 1) f w'"
begin

text \<open>The outcome is that of one attempt among the first \<open>n\<close>: the first that returns, or the last.\<close>

lemma outcome:
  assumes "0 < n"
  shows "\<exists>k<n. (\<forall>j<k. isl (fst (f (state_after j f w)))) \<and> retrying n f w = f (state_after k f w) \<and>
    (isl (fst (f (state_after k f w))) \<longrightarrow> k = n - 1)"
  using assms
proof (induction n arbitrary: w)
  case 0
  then show ?case by simp
next
  case (Suc n)
  obtain r w' where f: "f w = (r, w')" by force
  show ?case
  proof (cases r)
    case (Inr x)
    with f returned [of f w x w' "Suc n"] show ?thesis by (intro exI [of _ 0]) simp
  next
    case (Inl e)
    show ?thesis
    proof (cases n)
      case 0
      with f Inl reraised [of f w e w' "Suc n"] show ?thesis by (intro exI [of _ 0]) simp
    next
      case (Suc m)
      have again: "retrying (Suc n) f w = retrying n f w'"
        using f Inl repeated [of f w e w' "Suc n"] Suc by simp
      from Suc.IH [of w'] Suc obtain k where k: "k < n" "\<forall>j<k. isl (fst (f (state_after j f w')))"
          "retrying n f w' = f (state_after k f w')" "isl (fst (f (state_after k f w'))) \<longrightarrow> k = n - 1"
        by auto
      have "\<forall>j<Suc k. isl (fst (f (state_after j f w)))"
        using k(2) f Inl by (auto simp: less_Suc_eq_0_disj state_after_Suc)
      then show ?thesis
        using k again f Suc by (intro exI [of _ "Suc k"]) (auto simp: state_after_Suc)
    qed
  qed
qed

text \<open>An attempt that returns, with only failures before it, decides the outcome.\<close>

lemma first_success:
  assumes "k < n" and "\<forall>j<k. isl (fst (f (state_after j f w)))" and "f (state_after k f w) = (Inr x, w')"
  shows "retrying n f w = (Inr x, w')"
proof -
  obtain i where i: "i < n" "\<forall>j<i. isl (fst (f (state_after j f w)))" "retrying n f w = f (state_after i f w)"
      "isl (fst (f (state_after i f w))) \<longrightarrow> i = n - 1"
    using outcome [of n f w] assms(1) by auto
  have "\<not> i < k"
    using assms(1,2) i(4) by auto
  moreover have "\<not> k < i"
    using assms(3) i(2) by auto
  ultimately have "i = k" by simp
  with i(3) assms(3) show ?thesis by simp
qed

lemma invariant:
  assumes "0 < n" and "\<And>w. I w \<Longrightarrow> I (snd (f w))" and "I w"
  shows "I (snd (retrying n f w))"
proof -
  obtain k where "retrying n f w = f (state_after k f w)" using outcome [OF assms(1)] by blast
  then show ?thesis using assms(2) state_after_keeps [of I f w k, OF assms(2,3)] by simp
qed

end

lemma attempts_unfold:
  "attempts n f w =
     (case f w of
        (Inr x, w') \<Rightarrow> (Inr x, w')
      | (Inl e, w') \<Rightarrow> if n \<le> 1 then (Inl e, w') else attempts (n - 1) f w')"
  by (cases n) (simp_all split: prod.splits sum.splits)

interpretation bounded: tenacity attempts
  by unfold_locales (subst attempts_unfold, simp)+

end
