(* ===== verification/Metrics_Repository.thy ===== *)
theory Metrics_Repository
  imports Retry "HOL-Library.List_Lexorder" "HOL-Library.Char_ord" "HOL-Library.Product_Lexorder"
begin

text \<open>
  The table of daily metrics in PostgreSQL (dz_5/aggregation-service/app/repository.py): the upsert of
  a list of metrics in one transaction, with its retries, and the query for the export. The abstract
  table maps a key to a value and its metadata; the lemmas show that the upsert is an update of that
  map, and so the same however often it is repeated.
\<close>

section \<open>Rows\<close>

text \<open>A date is its number of days since 1970-01-01.\<close>

type_synonym date = int

datatype meta_value = MetaTime instant | MetaInt int

type_synonym meta = "(string \<times> meta_value) list"

text \<open>A metric as the dictionaries of the aggregation have it; three of its keys may be missing.\<close>

record metric =
  metric_name :: string
  dimension_key :: "string option"
  dimension_value :: "string option"
  metric_value :: rat
  metadata :: "meta option"

record metric_row =
  row_date :: date
  row_name :: string
  row_key :: string
  row_value :: string
  row_metric :: rat
  row_computed_at :: instant
  row_metadata :: meta

abbreviation row_id :: "metric_row \<Rightarrow> date \<times> string \<times> string \<times> string" where
  "row_id r \<equiv> (row_date r, row_name r, row_key r, row_value r)"

definition get_or :: "'a \<Rightarrow> 'a option \<Rightarrow> 'a" where
  "get_or d x = (case x of Some y \<Rightarrow> y | None \<Rightarrow> d)"

text \<open>The parameters of the statement for one metric; \<open>float\<close> rounds to a double.\<close>

definition row_of_metric :: "date \<Rightarrow> instant \<Rightarrow> metric \<Rightarrow> metric_row" where
  "row_of_metric d now m =
     \<lparr>row_date = d, row_name = metric_name m, row_key = get_or [] (dimension_key m),
      row_value = get_or [] (dimension_value m), row_metric = double (metric_value m), row_computed_at = now,
      row_metadata = get_or [] (metadata m)\<rparr>"

section \<open>The transaction of an upsert\<close>

text \<open>\<open>INSERT ... ON CONFLICT (...) DO UPDATE SET\<close>: a row with the key keeps its key and takes the rest.\<close>

definition upsert_row :: "metric_row \<Rightarrow> metric_row list \<Rightarrow> metric_row list" where
  "upsert_row r t =
     (if row_id r \<in> row_id ` set t
      then modify_by row_id (row_id r)
             (\<lambda>old. old\<lparr>row_metric := row_metric r, row_computed_at := row_computed_at r, row_metadata := row_metadata r\<rparr>) t
      else t @ [r])"

text \<open>The clock is read for each row; \<open>clock i\<close> is the reading for the \<open>i\<close>-th.\<close>

definition upsert_rows :: "date \<Rightarrow> (nat \<Rightarrow> instant) \<Rightarrow> metric list \<Rightarrow> metric_row list \<Rightarrow> metric_row list" where
  "upsert_rows d clock payload t =
     fold (\<lambda>(i, m). upsert_row (row_of_metric d (clock i) m)) (List.enumerate 0 payload) t"

text \<open>
  How a transaction of another service ends: committed, rolled back, or committed with the answer lost
  on the way, which the client sees as an error too.
\<close>

datatype tx_outcome = Committed | RolledBack pipeline_error | AnswerLost pipeline_error

record 'w metrics_store =
  daily_metrics :: "metric_row list"
  world :: 'w

record ('w, 'm) postgres =
  pg_retrying :: "nat \<Rightarrow> (('w, 'm) metrics_store_scheme, unit) action \<Rightarrow> (('w, 'm) metrics_store_scheme, unit) action"
  pg_transaction :: "'w \<Rightarrow> tx_outcome \<times> 'w"
  pg_query :: "'w \<Rightarrow> pipeline_error option \<times> 'w"
  pg_clock :: "'w \<Rightarrow> nat \<Rightarrow> instant"
  pg_collate :: "string \<Rightarrow> string"

definition upsert_once :: "('w, 'm) postgres \<Rightarrow> date \<Rightarrow> metric list \<Rightarrow> (('w, 'm) metrics_store_scheme, unit) action" where
  "upsert_once P d payload s =
     (if payload = [] then (Inr (), s)
      else
        let t = upsert_rows d (pg_clock P (world s)) payload (daily_metrics s) in
        case pg_transaction P (world s) of
          (Committed, w) \<Rightarrow> (Inr (), s\<lparr>daily_metrics := t, world := w\<rparr>)
        | (RolledBack e, w) \<Rightarrow> (Inl e, s\<lparr>world := w\<rparr>)
        | (AnswerLost e, w) \<Rightarrow> (Inl e, s\<lparr>daily_metrics := t, world := w\<rparr>))"

definition upsert_metrics :: "('w, 'm) postgres \<Rightarrow> date \<Rightarrow> metric list \<Rightarrow> (('w, 'm) metrics_store_scheme, unit) action" where
  "upsert_metrics P d rows = pg_retrying P 5 (upsert_once P d rows)"

section \<open>The query for the export\<close>

text \<open>Texts are ordered by the collation of the database, a key on texts.\<close>

definition fetch_metrics_for_export :: "('w, 'm) postgres \<Rightarrow> date \<Rightarrow> (('w, 'm) metrics_store_scheme, metric_row list) action" where
  "fetch_metrics_for_export P d s =
     (case pg_query P (world s) of
        (Some e, w) \<Rightarrow> (Inl e, s\<lparr>world := w\<rparr>)
      | (None, w) \<Rightarrow>
          (Inr (sort_key (\<lambda>r. (pg_collate P (row_name r), pg_collate P (row_key r), pg_collate P (row_value r)))
                  (filter (\<lambda>r. row_date r = d) (daily_metrics s))),
           s\<lparr>world := w\<rparr>))"

section \<open>The abstract table\<close>

interpretation metrics_table: keyed_table "\<lambda>t k. find_by row_id k t" "\<lambda>r t. t @ [r]" "modify_by row_id" row_id
  by (rule keyed_table_find_by)

type_synonym metric_map = "date \<times> string \<times> string \<times> string \<Rightarrow> (rat \<times> meta) option"

definition metric_view :: "metric_row list \<Rightarrow> metric_map" where
  "metric_view t k = map_option (\<lambda>r. (row_metric r, row_metadata r)) (find_by row_id k t)"

definition entry :: "date \<Rightarrow> metric \<Rightarrow> (date \<times> string \<times> string \<times> string) \<times> rat \<times> meta" where
  "entry d m =
     ((d, metric_name m, get_or [] (dimension_key m), get_or [] (dimension_value m)),
      double (metric_value m), get_or [] (metadata m))"

definition put_metrics :: "date \<Rightarrow> metric list \<Rightarrow> metric_map \<Rightarrow> metric_map" where
  "put_metrics d payload v = v ++ map_of (rev (map (entry d) payload))"

lemma put_metrics_twice [simp]: "put_metrics d payload (put_metrics d payload v) = put_metrics d payload v"
  by (rule ext) (simp add: put_metrics_def map_add_def split: option.splits)

lemma upsert_row_view:
  "metric_view (upsert_row r t) = (metric_view t)(row_id r \<mapsto> (row_metric r, row_metadata r))"
proof
  fix k
  let ?f = "\<lambda>old. old\<lparr>row_metric := row_metric r, row_computed_at := row_computed_at r, row_metadata := row_metadata r\<rparr>"
  show "metric_view (upsert_row r t) k = ((metric_view t)(row_id r \<mapsto> (row_metric r, row_metadata r))) k"
  proof (cases "row_id r \<in> row_id ` set t")
    case True
    then obtain old where old: "find_by row_id (row_id r) t = Some old"
      using find_by_in_keys [of "row_id r" row_id t] by blast
    have "find_by row_id k (modify_by row_id (row_id r) ?f t) =
        (if k = row_id r then map_option ?f (find_by row_id k t) else find_by row_id k t)"
      by (rule find_by_modify_by) simp
    with True old show ?thesis by (simp add: upsert_row_def metric_view_def)
  next
    case False
    then have "find_by row_id (row_id r) t = None" using find_by_None_iff [of row_id "row_id r" t] by simp
    from metrics_table.lookup_insert [OF this, of k] False show ?thesis
      by (simp add: upsert_row_def metric_view_def)
  qed
qed

lemma upsert_row_distinct: "distinct (map row_id t) \<Longrightarrow> distinct (map row_id (upsert_row r t))"
  by (auto simp: upsert_row_def)

lemma upsert_rows_Nil [simp]: "upsert_rows d clock [] t = t"
  by (simp add: upsert_rows_def)

lemma upsert_rows_snoc:
  "upsert_rows d clock (ms @ [m]) t = upsert_row (row_of_metric d (clock (length ms)) m) (upsert_rows d clock ms t)"
  by (simp add: upsert_rows_def enumerate_append_eq)

text \<open>The loop over the rows refines one update of the map.\<close>

lemma upsert_rows_view: "metric_view (upsert_rows d clock payload t) = put_metrics d payload (metric_view t)"
proof (induction payload rule: rev_induct)
  case Nil
  then show ?case by (simp add: put_metrics_def)
next
  case (snoc m ms)
  then show ?case
    by (simp add: upsert_rows_snoc upsert_row_view put_metrics_def entry_def row_of_metric_def)
qed

lemma upsert_rows_distinct: "distinct (map row_id t) \<Longrightarrow> distinct (map row_id (upsert_rows d clock payload t))"
  by (induction payload rule: rev_induct) (simp_all only: upsert_rows_Nil upsert_rows_snoc upsert_row_distinct)

lemma filter_modify_by_other:
  "(\<And>x. key x = k \<Longrightarrow> \<not> Q x \<and> \<not> Q (f x)) \<Longrightarrow> filter Q (modify_by key k f t) = filter Q t"
  by (induction t) (auto simp: modify_by_def)

lemma upsert_row_other_dates:
  "row_date r \<noteq> d \<Longrightarrow> filter (\<lambda>x. row_date x = d) (upsert_row r t) = filter (\<lambda>x. row_date x = d) t"
  unfolding upsert_row_def by (auto intro!: filter_modify_by_other)

lemma upsert_rows_other_dates:
  "d' \<noteq> d \<Longrightarrow> filter (\<lambda>x. row_date x = d') (upsert_rows d clock payload t) = filter (\<lambda>x. row_date x = d') t"
  by (induction payload rule: rev_induct)
    (simp_all add: upsert_rows_snoc upsert_row_other_dates row_of_metric_def)

section \<open>Repeated attempts\<close>

text \<open>What any number of attempts leaves: the table as it was, or with the metrics put once.\<close>

definition put_at_most_once :: "date \<Rightarrow> metric list \<Rightarrow> metric_row list \<Rightarrow> metric_row list \<Rightarrow> bool" where
  "put_at_most_once d payload t t' \<longleftrightarrow>
     distinct (map row_id t') \<and>
     metric_view t' \<in> {metric_view t, put_metrics d payload (metric_view t)} \<and>
     (\<forall>d'. d' \<noteq> d \<longrightarrow> filter (\<lambda>r. row_date r = d') t' = filter (\<lambda>r. row_date r = d') t)"

lemma put_at_most_once_upsert_rows:
  assumes "put_at_most_once d payload t t'"
  shows "put_at_most_once d payload t (upsert_rows d clock payload t') \<and>
    metric_view (upsert_rows d clock payload t') = put_metrics d payload (metric_view t)"
  using assms by (auto simp: put_at_most_once_def upsert_rows_view upsert_rows_distinct upsert_rows_other_dates)

lemma upsert_once_cases:
  obtains e where "fst (upsert_once P d payload s) = Inl e" "daily_metrics (snd (upsert_once P d payload s)) = daily_metrics s"
  | clock where "daily_metrics (snd (upsert_once P d payload s)) = upsert_rows d clock payload (daily_metrics s)"
proof (cases "payload = []")
  case True
  then show ?thesis using that(2) [of "\<lambda>_. 0"] by (simp add: upsert_once_def)
next
  case False
  obtain o1 w where tx: "pg_transaction P (world s) = (o1, w)" by force
  show ?thesis
    by (cases o1) (use False tx that in \<open>simp_all add: upsert_once_def Let_def\<close>)
qed

lemma upsert_once_keeps:
  assumes "put_at_most_once d payload t (daily_metrics s)"
  shows "put_at_most_once d payload t (daily_metrics (snd (upsert_once P d payload s)))"
  by (rule upsert_once_cases [of P d payload s]) (simp_all add: assms put_at_most_once_upsert_rows)

lemma upsert_metrics_put:
  assumes "tenacity (pg_retrying P)" and "distinct (map row_id (daily_metrics s))"
    and "upsert_metrics P d payload s = (r, s')"
  shows "put_at_most_once d payload (daily_metrics s) (daily_metrics s') \<and>
    (isl r \<or> metric_view (daily_metrics s') = put_metrics d payload (metric_view (daily_metrics s)))"
proof -
  let ?f = "upsert_once P d payload" and ?t = "daily_metrics s"
  obtain k where k: "?f (state_after k ?f s) = (r, s')"
    using tenacity.outcome [OF assms(1), of 5 ?f s] assms(3) by (auto simp: upsert_metrics_def)
  have "put_at_most_once d payload ?t ?t"
    using assms(2) by (simp add: put_at_most_once_def)
  then have before: "put_at_most_once d payload ?t (daily_metrics (state_after k ?f s))"
    by (intro state_after_keeps [where I = "\<lambda>q. put_at_most_once d payload ?t (daily_metrics q)"] upsert_once_keeps)
  have "metric_view (daily_metrics s') = put_metrics d payload (metric_view ?t) \<or> isl r"
    by (rule upsert_once_cases [of P d payload "state_after k ?f s"])
      (use before k put_at_most_once_upsert_rows in \<open>auto simp: isl_def\<close>)
  with upsert_once_keeps [OF before, of P] k show ?thesis
    by auto
qed

text \<open>
  C36: Storing the metrics of a date, however many attempts it takes and whether or not answers of the
  database are lost, puts them exactly once when it succeeds, and once or not at all when it fails: the
  abstract table is the one before, updated by the metrics. Keys stay unique, and the rows of the other
  dates stay as they are.
\<close>

theorem upsert_exactly_once:
  assumes "tenacity (pg_retrying P)" and "distinct (map row_id (daily_metrics s))"
    and "upsert_metrics P d payload s = (r, s')"
  shows "distinct (map row_id (daily_metrics s')) \<and>
    (metric_view (daily_metrics s') = put_metrics d payload (metric_view (daily_metrics s)) \<or>
       isl r \<and> metric_view (daily_metrics s') = metric_view (daily_metrics s)) \<and>
    (\<forall>d'. d' \<noteq> d \<longrightarrow>
       filter (\<lambda>x. row_date x = d') (daily_metrics s') = filter (\<lambda>x. row_date x = d') (daily_metrics s))"
  using upsert_metrics_put [OF assms] by (auto simp: put_at_most_once_def)

text \<open>A database that loses the first answer and refuses the second transaction.\<close>

definition sample_postgres :: "(nat, 'm) postgres" where
  "sample_postgres =
     \<lparr>pg_retrying = attempts,
      pg_transaction = (\<lambda>w. (if w = 0 then AnswerLost (ClientError ''timeout'') else if w = 1 then RolledBack (ClientError ''down'') else Committed, w + 1)),
      pg_query = (\<lambda>w. (None, w)), pg_clock = (\<lambda>w i. int (10 * w + i)), pg_collate = (\<lambda>t. t)\<rparr>"

definition sample_metrics :: "metric list" where
  "sample_metrics =
     [\<lparr>metric_name = ''DAU'', dimension_key = None, dimension_value = None, metric_value = 3, metadata = Some []\<rparr>,
      \<lparr>metric_name = ''DEVICE_EVENTS'', dimension_key = Some ''device_type'', dimension_value = Some ''TV'', metric_value = 2, metadata = Some []\<rparr>]"

lemma sample_postgres_retrying: "tenacity (pg_retrying sample_postgres)"
  using bounded.tenacity_axioms by (simp add: sample_postgres_def)

theorem upsert_exactly_once_witness:
  "metric_view (daily_metrics (snd (upsert_metrics sample_postgres 20564 sample_metrics \<lparr>daily_metrics = [], world = 0\<rparr>)))
     = put_metrics 20564 sample_metrics (metric_view [])"
proof -
  let ?s = "\<lparr>daily_metrics = [], world = 0 :: nat\<rparr>"
  obtain r s' where run: "upsert_metrics sample_postgres 20564 sample_metrics ?s = (r, s')" by force
  have "fst (upsert_metrics sample_postgres 20564 sample_metrics ?s) = Inr ()"
    unfolding upsert_metrics_def by code_simp
  with run have "\<not> isl r" by simp
  with upsert_exactly_once [OF sample_postgres_retrying _ run] show ?thesis
    by (simp add: run)
qed

end
