(* ===== verification/Aggregation.thy ===== *)
theory Aggregation
  imports Metrics_Repository
begin

text \<open>
  The daily metrics in ClickHouse (dz_5/aggregation-service/app/aggregation.py): the table of raw
  events, the seven tables of metrics with the statements that rewrite a date in each of them, and the
  payload that is read back from them. Each rewriting is a deletion followed by an insertion, two
  commands; each query is the function that its SQL text denotes. Quotients of counts are rounded to
  doubles; sums of seconds are taken as exact, which they are below \<open>2 ^ 53\<close>.
\<close>

section \<open>Tables\<close>

record event_row =
  er_date :: date
  er_event_id :: uuid
  er_user_id :: string
  er_movie_id :: string
  er_event_type :: string
  er_timestamp :: int
  er_device_type :: string
  er_session_id :: string
  er_progress_seconds :: "int option"
  er_search_query :: "string option"
  er_schema_version :: int

record dau_row = dau_date :: date  dau_users :: nat  dau_at :: instant

record avg_row = avg_date :: date  avg_seconds :: rat  avg_at :: instant

record top_row = top_date :: date  top_movie :: string  top_views :: nat  top_rank :: nat  top_at :: instant

record conv_row = conv_date :: date  conv_started :: nat  conv_finished :: nat  conv_rate :: rat  conv_at :: instant

record ret_row = ret_date :: date  ret_d1 :: rat  ret_d7 :: rat  ret_at :: instant

record dev_row = dev_date :: date  dev_type :: string  dev_events :: nat  dev_at :: instant

record coh_row =
  coh_date :: date
  coh_day :: int
  coh_users :: nat
  coh_size :: nat
  coh_rate :: rat
  coh_at :: instant

record clickhouse_db =
  movie_events :: "event_row list"
  daily_dau :: "dau_row list"
  daily_avg_watch_time :: "avg_row list"
  daily_top_movies :: "top_row list"
  daily_conversion :: "conv_row list"
  daily_retention :: "ret_row list"
  device_distribution :: "dev_row list"
  retention_cohorts :: "coh_row list"

text \<open>
  \<open>toDate\<close> of a time stamp in milliseconds, and the row that the materialized view makes of an event. A
  \<open>Date\<close> of ClickHouse is a day from 1970 to 2149; what it is for a time outside of these years is not
  documented, and the model goes on counting.
\<close>

definition to_date :: "int \<Rightarrow> date" where
  "to_date ms = ms div 86400000"

definition event_row_of :: "movie_event \<Rightarrow> event_row" where
  "event_row_of ev =
     (let ms = epoch_millis (posix_microseconds (timestamp ev)) in
      \<lparr>er_date = to_date ms, er_event_id = event_id ev, er_user_id = user_id ev, er_movie_id = movie_id ev,
       er_event_type = event_type_value (event_type ev), er_timestamp = ms,
       er_device_type = device_type_value (device_type ev), er_session_id = session_id ev,
       er_progress_seconds = progress_seconds ev, er_search_query = search_query ev,
       er_schema_version = schema_version ev\<rparr>)"

section \<open>Queries on the events\<close>

definition watch_types :: "string list" where
  "watch_types = [''VIEW_STARTED'', ''VIEW_FINISHED'', ''VIEW_PAUSED'', ''VIEW_RESUMED'']"

definition events_of :: "date \<Rightarrow> event_row list \<Rightarrow> event_row list" where
  "events_of d es = filter (\<lambda>e. er_date e = d) es"

definition watch_events :: "event_row list \<Rightarrow> event_row list" where
  "watch_events es = filter (\<lambda>e. er_event_type e \<in> set watch_types) es"

text \<open>\<open>countIf(event_type = t)\<close>, \<open>uniqExact\<close>, and the division of counts.\<close>

definition count_type :: "string \<Rightarrow> event_row list \<Rightarrow> nat" where
  "count_type t es = length (filter (\<lambda>e. er_event_type e = t) es)"

definition uniq_exact :: "'a list \<Rightarrow> nat" where
  "uniq_exact xs = length (remdups xs)"

definition ratio :: "nat \<Rightarrow> nat \<Rightarrow> rat" where
  "ratio n m = double (of_nat n / of_nat m)"

text \<open>
  The average of no rows is null, and a null inserted into a column without nulls is stored as the
  default of the column (setting \<open>insert_null_as_default\<close>), which is 0.
\<close>

definition avg_watch_seconds :: "event_row list \<Rightarrow> rat" where
  "avg_watch_seconds es =
     (let ps = List.map_filter er_progress_seconds (filter (\<lambda>e. er_event_type e = ''VIEW_FINISHED'') es)
      in if ps = [] then 0 else double (of_int (sum_list ps) / of_nat (length ps)))"

text \<open>\<open>row_number() OVER (ORDER BY views DESC, movie_id)\<close>, the groups being those of the movies.\<close>

definition movie_views :: "event_row list \<Rightarrow> string \<Rightarrow> nat" where
  "movie_views es m = count_type ''VIEW_FINISHED'' (filter (\<lambda>e. er_movie_id e = m) es)"

definition ranked_movies :: "event_row list \<Rightarrow> (nat \<times> string) list" where
  "ranked_movies es =
     List.enumerate 1 (sort_key (\<lambda>m. (- int (movie_views es m), m)) (remdups (map er_movie_id es)))"

text \<open>The day of the first watch event of each user who has one.\<close>

definition first_watch :: "event_row list \<Rightarrow> (string \<times> date) list" where
  "first_watch es =
     map (\<lambda>u. (u, min_list (map (\<lambda>e. to_date (er_timestamp e)) (filter (\<lambda>e. er_user_id e = u) (watch_events es)))))
       (remdups (map er_user_id (watch_events es)))"

definition cohort :: "date \<Rightarrow> event_row list \<Rightarrow> string list" where
  "cohort d es = map fst (filter (\<lambda>(u, first). first = d) (first_watch es))"

text \<open>
  The dates that the left join has for a user: those of the matching events, or the default date, day
  0, when there are none.
\<close>

definition joined_dates :: "date \<Rightarrow> event_row list \<Rightarrow> string \<Rightarrow> date list" where
  "joined_dates d es u =
     (let ds = map er_date (filter (\<lambda>e. er_user_id e = u \<and> er_date e \<in> {d + 1, d + 7}) (watch_events es))
      in if ds = [] then [0] else ds)"

definition retention :: "date \<Rightarrow> int \<Rightarrow> event_row list \<Rightarrow> rat" where
  "retention d k es =
     (if cohort d es = [] then 0
      else ratio (length (filter (\<lambda>u. d + k \<in> set (joined_dates d es u)) (cohort d es))) (length (cohort d es)))"

text \<open>
  The users of a cohort with the days of their lives on which they watched. In the query the condition
  and the grouping name \<open>lifecycle_day\<close>, which is both a column and the alias of \<open>toUInt8(lifecycle_day)\<close>;
  ClickHouse prefers the alias (setting \<open>prefer_column_name_to_alias\<close> is off), so they see the day
  modulo 256.
\<close>

definition to_uint8 :: "int \<Rightarrow> int" where
  "to_uint8 n = n mod 256"

definition lifecycle_days :: "date \<Rightarrow> event_row list \<Rightarrow> (string \<times> int) list" where
  "lifecycle_days d es =
     concat (map (\<lambda>u. map (\<lambda>e. (u, to_uint8 (er_date e - d))) (filter (\<lambda>e. er_user_id e = u) (watch_events es))) (cohort d es))"

definition lifecycle_groups :: "date \<Rightarrow> event_row list \<Rightarrow> int list" where
  "lifecycle_groups d es = sort (remdups (filter (\<lambda>k. 0 \<le> k \<and> k \<le> 7) (map snd (lifecycle_days d es))))"

definition lifecycle_users :: "date \<Rightarrow> event_row list \<Rightarrow> int \<Rightarrow> nat" where
  "lifecycle_users d es k = uniq_exact (map fst (filter (\<lambda>(u, n). n = k) (lifecycle_days d es)))"

section \<open>The rows of a date\<close>

definition dau_rows :: "date \<Rightarrow> instant \<Rightarrow> event_row list \<Rightarrow> dau_row list" where
  "dau_rows d computed_at es =
     [\<lparr>dau_date = d, dau_users = uniq_exact (map er_user_id (events_of d es)), dau_at = computed_at\<rparr>]"

definition avg_rows :: "date \<Rightarrow> instant \<Rightarrow> event_row list \<Rightarrow> avg_row list" where
  "avg_rows d computed_at es =
     [\<lparr>avg_date = d, avg_seconds = avg_watch_seconds (events_of d es), avg_at = computed_at\<rparr>]"

definition top_rows :: "date \<Rightarrow> instant \<Rightarrow> event_row list \<Rightarrow> top_row list" where
  "top_rows d computed_at es =
     map (\<lambda>(rank, m). \<lparr>top_date = d, top_movie = m, top_views = movie_views (events_of d es) m, top_rank = rank, top_at = computed_at\<rparr>)
       (filter (\<lambda>(rank, m). rank \<le> 10) (ranked_movies (events_of d es)))"

definition conv_rows :: "date \<Rightarrow> instant \<Rightarrow> event_row list \<Rightarrow> conv_row list" where
  "conv_rows d computed_at es =
     (let started = count_type ''VIEW_STARTED'' (events_of d es);
          finished = count_type ''VIEW_FINISHED'' (events_of d es)
      in [\<lparr>conv_date = d, conv_started = started, conv_finished = finished,
           conv_rate = (if started = 0 then 0 else ratio finished started), conv_at = computed_at\<rparr>])"

definition ret_rows :: "date \<Rightarrow> instant \<Rightarrow> event_row list \<Rightarrow> ret_row list" where
  "ret_rows d computed_at es =
     [\<lparr>ret_date = d, ret_d1 = retention d 1 es, ret_d7 = retention d 7 es, ret_at = computed_at\<rparr>]"

definition dev_rows :: "date \<Rightarrow> instant \<Rightarrow> event_row list \<Rightarrow> dev_row list" where
  "dev_rows d computed_at es =
     map (\<lambda>t. \<lparr>dev_date = d, dev_type = t, dev_events = length (filter (\<lambda>e. er_device_type e = t) (events_of d es)), dev_at = computed_at\<rparr>)
       (remdups (map er_device_type (events_of d es)))"

definition coh_rows :: "date \<Rightarrow> instant \<Rightarrow> event_row list \<Rightarrow> coh_row list" where
  "coh_rows d computed_at es =
     map (\<lambda>k. \<lparr>coh_date = d, coh_day = k, coh_users = lifecycle_users d es k, coh_size = length (cohort d es),
            coh_rate = (if length (cohort d es) = 0 then 0 else ratio (lifecycle_users d es k) (length (cohort d es))),
            coh_at = computed_at\<rparr>)
       (lifecycle_groups d es)"

section \<open>The rewriting commands\<close>

type_synonym command = "clickhouse_db \<Rightarrow> clickhouse_db"

definition rewrite_daily_dau :: "date \<Rightarrow> instant \<Rightarrow> command list" where
  "rewrite_daily_dau d computed_at =
     [\<lambda>c. c\<lparr>daily_dau := filter (\<lambda>r. dau_date r \<noteq> d) (daily_dau c)\<rparr>,
      \<lambda>c. c\<lparr>daily_dau := daily_dau c @ dau_rows d computed_at (movie_events c)\<rparr>]"

definition rewrite_avg_watch_time :: "date \<Rightarrow> instant \<Rightarrow> command list" where
  "rewrite_avg_watch_time d computed_at =
     [\<lambda>c. c\<lparr>daily_avg_watch_time := filter (\<lambda>r. avg_date r \<noteq> d) (daily_avg_watch_time c)\<rparr>,
      \<lambda>c. c\<lparr>daily_avg_watch_time := daily_avg_watch_time c @ avg_rows d computed_at (movie_events c)\<rparr>]"

definition rewrite_top_movies :: "date \<Rightarrow> instant \<Rightarrow> command list" where
  "rewrite_top_movies d computed_at =
     [\<lambda>c. c\<lparr>daily_top_movies := filter (\<lambda>r. top_date r \<noteq> d) (daily_top_movies c)\<rparr>,
      \<lambda>c. c\<lparr>daily_top_movies := daily_top_movies c @ top_rows d computed_at (movie_events c)\<rparr>]"

definition rewrite_conversion :: "date \<Rightarrow> instant \<Rightarrow> command list" where
  "rewrite_conversion d computed_at =
     [\<lambda>c. c\<lparr>daily_conversion := filter (\<lambda>r. conv_date r \<noteq> d) (daily_conversion c)\<rparr>,
      \<lambda>c. c\<lparr>daily_conversion := daily_conversion c @ conv_rows d computed_at (movie_events c)\<rparr>]"

definition rewrite_retention :: "date \<Rightarrow> instant \<Rightarrow> command list" where
  "rewrite_retention d computed_at =
     [\<lambda>c. c\<lparr>daily_retention := filter (\<lambda>r. ret_date r \<noteq> d) (daily_retention c)\<rparr>,
      \<lambda>c. c\<lparr>daily_retention := daily_retention c @ ret_rows d computed_at (movie_events c)\<rparr>]"

definition rewrite_device_distribution :: "date \<Rightarrow> instant \<Rightarrow> command list" where
  "rewrite_device_distribution d computed_at =
     [\<lambda>c. c\<lparr>device_distribution := filter (\<lambda>r. dev_date r \<noteq> d) (device_distribution c)\<rparr>,
      \<lambda>c. c\<lparr>device_distribution := device_distribution c @ dev_rows d computed_at (movie_events c)\<rparr>]"

definition rewrite_retention_cohorts :: "date \<Rightarrow> instant \<Rightarrow> command list" where
  "rewrite_retention_cohorts d computed_at =
     [\<lambda>c. c\<lparr>retention_cohorts := filter (\<lambda>r. coh_date r \<noteq> d) (retention_cohorts c)\<rparr>,
      \<lambda>c. c\<lparr>retention_cohorts := retention_cohorts c @ coh_rows d computed_at (movie_events c)\<rparr>]"

definition rewrite_all :: "date \<Rightarrow> instant \<Rightarrow> command list" where
  "rewrite_all d computed_at =
     rewrite_daily_dau d computed_at @ rewrite_avg_watch_time d computed_at @ rewrite_top_movies d computed_at @
     rewrite_conversion d computed_at @ rewrite_retention d computed_at @
     rewrite_device_distribution d computed_at @ rewrite_retention_cohorts d computed_at"

section \<open>The payload\<close>

text \<open>
  \<open>SELECT ... FINAL\<close> from a \<open>ReplacingMergeTree(computed_at)\<close>: of the rows with the same sorting key only
  the one with the greatest version is read, of equal versions the last one inserted.
\<close>

fun final :: "('r \<Rightarrow> 'k) \<Rightarrow> ('r \<Rightarrow> instant) \<Rightarrow> 'r list \<Rightarrow> 'r list" where
  "final key ver [] = []"
| "final key ver (r # rs) =
     (if list_ex (\<lambda>s. key s = key r \<and> ver r \<le> ver s) rs then final key ver rs
      else r # filter (\<lambda>s. key s \<noteq> key r) (final key ver rs))"

definition plain_metric :: "instant \<Rightarrow> string \<Rightarrow> rat \<Rightarrow> metric" where
  "plain_metric computed_at name v =
     \<lparr>metric_name = name, dimension_key = None, dimension_value = None, metric_value = v,
      metadata = Some [(''computed_at'', MetaTime computed_at)]\<rparr>"

definition dau_metrics :: "date \<Rightarrow> instant \<Rightarrow> dau_row list \<Rightarrow> metric list" where
  "dau_metrics d computed_at t =
     (case filter (\<lambda>r. dau_date r = d) (final dau_date dau_at t) of
        [] \<Rightarrow> [] | r # _ \<Rightarrow> [plain_metric computed_at ''DAU'' (of_nat (dau_users r))])"

definition avg_metrics :: "date \<Rightarrow> instant \<Rightarrow> avg_row list \<Rightarrow> metric list" where
  "avg_metrics d computed_at t =
     (case filter (\<lambda>r. avg_date r = d) (final avg_date avg_at t) of
        [] \<Rightarrow> [] | r # _ \<Rightarrow> [plain_metric computed_at ''AVG_WATCH_SECONDS'' (avg_seconds r)])"

definition conv_metrics :: "date \<Rightarrow> instant \<Rightarrow> conv_row list \<Rightarrow> metric list" where
  "conv_metrics d computed_at t =
     (case filter (\<lambda>r. conv_date r = d) (final conv_date conv_at t) of
        [] \<Rightarrow> []
      | r # _ \<Rightarrow> [plain_metric computed_at ''VIEW_STARTED'' (of_nat (conv_started r)),
                  plain_metric computed_at ''VIEW_FINISHED'' (of_nat (conv_finished r)),
                  plain_metric computed_at ''CONVERSION_RATE'' (conv_rate r)])"

definition ret_metrics :: "date \<Rightarrow> instant \<Rightarrow> ret_row list \<Rightarrow> metric list" where
  "ret_metrics d computed_at t =
     (case filter (\<lambda>r. ret_date r = d) (final ret_date ret_at t) of
        [] \<Rightarrow> []
      | r # _ \<Rightarrow> [plain_metric computed_at ''RETENTION_D1'' (ret_d1 r), plain_metric computed_at ''RETENTION_D7'' (ret_d7 r)])"

definition top_metrics :: "date \<Rightarrow> instant \<Rightarrow> top_row list \<Rightarrow> metric list" where
  "top_metrics d computed_at t =
     map (\<lambda>r. \<lparr>metric_name = ''TOP_MOVIE_VIEWS'', dimension_key = Some ''movie_id'', dimension_value = Some (top_movie r),
            metric_value = of_nat (top_views r),
            metadata = Some [(''rank'', MetaInt (int (top_rank r))), (''computed_at'', MetaTime computed_at)]\<rparr>)
       (sort_key top_rank (filter (\<lambda>r. top_date r = d) (final (\<lambda>r. (top_date r, top_rank r, top_movie r)) top_at t)))"

definition dev_metrics :: "date \<Rightarrow> instant \<Rightarrow> dev_row list \<Rightarrow> metric list" where
  "dev_metrics d computed_at t =
     map (\<lambda>r. \<lparr>metric_name = ''DEVICE_EVENTS'', dimension_key = Some ''device_type'', dimension_value = Some (dev_type r),
            metric_value = of_nat (dev_events r), metadata = Some [(''computed_at'', MetaTime computed_at)]\<rparr>)
       (sort_key dev_type (filter (\<lambda>r. dev_date r = d) (final (\<lambda>r. (dev_date r, dev_type r)) dev_at t)))"

definition build_metric_payload :: "date \<Rightarrow> instant \<Rightarrow> clickhouse_db \<Rightarrow> metric list" where
  "build_metric_payload d computed_at c =
     dau_metrics d computed_at (daily_dau c) @ avg_metrics d computed_at (daily_avg_watch_time c) @
     conv_metrics d computed_at (daily_conversion c) @ ret_metrics d computed_at (daily_retention c) @
     top_metrics d computed_at (daily_top_movies c) @ dev_metrics d computed_at (device_distribution c)"

end
