(* ===== verification/Aggregation_Facts.thy ===== *)
theory Aggregation_Facts
  imports Aggregation
begin

text \<open>
  What the statements of Aggregation compute: reading with \<open>FINAL\<close> after a rewriting, the payload as a
  function of the events alone, the ranking of the movies, and the bounds of the rates.
\<close>

section \<open>What a rewriting leaves\<close>

lemma final_filter:
  assumes "\<And>r s. key r = key s \<Longrightarrow> Q r \<longleftrightarrow> Q s"
  shows "filter Q (final key ver rs) = final key ver (filter Q rs)"
proof (induction rs)
  case Nil
  then show ?case by simp
next
  case (Cons r rs)
  let ?later = "\<lambda>s. key s = key r \<and> ver r \<le> ver s"
  have same: "list_ex ?later (filter Q rs) \<longleftrightarrow> list_ex ?later rs" if "Q r"
  proof -
    have "key s = key r \<Longrightarrow> Q s" for s using that assms by metis
    then show ?thesis by (auto simp: list_ex_iff)
  qed
  have other: "filter Q (filter (\<lambda>s. key s \<noteq> key r) xs) = filter Q xs" if "\<not> Q r" for xs
  proof -
    have "Q s \<Longrightarrow> key s \<noteq> key r" for s using that assms by metis
    then show ?thesis by (induction xs) auto
  qed
  have swap: "filter Q (filter (\<lambda>s. key s \<noteq> key r) xs) = filter (\<lambda>s. key s \<noteq> key r) (filter Q xs)" for xs
    by (induction xs) auto
  show ?case
  proof (cases "Q r")
    case True
    show ?thesis
      by (cases "list_ex ?later rs") (simp_all only: final.simps filter.simps True same [OF True] if_True if_False Cons.IH swap)
  next
    case False
    show ?thesis
      by (cases "list_ex ?later rs") (simp_all only: final.simps filter.simps False if_True if_False Cons.IH other [OF False])
  qed
qed

lemma final_distinct: "distinct (map key rs) \<Longrightarrow> final key ver rs = rs"
proof (induction rs)
  case (Cons r rs)
  have "key s \<noteq> key r" if "s \<in> set rs" for s
    using Cons.prems that by (simp, metis image_eqI)
  with Cons show ?case by (auto simp: list_ex_iff)
qed simp

text \<open>After a deletion and an insertion, exactly the new rows of the date are read.\<close>

lemma final_rewritten:
  assumes "\<And>r s. key r = key s \<Longrightarrow> date_of r = date_of s" and "distinct (map key rows)" and "\<forall>r\<in>set rows. date_of r = d"
  shows "filter (\<lambda>r. date_of r = d) (final key ver (filter (\<lambda>r. date_of r \<noteq> d) t @ rows)) = rows"
proof -
  have rows: "filter (\<lambda>r. date_of r = d) rows = rows" using assms(3) by (simp add: filter_id_conv)
  have "filter (\<lambda>r. date_of r = d) (final key ver (filter (\<lambda>r. date_of r \<noteq> d) t @ rows)) =
      final key ver (filter (\<lambda>r. date_of r = d) (filter (\<lambda>r. date_of r \<noteq> d) t @ rows))"
    using assms(1) by (intro final_filter) metis
  also have "\<dots> = final key ver rows" using rows by simp
  finally show ?thesis by (simp only: final_distinct [OF assms(2)])
qed

lemma rows_of_date:
  "\<forall>r\<in>set (dau_rows d computed_at es). dau_date r = d" "\<forall>r\<in>set (avg_rows d computed_at es). avg_date r = d"
  "\<forall>r\<in>set (top_rows d computed_at es). top_date r = d" "\<forall>r\<in>set (conv_rows d computed_at es). conv_date r = d"
  "\<forall>r\<in>set (ret_rows d computed_at es). ret_date r = d" "\<forall>r\<in>set (dev_rows d computed_at es). dev_date r = d"
  "\<forall>r\<in>set (coh_rows d computed_at es). coh_date r = d"
  by (auto simp: dau_rows_def avg_rows_def top_rows_def conv_rows_def ret_rows_def dev_rows_def coh_rows_def Let_def)

lemma ranks: "map fst (ranked_movies es) = [1..<Suc (length (remdups (map er_movie_id es)))]"
  unfolding ranked_movies_def map_fst_enumerate length_sort by simp

lemma map_fst_filter: "map fst (filter (\<lambda>(a, b). Q a) xs) = filter Q (map fst xs)"
  by (induction xs) auto

lemma top_rows_ranks:
  "map top_rank (top_rows d computed_at es) = filter (\<lambda>rank. rank \<le> 10) [1..<Suc (length (remdups (map er_movie_id (events_of d es))))]"
proof -
  have "map top_rank (top_rows d computed_at es) = map fst (filter (\<lambda>(rank, m). rank \<le> 10) (ranked_movies (events_of d es)))"
    by (auto simp: top_rows_def)
  then show ?thesis by (simp only: map_fst_filter ranks)
qed

lemma top_rows_distinct: "distinct (map (\<lambda>r. (top_date r, top_rank r, top_movie r)) (top_rows d computed_at es))"
proof -
  have "distinct (map top_rank (top_rows d computed_at es))"
    unfolding top_rows_ranks by (intro distinct_filter distinct_upt)
  then show ?thesis by (auto simp: distinct_map inj_on_def)
qed

lemma sorted_top_rows: "sort_key top_rank (top_rows d computed_at es) = top_rows d computed_at es"
proof (rule sort_key_id_if_sorted)
  show "sorted (map top_rank (top_rows d computed_at es))"
    unfolding top_rows_ranks using sorted_filter [of "\<lambda>x. x" "[1..<Suc (length (remdups (map er_movie_id (events_of d es))))]"]
    by (simp only: list.map_ident sorted_upt simp_thms)
qed

lemma insort_key_map: "insort_key f (g x) (map g ys) = map g (insort_key (\<lambda>y. f (g y)) x ys)"
  by (induction ys) auto

lemma sort_key_map: "sort_key f (map g xs) = map g (sort_key (\<lambda>y. f (g y)) xs)"
  by (induction xs) (simp_all add: insort_key_map)

lemma sorted_dev_rows:
  "sort_key dev_type (dev_rows d computed_at es) =
     map (\<lambda>t. \<lparr>dev_date = d, dev_type = t, dev_events = length (filter (\<lambda>e. er_device_type e = t) (events_of d es)), dev_at = computed_at\<rparr>)
       (sort (remdups (map er_device_type (events_of d es))))"
  by (simp add: dev_rows_def sort_key_map o_def)

lemma dev_rows_distinct: "distinct (map (\<lambda>r. (dev_date r, dev_type r)) (dev_rows d computed_at es))"
  by (simp add: dev_rows_def o_def distinct_map inj_on_def)

section \<open>The rewritten tables and the payload\<close>

text \<open>The tables of metrics that a run over all the commands leaves, for the date and for the others.\<close>

definition rewritten :: "date \<Rightarrow> instant \<Rightarrow> clickhouse_db \<Rightarrow> clickhouse_db" where
  "rewritten d computed_at c =
     c\<lparr>daily_dau := filter (\<lambda>r. dau_date r \<noteq> d) (daily_dau c) @ dau_rows d computed_at (movie_events c),
       daily_avg_watch_time := filter (\<lambda>r. avg_date r \<noteq> d) (daily_avg_watch_time c) @ avg_rows d computed_at (movie_events c),
       daily_top_movies := filter (\<lambda>r. top_date r \<noteq> d) (daily_top_movies c) @ top_rows d computed_at (movie_events c),
       daily_conversion := filter (\<lambda>r. conv_date r \<noteq> d) (daily_conversion c) @ conv_rows d computed_at (movie_events c),
       daily_retention := filter (\<lambda>r. ret_date r \<noteq> d) (daily_retention c) @ ret_rows d computed_at (movie_events c),
       device_distribution := filter (\<lambda>r. dev_date r \<noteq> d) (device_distribution c) @ dev_rows d computed_at (movie_events c),
       retention_cohorts := filter (\<lambda>r. coh_date r \<noteq> d) (retention_cohorts c) @ coh_rows d computed_at (movie_events c)\<rparr>"

lemmas rewrite_defs = rewrite_daily_dau_def rewrite_avg_watch_time_def rewrite_top_movies_def rewrite_conversion_def
  rewrite_retention_def rewrite_device_distribution_def rewrite_retention_cohorts_def

lemma rewrite_all_effect: "fold (\<lambda>f c. f c) (rewrite_all d computed_at) c = rewritten d computed_at c"
  by (simp add: rewrite_all_def rewrite_defs rewritten_def)

lemma dau_metrics_rewritten:
  "dau_metrics d computed_at (filter (\<lambda>r. dau_date r \<noteq> d) t @ dau_rows d computed_at es) =
     [plain_metric computed_at ''DAU'' (of_nat (uniq_exact (map er_user_id (events_of d es))))]"
  unfolding dau_metrics_def
  by (subst final_rewritten [where date_of = dau_date]) (simp_all add: rows_of_date, simp_all add: dau_rows_def)

lemma avg_metrics_rewritten:
  "avg_metrics d computed_at (filter (\<lambda>r. avg_date r \<noteq> d) t @ avg_rows d computed_at es) =
     [plain_metric computed_at ''AVG_WATCH_SECONDS'' (avg_watch_seconds (events_of d es))]"
  unfolding avg_metrics_def
  by (subst final_rewritten [where date_of = avg_date]) (simp_all add: rows_of_date, simp_all add: avg_rows_def)

lemma conv_metrics_rewritten:
  "conv_metrics d computed_at (filter (\<lambda>r. conv_date r \<noteq> d) t @ conv_rows d computed_at es) =
     (let started = count_type ''VIEW_STARTED'' (events_of d es); finished = count_type ''VIEW_FINISHED'' (events_of d es) in
      [plain_metric computed_at ''VIEW_STARTED'' (of_nat started), plain_metric computed_at ''VIEW_FINISHED'' (of_nat finished),
       plain_metric computed_at ''CONVERSION_RATE'' (if started = 0 then 0 else ratio finished started)])"
  unfolding conv_metrics_def
  by (subst final_rewritten [where date_of = conv_date]) (simp_all add: rows_of_date, simp_all add: conv_rows_def Let_def)

lemma ret_metrics_rewritten:
  "ret_metrics d computed_at (filter (\<lambda>r. ret_date r \<noteq> d) t @ ret_rows d computed_at es) =
     [plain_metric computed_at ''RETENTION_D1'' (retention d 1 es), plain_metric computed_at ''RETENTION_D7'' (retention d 7 es)]"
  unfolding ret_metrics_def
  by (subst final_rewritten [where date_of = ret_date]) (simp_all add: rows_of_date, simp_all add: ret_rows_def)

lemma top_metrics_rewritten:
  "top_metrics d computed_at (filter (\<lambda>r. top_date r \<noteq> d) t @ top_rows d computed_at es) =
     map (\<lambda>(rank, m). \<lparr>metric_name = ''TOP_MOVIE_VIEWS'', dimension_key = Some ''movie_id'', dimension_value = Some m,
            metric_value = of_nat (movie_views (events_of d es) m),
            metadata = Some [(''rank'', MetaInt (int rank)), (''computed_at'', MetaTime computed_at)]\<rparr>)
       (filter (\<lambda>(rank, m). rank \<le> 10) (ranked_movies (events_of d es)))"
proof -
  have "filter (\<lambda>r. top_date r = d) (final (\<lambda>r. (top_date r, top_rank r, top_movie r)) top_at
      (filter (\<lambda>r. top_date r \<noteq> d) t @ top_rows d computed_at es)) = top_rows d computed_at es"
    by (rule final_rewritten) (simp_all only: prod.inject top_rows_distinct, rule rows_of_date)
  then show ?thesis
    by (simp add: top_metrics_def sorted_top_rows) (auto simp: top_rows_def)
qed

lemma dev_metrics_rewritten:
  "dev_metrics d computed_at (filter (\<lambda>r. dev_date r \<noteq> d) t @ dev_rows d computed_at es) =
     map (\<lambda>t. \<lparr>metric_name = ''DEVICE_EVENTS'', dimension_key = Some ''device_type'', dimension_value = Some t,
            metric_value = of_nat (length (filter (\<lambda>e. er_device_type e = t) (events_of d es))),
            metadata = Some [(''computed_at'', MetaTime computed_at)]\<rparr>)
       (sort (remdups (map er_device_type (events_of d es))))"
proof -
  have "filter (\<lambda>r. dev_date r = d) (final (\<lambda>r. (dev_date r, dev_type r)) dev_at
      (filter (\<lambda>r. dev_date r \<noteq> d) t @ dev_rows d computed_at es)) = dev_rows d computed_at es"
    by (rule final_rewritten) (simp_all only: prod.inject dev_rows_distinct, rule rows_of_date)
  then show ?thesis
    by (simp add: dev_metrics_def sorted_dev_rows)
qed

text \<open>The payload is a function of the events alone.\<close>

definition daily_payload :: "date \<Rightarrow> instant \<Rightarrow> event_row list \<Rightarrow> metric list" where
  "daily_payload d computed_at es =
     (let day = events_of d es; started = count_type ''VIEW_STARTED'' day; finished = count_type ''VIEW_FINISHED'' day in
      [plain_metric computed_at ''DAU'' (of_nat (uniq_exact (map er_user_id day))),
       plain_metric computed_at ''AVG_WATCH_SECONDS'' (avg_watch_seconds day),
       plain_metric computed_at ''VIEW_STARTED'' (of_nat started),
       plain_metric computed_at ''VIEW_FINISHED'' (of_nat finished),
       plain_metric computed_at ''CONVERSION_RATE'' (if started = 0 then 0 else ratio finished started),
       plain_metric computed_at ''RETENTION_D1'' (retention d 1 es),
       plain_metric computed_at ''RETENTION_D7'' (retention d 7 es)] @
      map (\<lambda>(rank, m). \<lparr>metric_name = ''TOP_MOVIE_VIEWS'', dimension_key = Some ''movie_id'', dimension_value = Some m,
             metric_value = of_nat (movie_views day m),
             metadata = Some [(''rank'', MetaInt (int rank)), (''computed_at'', MetaTime computed_at)]\<rparr>)
        (filter (\<lambda>(rank, m). rank \<le> 10) (ranked_movies day)) @
      map (\<lambda>t. \<lparr>metric_name = ''DEVICE_EVENTS'', dimension_key = Some ''device_type'', dimension_value = Some t,
             metric_value = of_nat (length (filter (\<lambda>e. er_device_type e = t) day)),
             metadata = Some [(''computed_at'', MetaTime computed_at)]\<rparr>)
        (sort (remdups (map er_device_type day))))"

lemmas metrics_rewritten = dau_metrics_rewritten avg_metrics_rewritten conv_metrics_rewritten ret_metrics_rewritten
  top_metrics_rewritten dev_metrics_rewritten

lemma payload_after_rewriting:
  "build_metric_payload d computed_at (rewritten d computed_at c) = daily_payload d computed_at (movie_events c)"
  by (simp add: build_metric_payload_def rewritten_def metrics_rewritten daily_payload_def Let_def)

section \<open>The ranking of the movies\<close>

lemma filter_enumerate: "filter (\<lambda>(i, x). i \<le> k) (List.enumerate n xs) = List.enumerate n (take (Suc k - n) xs)"
proof (induction xs arbitrary: n)
  case (Cons x xs)
  have none: "List.enumerate (Suc n) (take (Suc k - Suc n) xs) = []" if "\<not> n \<le> k" using that by simp
  show ?case
    using Cons.IH [of "Suc n"] none by (cases "n \<le> k") (simp_all add: Suc_diff_le)
qed simp

definition movie_order :: "event_row list \<Rightarrow> string list" where
  "movie_order es = sort_key (\<lambda>m. (- int (movie_views es m), m)) (remdups (map er_movie_id es))"

text \<open>More views come first, of equal views the smaller identifier.\<close>

definition ranks_before :: "event_row list \<Rightarrow> string \<Rightarrow> string \<Rightarrow> bool" where
  "ranks_before es m m' \<longleftrightarrow>
     movie_views es m' < movie_views es m \<or> movie_views es m = movie_views es m' \<and> m < m'"

lemma movie_order_sorted: "sorted_wrt (ranks_before es) (movie_order es)"
proof -
  let ?f = "\<lambda>m. (- int (movie_views es m), m)"
  have "sorted (map ?f (movie_order es))"
    unfolding movie_order_def by (rule sorted_sort_key)
  moreover have "distinct (map ?f (movie_order es))"
    by (simp add: movie_order_def distinct_map inj_on_def)
  ultimately have "sorted_wrt (<) (map ?f (movie_order es))"
    by (simp add: strict_sorted_iff)
  then show ?thesis
    unfolding sorted_wrt_map by (rule sorted_wrt_mono_rel [rotated]) (auto simp: ranks_before_def less_prod_def)
qed

lemma top_rows_order:
  "top_rows d computed_at es =
     map (\<lambda>(rank, m). \<lparr>top_date = d, top_movie = m, top_views = movie_views (events_of d es) m, top_rank = rank, top_at = computed_at\<rparr>)
       (List.enumerate 1 (take 10 (movie_order (events_of d es))))"
  by (simp add: top_rows_def ranked_movies_def movie_order_def filter_enumerate)

lemma top_rows_movies: "map top_movie (top_rows d computed_at es) = take 10 (movie_order (events_of d es))"
proof -
  have "map top_movie (top_rows d computed_at es) = map snd (List.enumerate 1 (take 10 (movie_order (events_of d es))))"
    unfolding top_rows_order map_map by (rule map_cong) auto
  then show ?thesis by simp
qed

text \<open>
  C37: The top table of a date has the first ten, or all if they are fewer, of the movies with an event
  on that date, numbered from 1, each with its finished views, the most viewed first and equal ones by
  their identifier; a movie that is left out ranks behind all ten that are listed.
\<close>

theorem top_movies_ranked:
  "(let R = top_rows d computed_at es; day = events_of d es; movies = er_movie_id ` set day in
    map top_rank R = [1..<Suc (min 10 (card movies))] \<and>
    sorted_wrt (\<lambda>r s. ranks_before day (top_movie r) (top_movie s)) R \<and>
    (\<forall>r\<in>set R. top_movie r \<in> movies \<and> top_views r = movie_views day (top_movie r)) \<and>
    (\<forall>m\<in>movies. m \<notin> top_movie ` set R \<longrightarrow> length R = 10 \<and> (\<forall>r\<in>set R. ranks_before day (top_movie r) m)))"
proof -
  let ?R = "top_rows d computed_at es" and ?day = "events_of d es"
  let ?ms = "movie_order ?day"
  have set_ms: "set ?ms = er_movie_id ` set ?day" and len: "length ?ms = card (er_movie_id ` set ?day)"
    by (simp_all add: movie_order_def length_remdups_card_conv)
  have "map top_rank ?R = map fst (List.enumerate 1 (take 10 ?ms))"
    unfolding top_rows_order map_map by (rule map_cong) auto
  then have ranks: "map top_rank ?R = [1..<Suc (min 10 (card (er_movie_id ` set ?day)))]"
    unfolding map_fst_enumerate length_take len by (simp only: min.commute plus_1_eq_Suc)
  have split: "sorted_wrt (ranks_before ?day) (take 10 ?ms @ drop 10 ?ms)"
    by (simp only: append_take_drop_id movie_order_sorted)
  then have sorted: "sorted_wrt (\<lambda>r s. ranks_before ?day (top_movie r) (top_movie s)) ?R"
    unfolding sorted_wrt_map [symmetric] by (simp only: top_rows_movies sorted_wrt_append)
  have rows: "top_movie r \<in> er_movie_id ` set ?day \<and> top_views r = movie_views ?day (top_movie r)" if "r \<in> set ?R" for r
  proof
    have "top_movie r \<in> set (map top_movie ?R)" using that by simp
    then show "top_movie r \<in> er_movie_id ` set ?day"
      unfolding top_rows_movies set_ms [symmetric] by (rule in_set_takeD)
    show "top_views r = movie_views ?day (top_movie r)" using that by (auto simp: top_rows_def)
  qed
  have rest: "length ?R = 10 \<and> (\<forall>r\<in>set ?R. ranks_before ?day (top_movie r) m)"
    if "m \<in> er_movie_id ` set ?day" "m \<notin> top_movie ` set ?R" for m
  proof -
    have "m \<notin> set (take 10 ?ms)" using that(2) unfolding top_rows_movies [of d computed_at es, symmetric] by simp
    moreover have "m \<in> set (take 10 ?ms @ drop 10 ?ms)" using that(1) by (simp only: append_take_drop_id set_ms)
    ultimately have dropped: "m \<in> set (drop 10 ?ms)" unfolding set_append by blast
    then have "10 < length ?ms" by (cases "10 < length ?ms") simp_all
    then have "length (map top_movie ?R) = 10" unfolding top_rows_movies by simp
    moreover have "ranks_before ?day (top_movie r) m" if "r \<in> set ?R" for r
    proof -
      have "top_movie r \<in> set (take 10 ?ms)" unfolding top_rows_movies [of d computed_at es, symmetric] using that by simp
      with split dropped show ?thesis by (simp only: sorted_wrt_append)
    qed
    ultimately show ?thesis by simp
  qed
  show ?thesis unfolding Let_def using ranks sorted rows rest by blast
qed

definition sample_event_row :: "date \<Rightarrow> string \<Rightarrow> string \<Rightarrow> string \<Rightarrow> event_row" where
  "sample_event_row d user movie t =
     \<lparr>er_date = d, er_event_id = ''e'', er_user_id = user, er_movie_id = movie, er_event_type = t, er_timestamp = d * 86400000,
      er_device_type = ''TV'', er_session_id = ''s'', er_progress_seconds = Some 60, er_search_query = None, er_schema_version = 1\<rparr>"

definition sample_events :: "event_row list" where
  "sample_events =
     [sample_event_row 9 ''ann'' ''m1'' ''VIEW_STARTED'', sample_event_row 9 ''bob'' ''m2'' ''VIEW_FINISHED'',
      sample_event_row 10 ''ann'' ''m1'' ''VIEW_FINISHED'', sample_event_row 266 ''bob'' ''m1'' ''VIEW_STARTED'']"

theorem top_movies_ranked_witness:
  "\<exists>r\<in>set (top_rows 9 0 sample_events). top_movie r = ''m2'' \<and> top_rank r = 1 \<and> top_views r = 1"
proof -
  have "map (\<lambda>r. (top_movie r, top_rank r)) (top_rows 9 0 sample_events) = [(''m2'', 1), (''m1'', 2)]"
    by code_simp
  then obtain r where r: "r \<in> set (top_rows 9 0 sample_events)" "top_movie r = ''m2''" "top_rank r = 1"
    by (fastforce simp: map_eq_Cons_conv)
  moreover have "top_views r = movie_views (events_of 9 sample_events) (top_movie r)"
    using top_movies_ranked [of 9 0 sample_events] r(1) unfolding Let_def by blast
  moreover have "movie_views (events_of 9 sample_events) ''m2'' = 1" by code_simp
  ultimately show ?thesis by auto
qed

section \<open>Bounds of the rates\<close>

lemma ratio_unit: "n \<le> m \<Longrightarrow> 0 \<le> ratio n m \<and> ratio n m \<le> 1"
  unfolding ratio_def by (cases "m = 0") (auto intro!: double_nonneg double_le_1 simp: divide_le_eq)

lemma ratio_self: "0 < n \<Longrightarrow> ratio n n = 1"
  by (simp add: ratio_def)

lemma ratio_nonneg: "0 \<le> ratio n m"
  by (simp add: ratio_def double_nonneg)

lemma retention_unit: "0 \<le> retention d k es \<and> retention d k es \<le> 1"
  by (simp add: retention_def ratio_unit)

lemma first_watch_users: "map fst (first_watch es) = remdups (map er_user_id (watch_events es))"
  by (simp add: first_watch_def o_def)

lemma cohort_distinct: "distinct (cohort d es)"
proof -
  have "distinct (map fst (first_watch es))" by (simp add: first_watch_users)
  then show ?thesis
    unfolding cohort_def by (auto simp: distinct_map intro: inj_on_subset)
qed

lemma lifecycle_users_le: "lifecycle_users d es k \<le> length (cohort d es)"
proof -
  have "set (map fst (filter (\<lambda>(u, n). n = k) (lifecycle_days d es))) \<subseteq> set (cohort d es)"
    by (auto simp: lifecycle_days_def)
  then have "card (set (map fst (filter (\<lambda>(u, n). n = k) (lifecycle_days d es)))) \<le> card (set (cohort d es))"
    by (rule card_mono [rotated]) simp
  then show ?thesis
    by (simp add: lifecycle_users_def uniq_exact_def length_remdups_card_conv distinct_card [OF cohort_distinct])
qed

text \<open>A user of the cohort has a watch event on its first day.\<close>

lemma cohort_first_event:
  assumes "u \<in> set (cohort d es)"
  shows "\<exists>e\<in>set (watch_events es). er_user_id e = u \<and> to_date (er_timestamp e) = d"
proof -
  let ?ts = "map (\<lambda>e. to_date (er_timestamp e)) (filter (\<lambda>e. er_user_id e = u) (watch_events es))"
  have u: "u \<in> er_user_id ` set (watch_events es)" and d: "min_list ?ts = d"
    using assms by (auto simp: cohort_def first_watch_def)
  then have "?ts \<noteq> []" by (auto simp: filter_empty_conv)
  then have "min_list ?ts = Min (set ?ts)" by (rule min_list_Min)
  moreover have "Min (set ?ts) \<in> set ?ts"
    using \<open>?ts \<noteq> []\<close> by (intro Min_in finite_set) (simp only: set_empty not_False_eq_True)
  ultimately have "d \<in> set ?ts" using d by (simp only:)
  then show ?thesis by auto
qed

lemma first_day_complete:
  assumes "\<forall>e\<in>set es. er_date e = to_date (er_timestamp e)" and "cohort d es \<noteq> []"
  shows "0 \<in> set (lifecycle_groups d es)" and "lifecycle_users d es 0 = length (cohort d es)"
proof -
  have day0: "(u, 0) \<in> set (lifecycle_days d es)" if u: "u \<in> set (cohort d es)" for u
  proof -
    obtain e where e: "e \<in> set (watch_events es)" "er_user_id e = u" "to_date (er_timestamp e) = d"
      using cohort_first_event [OF u] by blast
    then have "er_date e = d" using assms(1) by (auto simp: watch_events_def)
    with e u show ?thesis by (force simp: lifecycle_days_def to_uint8_def)
  qed
  obtain u where "u \<in> set (cohort d es)" using assms(2) by (cases "cohort d es") auto
  from day0 [OF this] show "0 \<in> set (lifecycle_groups d es)" by (force simp: lifecycle_groups_def)
  have "set (map fst (filter (\<lambda>(u, n). n = 0) (lifecycle_days d es))) = set (cohort d es)"
    using day0 by (force simp: lifecycle_days_def)
  then show "lifecycle_users d es 0 = length (cohort d es)"
    by (simp only: lifecycle_users_def uniq_exact_def length_remdups_card_conv distinct_card [OF cohort_distinct])
qed

text \<open>The rows of the materialized view have the date of their time stamp, so the property below is about them.\<close>

lemma ingested_dates: "\<forall>e\<in>set (map event_row_of evs). er_date e = to_date (er_timestamp e)"
  by (simp add: event_row_of_def Let_def)

text \<open>
  C38: The stored rates are rates. Active users are no more than the events; a retention is between 0
  and 1; in a cohort the days are from 0 to 7, the users no more than the size, the rate between 0 and 1.
  Where the dates of the events are those of their time stamps, a cohort with users has a row for day 0,
  with all of them and the rate 1. The conversion is not negative, and 0 when nothing was started.
\<close>

theorem rates_bounded:
  assumes "\<forall>e\<in>set es. er_date e = to_date (er_timestamp e)"
  shows "list_all (\<lambda>r. dau_users r \<le> length (events_of d es)) (dau_rows d computed_at es) \<and>
    list_all (\<lambda>r. 0 \<le> conv_rate r \<and> (conv_started r = 0 \<longrightarrow> conv_rate r = 0)) (conv_rows d computed_at es) \<and>
    list_all (\<lambda>r. 0 \<le> ret_d1 r \<and> ret_d1 r \<le> 1 \<and> 0 \<le> ret_d7 r \<and> ret_d7 r \<le> 1) (ret_rows d computed_at es) \<and>
    list_all (\<lambda>r. 0 \<le> coh_day r \<and> coh_day r \<le> 7 \<and> coh_users r \<le> coh_size r \<and> 0 \<le> coh_rate r \<and> coh_rate r \<le> 1)
      (coh_rows d computed_at es) \<and>
    (cohort d es = [] \<or>
     list_ex (\<lambda>r. coh_day r = 0 \<and> coh_users r = coh_size r \<and> coh_size r = length (cohort d es) \<and> coh_rate r = 1)
       (coh_rows d computed_at es))"
proof (intro conjI)
  show "list_all (\<lambda>r. dau_users r \<le> length (events_of d es)) (dau_rows d computed_at es)"
    using length_remdups_leq [of "map er_user_id (events_of d es)"] by (simp add: dau_rows_def uniq_exact_def)
  show "list_all (\<lambda>r. 0 \<le> conv_rate r \<and> (conv_started r = 0 \<longrightarrow> conv_rate r = 0)) (conv_rows d computed_at es)"
    by (simp add: conv_rows_def Let_def ratio_nonneg)
  show "list_all (\<lambda>r. 0 \<le> ret_d1 r \<and> ret_d1 r \<le> 1 \<and> 0 \<le> ret_d7 r \<and> ret_d7 r \<le> 1) (ret_rows d computed_at es)"
    by (simp add: ret_rows_def retention_unit)
  show "list_all (\<lambda>r. 0 \<le> coh_day r \<and> coh_day r \<le> 7 \<and> coh_users r \<le> coh_size r \<and> 0 \<le> coh_rate r \<and> coh_rate r \<le> 1)
      (coh_rows d computed_at es)"
    using ratio_unit [OF lifecycle_users_le] lifecycle_users_le
    by (auto simp: coh_rows_def list_all_iff lifecycle_groups_def)
  show "cohort d es = [] \<or>
     list_ex (\<lambda>r. coh_day r = 0 \<and> coh_users r = coh_size r \<and> coh_size r = length (cohort d es) \<and> coh_rate r = 1)
       (coh_rows d computed_at es)"
    using first_day_complete [OF assms, of d] by (auto simp: coh_rows_def list_ex_iff ratio_self)
qed

theorem rates_bounded_witness:
  "list_ex (\<lambda>r. coh_day r = 0 \<and> coh_users r = 2 \<and> coh_rate r = 1) (coh_rows 9 0 sample_events)"
proof -
  have "\<forall>e\<in>set sample_events. er_date e = to_date (er_timestamp e)" by code_simp
  from rates_bounded [OF this, of 9 0] have
    "cohort 9 sample_events = [] \<or>
     list_ex (\<lambda>r. coh_day r = 0 \<and> coh_users r = coh_size r \<and> coh_size r = length (cohort 9 sample_events) \<and> coh_rate r = 1)
       (coh_rows 9 0 sample_events)"
    by blast
  moreover have "length (cohort 9 sample_events) = 2" by code_simp
  ultimately show ?thesis by (auto simp: list_ex_iff)
qed

text \<open>
  Day 257 of a user is stored as day 1 of the cohort: the bound of the week is tested on the day modulo
  256.
\<close>

lemma lifecycle_day_wraps:
  "map (\<lambda>r. (coh_day r, coh_users r)) (coh_rows 9 0 sample_events) = [(0, 2), (1, 2)]"
  by code_simp

text \<open>A date without watch events retains nobody.\<close>

lemma retention_nobody:
  assumes "\<forall>e\<in>set es. er_date e \<noteq> d + k" and "d + k \<noteq> 0"
  shows "retention d k es = 0"
proof -
  have "d + k \<notin> set (joined_dates d es u)" for u
    using assms by (auto simp: joined_dates_def Let_def watch_events_def)
  then show ?thesis by (simp add: retention_def ratio_def)
qed

end
