(* ===== verification/Retention_Facts.thy ===== *)
theory Retention_Facts
  imports Aggregation_Facts
begin

text \<open>
  What the retention that aggregation.py computes with joins and groups is, said with sets of users: those
  who watched on a date, and the newcomers of a date, who watched on it and on none before. The two tables
  with retention, computed by different queries, agree.
\<close>

section \<open>Users who watch\<close>

definition watched_on :: "event_row list \<Rightarrow> date \<Rightarrow> string set" where
  "watched_on es d = {u. \<exists>e\<in>set es. er_event_type e \<in> set watch_types \<and> er_user_id e = u \<and> er_date e = d}"

definition newcomers :: "event_row list \<Rightarrow> date \<Rightarrow> string set" where
  "newcomers es d = {u \<in> watched_on es d. \<forall>d'<d. u \<notin> watched_on es d'}"

lemma watched_on_watch_events: "u \<in> watched_on es d \<longleftrightarrow> (\<exists>e\<in>set (watch_events es). er_user_id e = u \<and> er_date e = d)"
  by (auto simp: watched_on_def watch_events_def)

lemma newcomers_finite [simp]: "finite (newcomers es d)"
proof (rule finite_subset)
  show "newcomers es d \<subseteq> er_user_id ` set es" by (auto simp: newcomers_def watched_on_def)
qed simp

section \<open>The cohort of a date\<close>

lemma first_watch_day:
  assumes "\<forall>e\<in>set es. er_date e = to_date (er_timestamp e)" and "(u, first) \<in> set (first_watch es)"
  shows "first = d \<longleftrightarrow> u \<in> newcomers es d"
proof -
  let ?ds = "map (\<lambda>e. to_date (er_timestamp e)) (filter (\<lambda>e. er_user_id e = u) (watch_events es))"
  have u: "u \<in> er_user_id ` set (watch_events es)" and first: "first = min_list ?ds"
    using assms(2) by (auto simp: first_watch_def)
  have ne: "?ds \<noteq> []" using u by (auto simp: filter_empty_conv)
  have days: "k \<in> set ?ds \<longleftrightarrow> u \<in> watched_on es k" for k
    using assms(1) by (auto simp: watched_on_watch_events watch_events_def)
  have "first = d \<longleftrightarrow> Min (set ?ds) = d" unfolding first using min_list_Min [OF ne] by simp
  also have "\<dots> \<longleftrightarrow> d \<in> set ?ds \<and> (\<forall>k\<in>set ?ds. d \<le> k)"
    by (rule Min_eq_iff) (use ne in \<open>simp_all only: set_empty finite_set not_False_eq_True\<close>)
  also have "\<dots> \<longleftrightarrow> u \<in> newcomers es d"
    unfolding newcomers_def mem_Collect_eq days [symmetric] by (metis linorder_not_less)
  finally show ?thesis .
qed

lemma cohort_newcomers:
  assumes "\<forall>e\<in>set es. er_date e = to_date (er_timestamp e)"
  shows "set (cohort d es) = newcomers es d" and "length (cohort d es) = card (newcomers es d)"
proof -
  have "u \<in> set (cohort d es) \<longleftrightarrow> u \<in> newcomers es d" for u
  proof
    assume "u \<in> set (cohort d es)"
    then have "(u, d) \<in> set (first_watch es)" by (auto simp: cohort_def)
    from first_watch_day [OF assms this] show "u \<in> newcomers es d" by blast
  next
    assume u: "u \<in> newcomers es d"
    then have "u \<in> set (map er_user_id (watch_events es))" by (auto simp: newcomers_def watched_on_watch_events)
    then have "u \<in> set (map fst (first_watch es))" by (simp add: first_watch_users)
    then obtain first where f: "(u, first) \<in> set (first_watch es)" by auto
    with first_watch_day [OF assms f] u show "u \<in> set (cohort d es)" by (force simp: cohort_def)
  qed
  then show set: "set (cohort d es) = newcomers es d" by blast
  show "length (cohort d es) = card (newcomers es d)"
    using distinct_card [OF cohort_distinct, of d es] set by simp
qed

section \<open>The two queries\<close>

text \<open>The default date of the left join, day 0, is not a day on which anybody returns.\<close>

lemma returned_iff:
  assumes "0 < d + k" and "k \<in> {1, 7}"
  shows "d + k \<in> set (joined_dates d es u) \<longleftrightarrow> u \<in> watched_on es (d + k)"
proof -
  let ?ds = "map er_date (filter (\<lambda>e. er_user_id e = u \<and> er_date e \<in> {d + 1, d + 7}) (watch_events es))"
  have "d + k \<in> set (joined_dates d es u) \<longleftrightarrow> d + k \<in> set ?ds"
    using assms(1) by (cases "?ds = []") (simp_all add: joined_dates_def Let_def del: map_is_Nil_conv set_map)
  also have "\<dots> \<longleftrightarrow> u \<in> watched_on es (d + k)"
    using assms(2) by (force simp: watched_on_watch_events)
  finally show ?thesis .
qed

lemma retention_share:
  assumes "\<forall>e\<in>set es. er_date e = to_date (er_timestamp e)" and "0 < d + k" and "k \<in> {1, 7}"
  shows "retention d k es =
    (if newcomers es d = {} then 0 else ratio (card (newcomers es d \<inter> watched_on es (d + k))) (card (newcomers es d)))"
proof -
  have "length (filter (\<lambda>u. d + k \<in> set (joined_dates d es u)) (cohort d es)) =
      card (set (filter (\<lambda>u. d + k \<in> set (joined_dates d es u)) (cohort d es)))"
    using distinct_card [OF distinct_filter [OF cohort_distinct]] by metis
  also have "set (filter (\<lambda>u. d + k \<in> set (joined_dates d es u)) (cohort d es)) = newcomers es d \<inter> watched_on es (d + k)"
    using returned_iff [OF assms(2,3)] cohort_newcomers(1) [OF assms(1)] by auto
  finally show ?thesis
    using cohort_newcomers [OF assms(1), of d] by (auto simp: retention_def)
qed

text \<open>
  The days of the life of a user count from the first one, modulo 256: a user is in the cell of day \<open>k\<close> who
  watched on it or 256 days after it, 512 days, and so on.
\<close>

definition returned :: "event_row list \<Rightarrow> date \<Rightarrow> int \<Rightarrow> string set" where
  "returned es d k = {u. \<exists>n::nat. u \<in> watched_on es (d + k + 256 * int n)}"

lemma to_uint8_eq:
  assumes "0 \<le> x" and "0 \<le> k" and "k < 256"
  shows "to_uint8 x = k \<longleftrightarrow> (\<exists>n::nat. x = k + 256 * int n)"
proof
  assume "to_uint8 x = k"
  then have "x = k + 256 * int (nat (x div 256))"
    using assms(1) mod_mult_div_eq [of x 256] by (simp add: to_uint8_def)
  then show "\<exists>n::nat. x = k + 256 * int n" ..
next
  assume "\<exists>n::nat. x = k + 256 * int n"
  then show "to_uint8 x = k" using assms(2,3) by (auto simp: to_uint8_def)
qed

lemma lifecycle_days_iff:
  assumes "\<forall>e\<in>set es. er_date e = to_date (er_timestamp e)" and "0 \<le> k" and "k < 256"
  shows "(u, k) \<in> set (lifecycle_days d es) \<longleftrightarrow> u \<in> newcomers es d \<inter> returned es d k"
proof -
  have day: "to_uint8 (er_date e - d) = k \<longleftrightarrow> (\<exists>n::nat. er_date e = d + k + 256 * int n)"
    if "e \<in> set (watch_events es)" "er_user_id e \<in> newcomers es d" for e
  proof -
    have "\<not> er_date e < d" using that by (auto simp: newcomers_def watched_on_watch_events)
    then have "0 \<le> er_date e - d" by simp
    from to_uint8_eq [OF this assms(2,3)] show ?thesis by (simp add: algebra_simps)
  qed
  have "(u, k) \<in> set (lifecycle_days d es) \<longleftrightarrow>
      (\<exists>e\<in>set (watch_events es). er_user_id e = u \<and> u \<in> newcomers es d \<and> to_uint8 (er_date e - d) = k)"
    by (auto simp: lifecycle_days_def cohort_newcomers(1) [OF assms(1)])
  also have "\<dots> \<longleftrightarrow> u \<in> newcomers es d \<inter> returned es d k"
    using day by (force simp: returned_def watched_on_watch_events)
  finally show ?thesis .
qed

lemma lifecycle_groups_days:
  assumes "\<forall>e\<in>set es. er_date e = to_date (er_timestamp e)"
  shows "lifecycle_groups d es = filter (\<lambda>k. newcomers es d \<inter> returned es d k \<noteq> {}) [0..7]"
proof (rule sorted_distinct_set_unique)
  have "k \<in> set (lifecycle_groups d es) \<longleftrightarrow> 0 \<le> k \<and> k \<le> 7 \<and> newcomers es d \<inter> returned es d k \<noteq> {}" for k
    using lifecycle_days_iff [OF assms, of k] by (force simp: lifecycle_groups_def)
  then show "set (lifecycle_groups d es) = set (filter (\<lambda>k. newcomers es d \<inter> returned es d k \<noteq> {}) [0..7])"
    by auto
qed (simp_all add: lifecycle_groups_def sorted_wrt_filter)

lemma lifecycle_users_card:
  assumes "\<forall>e\<in>set es. er_date e = to_date (er_timestamp e)" and "0 \<le> k" and "k < 256"
  shows "lifecycle_users d es k = card (newcomers es d \<inter> returned es d k)"
proof -
  have "set (map fst (filter (\<lambda>(u, n). n = k) (lifecycle_days d es))) = newcomers es d \<inter> returned es d k"
    using lifecycle_days_iff [OF assms] by force
  then show ?thesis by (simp only: lifecycle_users_def uniq_exact_def length_remdups_card_conv)
qed

text \<open>For newcomers who have not watched after 255 days, the cell of a day is that day.\<close>

lemma returned_early:
  assumes "\<forall>u\<in>newcomers es d. \<forall>d'\<ge>d + 256. u \<notin> watched_on es d'" and "0 \<le> k"
  shows "newcomers es d \<inter> returned es d k = newcomers es d \<inter> watched_on es (d + k)"
proof -
  have "n = 0" if "u \<in> newcomers es d" "u \<in> watched_on es (d + k + 256 * int n)" for u n
    using assms that by (cases n) (auto simp: algebra_simps)
  then show ?thesis by (force simp: returned_def intro: exI [of _ 0])
qed

text \<open>
  C24: The retention that is stored for a date is the share of its newcomers, the users who watched on it
  for the first time, who watched again one day and seven days later, 0 where there were none. The cohort
  of the date has a row for each day of the first week in whose cell there are some of them, with their number
  and their share; in the cell of a day are those who watched on that day or 256 days later, or 512, and so on,
  because the number of the day is cut to 8 bits. Where no newcomer has watched after 255 days, the cells
  are the days, and the two tables agree on the first and the seventh day. Quotients are doubles.
\<close>

theorem retention_exact:
  assumes "\<forall>e\<in>set es. er_date e = to_date (er_timestamp e)" and "0 \<le> d"
  shows "let share = (\<lambda>us. double (of_nat (card (newcomers es d \<inter> us)) / of_nat (card (newcomers es d))))
    in map (\<lambda>r. (ret_date r, ret_d1 r, ret_d7 r)) (ret_rows d computed_at es) =
         [(d, if newcomers es d = {} then 0 else share (watched_on es (d + 1)),
           if newcomers es d = {} then 0 else share (watched_on es (d + 7)))] \<and>
       map (\<lambda>r. (coh_day r, coh_users r, coh_size r, coh_rate r)) (coh_rows d computed_at es) =
         map (\<lambda>k. (k, card (newcomers es d \<inter> returned es d k), card (newcomers es d), share (returned es d k)))
           (filter (\<lambda>k. newcomers es d \<inter> returned es d k \<noteq> {}) [0..7]) \<and>
       ((\<forall>u\<in>newcomers es d. \<forall>d'\<ge>d + 256. u \<notin> watched_on es d') \<longrightarrow>
          (\<forall>k\<ge>0. newcomers es d \<inter> returned es d k = newcomers es d \<inter> watched_on es (d + k)) \<and>
          (\<forall>r\<in>set (coh_rows d computed_at es). \<forall>ret\<in>set (ret_rows d computed_at es).
             (coh_day r = 1 \<longrightarrow> coh_rate r = ret_d1 ret) \<and> (coh_day r = 7 \<longrightarrow> coh_rate r = ret_d7 ret)))"
proof -
  have share: "retention d k es = (if newcomers es d = {} then 0 else
      double (of_nat (card (newcomers es d \<inter> watched_on es (d + k))) / of_nat (card (newcomers es d))))" if "k \<in> {1, 7}" for k
  proof -
    have "0 < d + k" using assms(2) that by auto
    from retention_share [OF assms(1) this that] show ?thesis unfolding ratio_def .
  qed
  have users: "lifecycle_users d es k = card (newcomers es d \<inter> returned es d k)" if "k \<in> set (lifecycle_groups d es)" for k
    using lifecycle_users_card [OF assms(1)] that by (simp add: lifecycle_groups_def)
  have rows: "map (\<lambda>r. (coh_day r, coh_users r, coh_size r, coh_rate r)) (coh_rows d computed_at es) =
      map (\<lambda>k. (k, card (newcomers es d \<inter> returned es d k), card (newcomers es d),
        double (of_nat (card (newcomers es d \<inter> returned es d k)) / of_nat (card (newcomers es d)))))
      (filter (\<lambda>k. newcomers es d \<inter> returned es d k \<noteq> {}) [0..7])"
    unfolding lifecycle_groups_days [OF assms(1), symmetric]
    by (auto simp: coh_rows_def users cohort_newcomers(2) [OF assms(1)] ratio_def lifecycle_groups_days [OF assms(1)])
  have cell: "newcomers es d \<noteq> {} \<and> 0 \<le> coh_day r \<and>
      coh_rate r = double (of_nat (card (newcomers es d \<inter> returned es d (coh_day r))) / of_nat (card (newcomers es d)))"
    if "r \<in> set (coh_rows d computed_at es)" for r
  proof -
    have "(coh_day r, coh_users r, coh_size r, coh_rate r) \<in>
        set (map (\<lambda>r. (coh_day r, coh_users r, coh_size r, coh_rate r)) (coh_rows d computed_at es))"
      using that by (simp add: image_iff) blast
    then show ?thesis unfolding rows by auto
  qed
  have early: "newcomers es d \<inter> returned es d k = newcomers es d \<inter> watched_on es (d + k)"
    if "\<forall>u\<in>newcomers es d. \<forall>d'\<ge>d + 256. u \<notin> watched_on es d'" "0 \<le> k" for k
    using that by (rule returned_early)
  show ?thesis
    unfolding Let_def using rows cell early share [of 1] share [of 7] by (simp add: ret_rows_def)
qed

text \<open>
  The two newcomers of day 9 in the sample without the event that comes after 257 days: one of them is
  back on day 10.
\<close>

theorem retention_exact_witness:
  "map (\<lambda>r. (ret_date r, ret_d1 r, ret_d7 r)) (ret_rows 9 0 (take 3 sample_events)) = [(9, 1 / 2, 0)] \<and>
   newcomers (take 3 sample_events) 9 = {''ann'', ''bob''}"
proof -
  let ?es = "take 3 sample_events"
  have dates: "\<forall>e\<in>set ?es. er_date e = to_date (er_timestamp e)" by code_simp
  have new: "newcomers ?es 9 = {''ann'', ''bob''}"
  proof -
    have "set (cohort 9 ?es) = {''ann'', ''bob''}" by code_simp
    then show ?thesis using cohort_newcomers(1) [OF dates] by simp
  qed
  have "newcomers ?es 9 \<inter> watched_on ?es 10 = {''ann''}" "newcomers ?es 9 \<inter> watched_on ?es 16 = {}"
    unfolding new by (auto simp: watched_on_def sample_events_def sample_event_row_def watch_types_def)
  moreover have "double (1 / 2) = 1 / 2" by code_simp
  ultimately show ?thesis
    using retention_exact [OF dates, of 9 0] by (simp add: new Let_def)
qed

end
