(* ===== verification/Analytics.thy ===== *)
theory Analytics
  imports Aggregation_Facts
begin

text \<open>
  The aggregation service as a whole (dz_5/aggregation-service/app: aggregation.py, exporter.py,
  scheduler.py, main.py): the run that aggregates a date over ClickHouse and PostgreSQL, the
  export of a date to the object store, the two scheduled jobs and the two endpoints. Each call to
  another service has an outcome of its own, so that a run may stop after any of them.
\<close>

section \<open>State and parameters\<close>

record 'w analytics = "'w metrics_store" +
  clickhouse :: clickhouse_db
  objects :: "string \<Rightarrow> string option"

type_synonym analytics_part = "unit analytics_ext"

text \<open>A line of the exported frame; the line of an empty export has no time of computation.\<close>

record frame_row =
  fr_date :: string
  fr_name :: string
  fr_key :: string
  fr_value :: string
  fr_metric :: rat
  fr_computed_at :: "instant option"
  fr_metadata :: meta

record 'w services =
  postgres :: "('w, analytics_part) postgres"
  ch_command :: "'w \<Rightarrow> tx_outcome \<times> 'w"
  ch_query :: "'w \<Rightarrow> pipeline_error option \<times> 'w"
  s3_put :: "'w \<Rightarrow> tx_outcome \<times> 'w"
  export_retrying :: "nat \<Rightarrow> ('w analytics, string) action \<Rightarrow> ('w analytics, string) action"
  wall_clock :: "'w \<Rightarrow> instant"
  perf_counter :: "'w \<Rightarrow> rat"
  to_csv :: "frame_row list \<Rightarrow> string"

section \<open>Aggregating a date\<close>

definition run_command :: "'w services \<Rightarrow> command \<Rightarrow> ('w analytics, unit) action" where
  "run_command A f s =
     (case ch_command A (world s) of
        (Committed, w) \<Rightarrow> (Inr (), s\<lparr>clickhouse := f (clickhouse s), world := w\<rparr>)
      | (RolledBack e, w) \<Rightarrow> (Inl e, s\<lparr>world := w\<rparr>)
      | (AnswerLost e, w) \<Rightarrow> (Inl e, s\<lparr>clickhouse := f (clickhouse s), world := w\<rparr>))"

fun run_commands :: "'w services \<Rightarrow> command list \<Rightarrow> ('w analytics, unit) action" where
  "run_commands A [] s = (Inr (), s)"
| "run_commands A (f # fs) s =
     (case run_command A f s of
        (Inl e, s') \<Rightarrow> (Inl e, s')
      | (Inr _, s') \<Rightarrow> run_commands A fs s')"

definition run_query :: "'w services \<Rightarrow> (clickhouse_db \<Rightarrow> 'a) \<Rightarrow> ('w analytics, 'a) action" where
  "run_query A q s =
     (case ch_query A (world s) of
        (Some e, w) \<Rightarrow> (Inl e, s\<lparr>world := w\<rparr>)
      | (None, w) \<Rightarrow> (Inr (q (clickhouse s)), s\<lparr>world := w\<rparr>))"

definition count_raw_rows :: "'w services \<Rightarrow> date \<Rightarrow> ('w analytics, nat) action" where
  "count_raw_rows A d = run_query A (\<lambda>c. length (events_of d (movie_events c)))"

text \<open>The payload is collected by one query after the other.\<close>

fun collect_metrics :: "'w services \<Rightarrow> (clickhouse_db \<Rightarrow> metric list) list \<Rightarrow> ('w analytics, metric list) action" where
  "collect_metrics A [] s = (Inr [], s)"
| "collect_metrics A (q # qs) s =
     (case run_query A q s of
        (Inl e, s') \<Rightarrow> (Inl e, s')
      | (Inr ms, s') \<Rightarrow>
          (case collect_metrics A qs s' of
             (Inl e, s'') \<Rightarrow> (Inl e, s'')
           | (Inr rest, s'') \<Rightarrow> (Inr (ms @ rest), s'')))"

definition metric_queries :: "date \<Rightarrow> instant \<Rightarrow> (clickhouse_db \<Rightarrow> metric list) list" where
  "metric_queries d computed_at =
     [\<lambda>c. dau_metrics d computed_at (daily_dau c), \<lambda>c. avg_metrics d computed_at (daily_avg_watch_time c),
      \<lambda>c. conv_metrics d computed_at (daily_conversion c), \<lambda>c. ret_metrics d computed_at (daily_retention c),
      \<lambda>c. top_metrics d computed_at (daily_top_movies c), \<lambda>c. dev_metrics d computed_at (device_distribution c)]"

record aggregation_result =
  ar_metric_date :: date
  ar_processed_rows :: nat
  ar_duration_seconds :: rat
  ar_metrics_written :: nat

definition whole_second :: "instant \<Rightarrow> instant" where
  "whole_second t = t - t mod 1000000"

definition aggregate_for_date :: "'w services \<Rightarrow> date \<Rightarrow> ('w analytics, aggregation_result) action" where
  "aggregate_for_date A d s =
     (case count_raw_rows A d s of
        (Inl e, s1) \<Rightarrow> (Inl e, s1)
      | (Inr processed_rows, s1) \<Rightarrow>
          let computed_at = whole_second (wall_clock A (world s1)) in
          case run_commands A (rewrite_all d computed_at) s1 of
            (Inl e, s2) \<Rightarrow> (Inl e, s2)
          | (Inr _, s2) \<Rightarrow>
              (case collect_metrics A (metric_queries d computed_at) s2 of
                 (Inl e, s3) \<Rightarrow> (Inl e, s3)
               | (Inr metrics, s3) \<Rightarrow>
                   (case upsert_metrics (postgres A) d metrics s3 of
                      (Inl e, s4) \<Rightarrow> (Inl e, s4)
                    | (Inr _, s4) \<Rightarrow>
                        (Inr \<lparr>ar_metric_date = d, ar_processed_rows = processed_rows,
                              ar_duration_seconds = perf_counter A (world s4) - perf_counter A (world s),
                              ar_metrics_written = length metrics\<rparr>, s4))))"

section \<open>Exporting a date\<close>

text \<open>\<open>date.isoformat()\<close>, from the number of the day in the calendar of 400 years that begins in March.\<close>

definition civil_date :: "date \<Rightarrow> int \<times> int \<times> int" where
  "civil_date d =
     (let z = d + 719468;
          era = z div 146097;
          doe = z mod 146097;
          yoe = (doe - doe div 1460 + doe div 36524 - doe div 146096) div 365;
          doy = doe - (365 * yoe + yoe div 4 - yoe div 100);
          mp = (5 * doy + 2) div 153;
          day = doy - (153 * mp + 2) div 5 + 1;
          month = (if mp < 10 then mp + 3 else mp - 9)
      in (yoe + era * 400 + (if month \<le> 2 then 1 else 0), month, day))"

definition padded :: "nat \<Rightarrow> int \<Rightarrow> string" where
  "padded width n = (let t = str_int n in replicate (width - length t) (CHR ''0'') @ t)"

definition isoformat :: "date \<Rightarrow> string" where
  "isoformat d = (let (y, m, day) = civil_date d in padded 4 y @ ''-'' @ padded 2 m @ ''-'' @ padded 2 day)"

lemma isoformat_examples:
  "isoformat 0 = ''1970-01-01''" "isoformat 11016 = ''2000-02-29''" "isoformat 20564 = ''2026-04-21''"
  by code_simp+

definition frame_of_row :: "metric_row \<Rightarrow> frame_row" where
  "frame_of_row r =
     \<lparr>fr_date = isoformat (row_date r), fr_name = row_name r, fr_key = row_key r, fr_value = row_value r,
      fr_metric = row_metric r, fr_computed_at = Some (row_computed_at r), fr_metadata = row_metadata r\<rparr>"

definition no_data_row :: "date \<Rightarrow> frame_row" where
  "no_data_row d =
     \<lparr>fr_date = isoformat d, fr_name = ''NO_DATA'', fr_key = [], fr_value = [], fr_metric = 0, fr_computed_at = None,
      fr_metadata = []\<rparr>"

definition export_frame :: "date \<Rightarrow> metric_row list \<Rightarrow> frame_row list" where
  "export_frame d rows = (if rows = [] then [no_data_row d] else map frame_of_row rows)"

definition export_key :: "date \<Rightarrow> string" where
  "export_key d = ''daily/'' @ isoformat d @ ''/aggregates.csv''"

definition export_once :: "'w services \<Rightarrow> date \<Rightarrow> ('w analytics, string) action" where
  "export_once A d s =
     (case fetch_metrics_for_export (postgres A) d s of
        (Inl e, s1) \<Rightarrow> (Inl e, s1)
      | (Inr rows, s1) \<Rightarrow>
          let body = to_csv A (export_frame d rows) in
          case s3_put A (world s1) of
            (Committed, w) \<Rightarrow> (Inr (export_key d), s1\<lparr>objects := (objects s1)(export_key d \<mapsto> body), world := w\<rparr>)
          | (RolledBack e, w) \<Rightarrow> (Inl e, s1\<lparr>world := w\<rparr>)
          | (AnswerLost e, w) \<Rightarrow> (Inl e, s1\<lparr>objects := (objects s1)(export_key d \<mapsto> body), world := w\<rparr>))"

definition export_for_date :: "'w services \<Rightarrow> date \<Rightarrow> ('w analytics, string) action" where
  "export_for_date A d = export_retrying A 5 (export_once A d)"

section \<open>Jobs and endpoints\<close>

definition yesterday :: "instant \<Rightarrow> date" where
  "yesterday now = (now - days 1) div days 1"

datatype job = AggregateLatest | ExportLatest

fun run_job :: "'w services \<Rightarrow> job \<Rightarrow> ('w analytics, unit) action" where
  "run_job A AggregateLatest s =
     (case aggregate_for_date A (yesterday (wall_clock A (world s))) s of
        (Inl e, s') \<Rightarrow> (Inl e, s') | (Inr _, s') \<Rightarrow> (Inr (), s'))"
| "run_job A ExportLatest s =
     (case export_for_date A (yesterday (wall_clock A (world s))) s of
        (Inl e, s') \<Rightarrow> (Inl e, s') | (Inr _, s') \<Rightarrow> (Inr (), s'))"

text \<open>The jobs by identifier, with the minutes between two runs.\<close>

definition build_scheduler :: "int \<Rightarrow> int \<Rightarrow> (string \<times> int \<times> job) list" where
  "build_scheduler aggregation_interval_minutes export_interval_minutes =
     [(''aggregate-latest'', aggregation_interval_minutes, AggregateLatest),
      (''export-latest'', export_interval_minutes, ExportLatest)]"

record job_response =
  jr_status :: string
  jr_metric_date :: date
  jr_processed_rows :: "nat option"
  jr_duration_seconds :: "rat option"
  jr_metrics_written :: "nat option"
  jr_s3_key :: "string option"

definition target_or_yesterday :: "'w services \<Rightarrow> date option \<Rightarrow> 'w analytics \<Rightarrow> date" where
  "target_or_yesterday A target_date s =
     (case target_date of Some d \<Rightarrow> d | None \<Rightarrow> yesterday (wall_clock A (world s)))"

definition aggregate :: "'w services \<Rightarrow> date option \<Rightarrow> ('w analytics, job_response) action" where
  "aggregate A target_date s =
     (case aggregate_for_date A (target_or_yesterday A target_date s) s of
        (Inl e, s') \<Rightarrow> (Inl e, s')
      | (Inr res, s') \<Rightarrow>
          (Inr \<lparr>jr_status = ''ok'', jr_metric_date = ar_metric_date res, jr_processed_rows = Some (ar_processed_rows res),
                jr_duration_seconds = Some (ar_duration_seconds res), jr_metrics_written = Some (ar_metrics_written res),
                jr_s3_key = None\<rparr>, s'))"

definition export :: "'w services \<Rightarrow> date option \<Rightarrow> ('w analytics, job_response) action" where
  "export A target_date s =
     (let target = target_or_yesterday A target_date s in
      case export_for_date A target s of
        (Inl e, s') \<Rightarrow> (Inl e, s')
      | (Inr s3_key, s') \<Rightarrow>
          (Inr \<lparr>jr_status = ''ok'', jr_metric_date = target, jr_processed_rows = None, jr_duration_seconds = None,
                jr_metrics_written = None, jr_s3_key = Some s3_key\<rparr>, s'))"

end
