(* ===== verification/Analytics_Properties.thy ===== *)
theory Analytics_Properties
  imports Analytics
begin

text \<open>
  Properties of the aggregation service: what a run leaves when it stops anywhere and what the next run
  makes of it, what an export writes, and what the scheduled job can know of retention.
\<close>

section \<open>Runs of commands and queries\<close>

lemma run_command_frame:
  assumes "run_command A f s = (r, s')"
  shows "daily_metrics s' = daily_metrics s \<and> objects s' = objects s \<and>
    (clickhouse s' = f (clickhouse s) \<or> isl r \<and> clickhouse s' = clickhouse s)"
  using assms by (auto simp: run_command_def split: prod.splits tx_outcome.splits)

lemma run_commands_frame:
  assumes "run_commands A fs s = (r, s')"
  shows "daily_metrics s' = daily_metrics s \<and> objects s' = objects s \<and>
    (isl r \<or> clickhouse s' = fold (\<lambda>f c. f c) fs (clickhouse s))"
  using assms
proof (induction fs arbitrary: s)
  case (Cons f fs)
  obtain r1 s1 where f: "run_command A f s = (r1, s1)" by force
  show ?case
  proof (cases r1)
    case (Inl e)
    with f Cons.prems run_command_frame [OF f] show ?thesis by auto
  next
    case (Inr u)
    with f Cons.prems have "run_commands A fs s1 = (r, s')" by simp
    from Cons.IH [OF this] run_command_frame [OF f] Inr show ?thesis by auto
  qed
qed simp

lemma run_commands_keep:
  assumes "run_commands A fs s = (r, s')" and "\<And>f c. f \<in> set fs \<Longrightarrow> v (f c) = v c"
  shows "v (clickhouse s') = v (clickhouse s)"
  using assms
proof (induction fs arbitrary: s)
  case (Cons f fs)
  obtain r1 s1 where f: "run_command A f s = (r1, s1)" by force
  have "v (clickhouse s1) = v (clickhouse s)"
    using run_command_frame [OF f] Cons.prems(2) [of f] by auto
  with f Cons show ?case by (cases r1) auto
qed simp

lemma run_query_frame:
  assumes "run_query A q s = (r, s')"
  shows "daily_metrics s' = daily_metrics s \<and> objects s' = objects s \<and> clickhouse s' = clickhouse s \<and>
    (isl r \<or> r = Inr (q (clickhouse s)))"
  using assms by (auto simp: run_query_def split: prod.splits option.splits)

lemma collect_metrics_frame:
  assumes "collect_metrics A qs s = (r, s')"
  shows "daily_metrics s' = daily_metrics s \<and> objects s' = objects s \<and> clickhouse s' = clickhouse s \<and>
    (isl r \<or> r = Inr (concat (map (\<lambda>q. q (clickhouse s)) qs)))"
  using assms
proof (induction qs arbitrary: s r s')
  case (Cons q qs)
  obtain r1 s1 where q: "run_query A q s = (r1, s1)" by force
  obtain r2 s2 where qs: "collect_metrics A qs s1 = (r2, s2)" by force
  from run_query_frame [OF q] Cons.IH [OF qs] Cons.prems q qs show ?case
    by (cases r1; cases r2) auto
qed simp

lemma metric_queries_payload:
  "concat (map (\<lambda>q. q c) (metric_queries d computed_at)) = build_metric_payload d computed_at c"
  by (simp add: metric_queries_def build_metric_payload_def)

lemma upsert_once_frame:
  fixes s :: "'w analytics"
  shows "clickhouse (snd (upsert_once P d payload s)) = clickhouse s \<and> objects (snd (upsert_once P d payload s)) = objects s"
  by (auto simp: upsert_once_def Let_def split: prod.splits tx_outcome.splits)

lemma upsert_metrics_frame:
  fixes s :: "'w analytics"
  assumes "tenacity (pg_retrying P)" and "upsert_metrics P d payload s = (r, s')"
  shows "clickhouse s' = clickhouse s \<and> objects s' = objects s"
proof -
  have "clickhouse (snd (pg_retrying P 5 (upsert_once P d payload) s)) = clickhouse s \<and>
      objects (snd (pg_retrying P 5 (upsert_once P d payload) s)) = objects s"
    by (rule tenacity.invariant [OF assms(1), where I = "\<lambda>q. clickhouse q = clickhouse s \<and> objects q = objects s"])
      (simp_all add: upsert_once_frame)
  with assms(2) show ?thesis by (simp add: upsert_metrics_def)
qed

section \<open>Aggregating again\<close>

text \<open>What all the rewritings of a date leave alone: the events and the rows of the other dates.\<close>

definition others :: "date \<Rightarrow> clickhouse_db \<Rightarrow> clickhouse_db" where
  "others d c =
     c\<lparr>daily_dau := filter (\<lambda>r. dau_date r \<noteq> d) (daily_dau c),
       daily_avg_watch_time := filter (\<lambda>r. avg_date r \<noteq> d) (daily_avg_watch_time c),
       daily_top_movies := filter (\<lambda>r. top_date r \<noteq> d) (daily_top_movies c),
       daily_conversion := filter (\<lambda>r. conv_date r \<noteq> d) (daily_conversion c),
       daily_retention := filter (\<lambda>r. ret_date r \<noteq> d) (daily_retention c),
       device_distribution := filter (\<lambda>r. dev_date r \<noteq> d) (device_distribution c),
       retention_cohorts := filter (\<lambda>r. coh_date r \<noteq> d) (retention_cohorts c)\<rparr>"

lemma rewritten_others: "rewritten d computed_at (others d c) = rewritten d computed_at c"
  by (simp add: rewritten_def others_def)

lemma rewrite_all_others: "f \<in> set (rewrite_all d computed_at) \<Longrightarrow> others d (f c) = others d c"
  unfolding rewrite_all_def rewrite_defs set_append
  by (auto simp: others_def filter_empty_conv rows_of_date [rule_format])

lemma aggregate_for_date_others:
  assumes "tenacity (pg_retrying (postgres A))" and "aggregate_for_date A d s = (r, s')"
  shows "others d (clickhouse s') = others d (clickhouse s)"
proof -
  obtain r1 s1 where count: "count_raw_rows A d s = (r1, s1)" by force
  then have c1: "clickhouse s1 = clickhouse s" unfolding count_raw_rows_def by (auto dest: run_query_frame)
  let ?at = "whole_second (wall_clock A (world s1))"
  obtain r2 s2 where cmds: "run_commands A (rewrite_all d ?at) s1 = (r2, s2)" by force
  then have c2: "others d (clickhouse s2) = others d (clickhouse s1)"
    by (rule run_commands_keep) (rule rewrite_all_others)
  obtain r3 s3 where coll: "collect_metrics A (metric_queries d ?at) s2 = (r3, s3)" by force
  then have c3: "clickhouse s3 = clickhouse s2" by (auto dest: collect_metrics_frame)
  have c4: "clickhouse s4 = clickhouse s3" if "upsert_metrics (postgres A) d ms s3 = (r4, s4)" for ms r4 s4
    using upsert_metrics_frame [OF assms(1) that] by simp
  show ?thesis
    using assms(2) count cmds coll c1 c2 c3 c4
    by (auto simp: aggregate_for_date_def Let_def split: sum.splits prod.splits)
qed

lemma aggregate_for_date_distinct:
  assumes "tenacity (pg_retrying (postgres A))" and "distinct (map row_id (daily_metrics s))"
    and "aggregate_for_date A d s = (r, s')"
  shows "distinct (map row_id (daily_metrics s'))"
proof -
  obtain r1 s1 where count: "count_raw_rows A d s = (r1, s1)" by force
  then have c1: "daily_metrics s1 = daily_metrics s" unfolding count_raw_rows_def by (auto dest: run_query_frame)
  let ?at = "whole_second (wall_clock A (world s1))"
  obtain r2 s2 where cmds: "run_commands A (rewrite_all d ?at) s1 = (r2, s2)" by force
  then have c2: "daily_metrics s2 = daily_metrics s" using c1 by (auto dest: run_commands_frame)
  obtain r3 s3 where coll: "collect_metrics A (metric_queries d ?at) s2 = (r3, s3)" by force
  then have c3: "daily_metrics s3 = daily_metrics s" using c2 by (auto dest: collect_metrics_frame)
  have c4: "distinct (map row_id (daily_metrics s4))" if "upsert_metrics (postgres A) d ms s3 = (r4, s4)" for ms r4 s4
    using upsert_metrics_put [OF assms(1) _ that] assms(2) c3 by (simp add: put_at_most_once_def)
  show ?thesis
    using assms(2,3) count cmds coll c1 c2 c3 c4
    by (auto simp: aggregate_for_date_def Let_def split: sum.splits prod.splits)
qed

lemma aggregate_for_date_ok:
  assumes "tenacity (pg_retrying (postgres A))" and "distinct (map row_id (daily_metrics s))"
    and "aggregate_for_date A d s = (Inr res, s')"
  shows "\<exists>computed_at. clickhouse s' = rewritten d computed_at (clickhouse s) \<and>
    metric_view (daily_metrics s') =
      put_metrics d (daily_payload d computed_at (movie_events (clickhouse s))) (metric_view (daily_metrics s)) \<and>
    ar_processed_rows res = length (events_of d (movie_events (clickhouse s))) \<and>
    ar_metrics_written res = length (daily_payload d computed_at (movie_events (clickhouse s))) \<and>
    objects s' = objects s"
proof -
  obtain n s1 where count: "count_raw_rows A d s = (Inr n, s1)"
    using assms(3) by (auto simp: aggregate_for_date_def split: sum.splits prod.splits)
  let ?at = "whole_second (wall_clock A (world s1))"
  obtain u s2 where cmds: "run_commands A (rewrite_all d ?at) s1 = (Inr u, s2)"
    using assms(3) count by (auto simp: aggregate_for_date_def Let_def split: sum.splits prod.splits)
  obtain ms s3 where coll: "collect_metrics A (metric_queries d ?at) s2 = (Inr ms, s3)"
    using assms(3) count cmds by (auto simp: aggregate_for_date_def Let_def split: sum.splits prod.splits)
  obtain u' where up: "upsert_metrics (postgres A) d ms s3 = (Inr u', s')"
    and res: "ar_processed_rows res = n" "ar_metrics_written res = length ms"
    using assms(3) count cmds coll by (auto simp: aggregate_for_date_def Let_def split: sum.splits prod.splits)
  have 1: "n = length (events_of d (movie_events (clickhouse s)))" "clickhouse s1 = clickhouse s"
      "daily_metrics s1 = daily_metrics s" "objects s1 = objects s"
    using run_query_frame [OF count [unfolded count_raw_rows_def]] by simp_all
  have 2: "clickhouse s2 = rewritten d ?at (clickhouse s)" "daily_metrics s2 = daily_metrics s" "objects s2 = objects s"
    using run_commands_frame [OF cmds] 1 by (simp_all add: rewrite_all_effect)
  have 3: "clickhouse s3 = clickhouse s2" "daily_metrics s3 = daily_metrics s" "objects s3 = objects s"
      "ms = build_metric_payload d ?at (clickhouse s2)"
    using collect_metrics_frame [OF coll] 2 by (simp_all add: metric_queries_payload)
  then have ms: "ms = daily_payload d ?at (movie_events (clickhouse s))"
    by (simp add: 2 payload_after_rewriting)
  show ?thesis
    using upsert_metrics_frame [OF assms(1) up] upsert_metrics_put [OF assms(1) _ up] assms(2) res ms 1 2 3
    by (intro exI [of _ ?at]) simp
qed

text \<open>The keys that a run stores metrics under do not depend on when it runs: a later payload replaces an earlier one.\<close>

lemma daily_payload_keys:
  "map (\<lambda>m. fst (entry d m)) (daily_payload d t es) = map (\<lambda>m. fst (entry d m)) (daily_payload d t' es)"
  by (simp add: daily_payload_def Let_def entry_def plain_metric_def get_or_def comp_def case_prod_unfold)

lemma put_metrics_replaced:
  assumes "map (\<lambda>m. fst (entry d m)) ms = map (\<lambda>m. fst (entry d m)) ms'"
  shows "put_metrics d ms (put_metrics d ms' v) = put_metrics d ms v"
proof -
  have "dom (map_of (rev (map (entry d) ms))) = set (map (\<lambda>m. fst (entry d m)) ms)"
    "dom (map_of (rev (map (entry d) ms'))) = set (map (\<lambda>m. fst (entry d m)) ms')"
    by (auto simp: dom_map_of_conv_image_fst image_image)
  with assms have "dom (map_of (rev (map (entry d) ms'))) = dom (map_of (rev (map (entry d) ms)))" by simp
  then show ?thesis
    by (intro ext) (auto simp: put_metrics_def map_add_def domIff split: option.splits)
qed

text \<open>Wherever a run stops, the metrics are those of before or those of the whole payload.\<close>

lemma aggregate_for_date_metrics:
  assumes "tenacity (pg_retrying (postgres A))" and "distinct (map row_id (daily_metrics s))"
    and "aggregate_for_date A d s = (r, s')"
  shows "\<exists>t. metric_view (daily_metrics s') \<in>
    {metric_view (daily_metrics s), put_metrics d (daily_payload d t (movie_events (clickhouse s))) (metric_view (daily_metrics s))}"
proof -
  obtain r1 s1 where count: "count_raw_rows A d s = (r1, s1)" by force
  then have c1: "daily_metrics s1 = daily_metrics s" "clickhouse s1 = clickhouse s"
    unfolding count_raw_rows_def by (auto dest: run_query_frame)
  let ?at = "whole_second (wall_clock A (world s1))"
  obtain r2 s2 where cmds: "run_commands A (rewrite_all d ?at) s1 = (r2, s2)" by force
  note c2 = run_commands_frame [OF cmds]
  obtain r3 s3 where coll: "collect_metrics A (metric_queries d ?at) s2 = (r3, s3)" by force
  note c3 = collect_metrics_frame [OF coll]
  have put: "metric_view (daily_metrics s4) \<in>
      {metric_view (daily_metrics s), put_metrics d (daily_payload d ?at (movie_events (clickhouse s))) (metric_view (daily_metrics s))}"
    if "r2 = Inr u" "r3 = Inr ms" "upsert_metrics (postgres A) d ms s3 = (r4, s4)" for u ms r4 s4
  proof -
    have "clickhouse s2 = rewritten d ?at (clickhouse s)" using c2 c1 that(1) by (simp add: rewrite_all_effect)
    then have "ms = daily_payload d ?at (movie_events (clickhouse s))"
      using c3 that(2) by (simp add: metric_queries_payload payload_after_rewriting)
    moreover have "daily_metrics s3 = daily_metrics s" using c1 c2 c3 by simp
    ultimately show ?thesis
      using upsert_metrics_put [OF assms(1) _ that(3)] assms(2) by (auto simp: put_at_most_once_def)
  qed
  show ?thesis
    using assms(3) count cmds coll c1 c2 c3 put
    by (intro exI [of _ ?at]) (auto simp: aggregate_for_date_def Let_def split: sum.splits prod.splits)
qed

text \<open>
  C39: A run of the aggregation that stops anywhere, after any of its commands or attempts, does no
  harm: the next run for that date that succeeds, on the same events, leaves what it would have left without the
  first one. The tables of ClickHouse have the rows of the date computed from the events and those of the
  other dates untouched; the metrics stored in PostgreSQL are those of before the first run, updated with the payload of these
  events, and nothing that the first run may have stored shows.
\<close>

theorem aggregation_heals:
  assumes "tenacity (pg_retrying (postgres A))" and "distinct (map row_id (daily_metrics s))"
    and "aggregate_for_date A d s = (r, s1)" and "aggregate_for_date A d s1 = (Inr res, s2)"
  shows "\<exists>computed_at. clickhouse s2 = rewritten d computed_at (clickhouse s) \<and>
    metric_view (daily_metrics s2) =
      put_metrics d (daily_payload d computed_at (movie_events (clickhouse s))) (metric_view (daily_metrics s)) \<and>
    ar_processed_rows res = length (events_of d (movie_events (clickhouse s))) \<and>
    ar_metrics_written res = length (daily_payload d computed_at (movie_events (clickhouse s)))"
proof -
  have o: "others d (clickhouse s1) = others d (clickhouse s)"
    using assms(1,3) by (rule aggregate_for_date_others)
  have "movie_events (others d c) = movie_events c" for c by (simp add: others_def)
  with o have events: "movie_events (clickhouse s1) = movie_events (clickhouse s)" by metis
  have again: "rewritten d t (clickhouse s1) = rewritten d t (clickhouse s)" for t
    using o rewritten_others by metis
  obtain t where t: "clickhouse s2 = rewritten d t (clickhouse s1)"
      "metric_view (daily_metrics s2) =
        put_metrics d (daily_payload d t (movie_events (clickhouse s1))) (metric_view (daily_metrics s1))"
      "ar_processed_rows res = length (events_of d (movie_events (clickhouse s1)))"
      "ar_metrics_written res = length (daily_payload d t (movie_events (clickhouse s1)))"
    using aggregate_for_date_ok [OF assms(1) aggregate_for_date_distinct [OF assms(1-3)] assms(4)] by blast
  obtain t' where "metric_view (daily_metrics s1) \<in>
      {metric_view (daily_metrics s), put_metrics d (daily_payload d t' (movie_events (clickhouse s))) (metric_view (daily_metrics s))}"
    using aggregate_for_date_metrics [OF assms(1-3)] by blast
  then have "put_metrics d (daily_payload d t (movie_events (clickhouse s))) (metric_view (daily_metrics s1)) =
      put_metrics d (daily_payload d t (movie_events (clickhouse s))) (metric_view (daily_metrics s))"
    using put_metrics_replaced [OF daily_payload_keys] by auto
  with t show ?thesis unfolding events again by metis
qed

text \<open>Services that refuse one command, the fourth call to them, and services that refuse none for long.\<close>

definition services_with :: "(nat \<Rightarrow> tx_outcome \<times> nat) \<Rightarrow> nat services" where
  "services_with commands =
     \<lparr>postgres = sample_postgres\<lparr>pg_transaction := \<lambda>w. (Committed, w + 1)\<rparr>,
      ch_command = commands,
      ch_query = (\<lambda>w. (None, w + 1)), s3_put = (\<lambda>w. (Committed, w + 1)), export_retrying = attempts,
      wall_clock = (\<lambda>w. 864000000000 + int w * 1000000), perf_counter = (\<lambda>w. of_nat w / 2),
      to_csv = (\<lambda>rows. concat (map fr_name rows))\<rparr>"

definition sample_services :: "nat services" where
  "sample_services = services_with (\<lambda>w. (if w = 3 then RolledBack (ClientError ''down'') else Committed, w + 1))"

definition healthy_services :: "nat services" where
  "healthy_services = services_with (\<lambda>w. (if w < 50 then Committed else RolledBack (ClientError ''down''), w + 1))"

definition empty_clickhouse :: "event_row list \<Rightarrow> clickhouse_db" where
  "empty_clickhouse es =
     \<lparr>movie_events = es, daily_dau = [], daily_avg_watch_time = [], daily_top_movies = [], daily_conversion = [],
      daily_retention = [], device_distribution = [], retention_cohorts = []\<rparr>"

definition sample_analytics :: "nat analytics" where
  "sample_analytics =
     \<lparr>daily_metrics = [], world = 0, clickhouse = empty_clickhouse (take 3 sample_events), objects = (\<lambda>_. None)\<rparr>"

lemma sample_services_retrying: "tenacity (pg_retrying (postgres sample_services))"
  using bounded.tenacity_axioms by (simp add: sample_services_def services_with_def sample_postgres_def)

lemma sample_runs:
  "isl (fst (aggregate_for_date sample_services 9 sample_analytics))"
  "\<not> isl (fst (aggregate_for_date sample_services 9 (snd (aggregate_for_date sample_services 9 sample_analytics))))"
  by code_simp+

abbreviation sample_first_run :: "(pipeline_error + aggregation_result) \<times> nat analytics" where
  "sample_first_run \<equiv> aggregate_for_date sample_services 9 sample_analytics"

abbreviation sample_second_run :: "(pipeline_error + aggregation_result) \<times> nat analytics" where
  "sample_second_run \<equiv> aggregate_for_date sample_services 9 (snd sample_first_run)"

theorem aggregation_heals_witness:
  "isl (fst sample_first_run) \<and>
   (\<exists>computed_at. clickhouse (snd sample_second_run) = rewritten 9 computed_at (empty_clickhouse (take 3 sample_events)))"
proof
  show "isl (fst sample_first_run)" by (rule sample_runs)
  obtain r s1 where first: "sample_first_run = (r, s1)" by force
  obtain res s2 where second: "aggregate_for_date sample_services 9 s1 = (Inr res, s2)"
    using sample_runs(2) first by (metis isl_def old.sum.exhaust prod.collapse snd_conv)
  have "distinct (map row_id (daily_metrics sample_analytics))" by (simp add: sample_analytics_def)
  from aggregation_heals [OF sample_services_retrying this first second]
  have "\<exists>computed_at. clickhouse s2 = rewritten 9 computed_at (clickhouse sample_analytics)" by blast
  then show "\<exists>computed_at. clickhouse (snd sample_second_run) = rewritten 9 computed_at (empty_clickhouse (take 3 sample_events))"
    using first second by (simp add: sample_analytics_def)
qed

section \<open>The export\<close>

lemma fetch_metrics_rows:
  fixes s :: "'w analytics"
  assumes "fetch_metrics_for_export P d s = (r, s')"
  shows "daily_metrics s' = daily_metrics s \<and> clickhouse s' = clickhouse s \<and> objects s' = objects s \<and>
    (case r of Inl _ \<Rightarrow> True
     | Inr rows \<Rightarrow>
         set rows = {x \<in> set (daily_metrics s). row_date x = d} \<and> length rows = length (filter (\<lambda>x. row_date x = d) (daily_metrics s)) \<and>
         sorted (map (\<lambda>x. (pg_collate P (row_name x), pg_collate P (row_key x), pg_collate P (row_value x))) rows))"
  using assms by (auto simp: fetch_metrics_for_export_def split: prod.splits option.splits)

text \<open>What one attempt writes: nothing, or the frame of the rows of the date under the key of the date.\<close>

definition exported :: "'w services \<Rightarrow> date \<Rightarrow> 'w analytics \<Rightarrow> string option \<Rightarrow> bool" where
  "exported A d s body \<longleftrightarrow>
     (\<exists>rows. set rows = {x \<in> set (daily_metrics s). row_date x = d} \<and>
        length rows = length (filter (\<lambda>x. row_date x = d) (daily_metrics s)) \<and>
        sorted (map (\<lambda>x. (pg_collate (postgres A) (row_name x), pg_collate (postgres A) (row_key x),
                          pg_collate (postgres A) (row_value x))) rows) \<and>
        body = Some (to_csv A (if rows = [] then [no_data_row d] else map frame_of_row rows)))"

definition only_export :: "'w services \<Rightarrow> date \<Rightarrow> 'w analytics \<Rightarrow> 'w analytics \<Rightarrow> bool" where
  "only_export A d s s' \<longleftrightarrow>
     daily_metrics s' = daily_metrics s \<and> clickhouse s' = clickhouse s \<and>
     (\<forall>k. k \<noteq> export_key d \<longrightarrow> objects s' k = objects s k) \<and>
     (objects s' (export_key d) = objects s (export_key d) \<or> exported A d s (objects s' (export_key d)))"

lemma export_once_writes:
  assumes "export_once A d s = (r, s')" and "only_export A d s0 s"
  shows "only_export A d s0 s' \<and> (\<forall>key. r = Inr key \<longrightarrow> key = export_key d \<and> exported A d s0 (objects s' key))"
proof -
  have same: "daily_metrics s = daily_metrics s0" using assms(2) by (simp add: only_export_def)
  obtain r1 s1 where f: "fetch_metrics_for_export (postgres A) d s = (r1, s1)" by force
  show ?thesis
  proof (cases r1)
    case (Inl e)
    have "daily_metrics s1 = daily_metrics s" "clickhouse s1 = clickhouse s" "objects s1 = objects s"
      using fetch_metrics_rows [OF f] by simp_all
    with f Inl assms show ?thesis by (auto simp: export_once_def only_export_def)
  next
    case (Inr rows)
    have s1: "daily_metrics s1 = daily_metrics s" "clickhouse s1 = clickhouse s" "objects s1 = objects s"
      using fetch_metrics_rows [OF f] by simp_all
    have "exported A d s0 (Some (to_csv A (export_frame d rows)))"
      unfolding exported_def export_frame_def same [symmetric]
      by (rule exI [of _ rows]) (use fetch_metrics_rows [OF f] Inr in simp)
    then show ?thesis
      using assms f s1 by (auto simp: export_once_def Inr Let_def only_export_def split: prod.splits tx_outcome.splits)
  qed
qed

text \<open>
  C40: The export of a date writes nothing but the object of that date: all the stored rows of the date,
  in the order of name, key and value, or the line that says there is no data. It is there when the
  export returns its key, whatever happened to earlier attempts; the metrics are only read.
\<close>

theorem export_exact:
  assumes "tenacity (export_retrying A)" and "export_for_date A d s = (r, s')"
  shows "daily_metrics s' = daily_metrics s \<and> clickhouse s' = clickhouse s \<and>
    (\<forall>k. k \<noteq> export_key d \<longrightarrow> objects s' k = objects s k) \<and>
    (objects s' (export_key d) = objects s (export_key d) \<or> exported A d s (objects s' (export_key d))) \<and>
    (\<forall>key. r = Inr key \<longrightarrow> key = export_key d \<and> exported A d s (objects s' key))"
proof -
  let ?f = "export_once A d"
  obtain k where k: "?f (state_after k ?f s) = (r, s')"
    using tenacity.outcome [OF assms(1), of 5 ?f s] assms(2) by (auto simp: export_for_date_def)
  have step: "only_export A d s (snd (?f q))" if "only_export A d s q" for q
    using export_once_writes [OF _ that] by (cases "?f q") simp
  have "only_export A d s s" by (simp add: only_export_def)
  then have "only_export A d s (state_after k ?f s)"
    by (intro state_after_keeps [where I = "only_export A d s"] step)
  from export_once_writes [OF k this] show ?thesis by (auto simp: only_export_def)
qed

theorem export_exact_witness:
  "exported sample_services 9 sample_analytics
     (objects (snd (export_for_date sample_services 9 sample_analytics)) (export_key 9))"
proof -
  obtain r s' where run: "export_for_date sample_services 9 sample_analytics = (r, s')" by force
  have t: "tenacity (export_retrying sample_services)"
    using bounded.tenacity_axioms by (simp add: sample_services_def services_with_def)
  have "\<not> isl (fst (export_for_date sample_services 9 sample_analytics))" by code_simp
  with run obtain key where "r = Inr key" by (cases r) auto
  with export_exact [OF t run] run show ?thesis by auto
qed

section \<open>The scheduled job\<close>

lemma yesterday_eq: "yesterday now = now div days 1 - 1"
proof -
  have "(now - days 1) div days 1 = (now + (- 1) * days 1) div days 1" by simp
  also have "\<dots> = - 1 + now div days 1" by (rule div_mult_self1) (simp add: days_def)
  finally show ?thesis by (simp add: yesterday_def)
qed

text \<open>
  The scheduled job aggregates yesterday, and a retention is about the day and the week after. So
  what it stores as the retention after seven days is always 0: unless an event is dated in the future,
  the day it asks for has not come.
\<close>

theorem scheduled_retention_unknown:
  assumes "tenacity (pg_retrying (postgres A))" and "distinct (map row_id (daily_metrics s))"
    and "run_job A AggregateLatest s = (Inr (), s')"
    and "\<forall>e\<in>set (movie_events (clickhouse s)). er_date e \<le> wall_clock A (world s) div days 1"
    and "0 \<le> wall_clock A (world s)"
  shows "\<exists>computed_at.
    filter (\<lambda>r. ret_date r = yesterday (wall_clock A (world s))) (daily_retention (clickhouse s')) =
      [\<lparr>ret_date = yesterday (wall_clock A (world s)),
        ret_d1 = retention (yesterday (wall_clock A (world s))) 1 (movie_events (clickhouse s)), ret_d7 = 0,
        ret_at = computed_at\<rparr>]"
proof -
  let ?d = "yesterday (wall_clock A (world s))"
  obtain res where run: "aggregate_for_date A ?d s = (Inr res, s')"
    using assms(3) by (auto split: prod.splits sum.splits)
  obtain t where t: "clickhouse s' = rewritten ?d t (clickhouse s)"
    using aggregate_for_date_ok [OF assms(1,2) run] by blast
  have today: "0 \<le> wall_clock A (world s) div days 1"
    using assms(5) by (simp add: pos_imp_zdiv_nonneg_iff days_def)
  have "retention ?d 7 (movie_events (clickhouse s)) = 0"
    by (rule retention_nobody) (use assms(4) today in \<open>auto simp: yesterday_eq\<close>)
  then show ?thesis
    by (intro exI [of _ t]) (simp add: t rewritten_def ret_rows_def)
qed

theorem scheduled_retention_unknown_witness:
  "\<exists>r\<in>set (daily_retention (clickhouse (snd (run_job healthy_services AggregateLatest sample_analytics)))).
     ret_date r = 9 \<and> ret_d7 r = 0"
proof -
  have now: "wall_clock healthy_services (world sample_analytics) = 864000000000"
    by (simp add: healthy_services_def services_with_def sample_analytics_def)
  have day: "yesterday 864000000000 = 9" by code_simp
  have "\<not> isl (fst (aggregate_for_date healthy_services 9 sample_analytics))" by code_simp
  then obtain res s' where "aggregate_for_date healthy_services 9 sample_analytics = (Inr res, s')"
    by (metis isl_def old.sum.exhaust prod.collapse)
  then have run: "run_job healthy_services AggregateLatest sample_analytics = (Inr (), s')"
    by (simp add: now day)
  have A: "tenacity (pg_retrying (postgres healthy_services))"
    using sample_services_retrying by (simp add: sample_services_def healthy_services_def services_with_def)
  have past: "\<forall>e\<in>set (movie_events (clickhouse sample_analytics)). er_date e \<le> wall_clock healthy_services (world sample_analytics) div days 1"
    unfolding now by code_simp
  have "distinct (map row_id (daily_metrics sample_analytics))" by (simp add: sample_analytics_def)
  from scheduled_retention_unknown [OF A this run past] obtain t where
    "filter (\<lambda>r. ret_date r = 9) (daily_retention (clickhouse s')) =
       [\<lparr>ret_date = 9, ret_d1 = retention 9 1 (movie_events (clickhouse sample_analytics)), ret_d7 = 0, ret_at = t\<rparr>]"
    unfolding now day by auto
  then have "\<lparr>ret_date = 9, ret_d1 = retention 9 1 (movie_events (clickhouse sample_analytics)), ret_d7 = 0, ret_at = t\<rparr>
      \<in> set (filter (\<lambda>r. ret_date r = 9) (daily_retention (clickhouse s')))" by simp
  then show ?thesis unfolding run by (auto intro: bexI [rotated])
qed

end
