(* ===== verification/Pipeline.thy ===== *)
theory Pipeline
  imports Analytics_Properties "HOL-Library.Multiset"
begin

text \<open>
  The movie pipeline from end to end: what the aggregation service stores about the events that the
  producer service has published, once they have reached the table of raw events. A publication is retried
  when its outcome is not known, and nothing removes duplicates, so an event may reach the table more than once. The dates
  are those of the events themselves, so the time stamps must survive their way through milliseconds in
  floating point, and the counts theirs through the column of doubles.
\<close>

section \<open>Counts in doubles\<close>

lemma double_of_int:
  assumes "0 \<le> n" and "n < 2 ^ 53"
  shows "double (of_int n) = of_int n"
proof (cases "n = 0")
  case False
  with assms(1) have pos: "0 < n" by simp
  let ?k = "bit_length n - 1"
  have b: "0 < bit_length n" "2 ^ ?k \<le> (of_int n :: rat)" "(of_int n :: rat) < 2 ^ bit_length n"
    using bit_length_rat [OF pos] by simp_all
  have "(2::int) ^ ?k < 2 ^ 53"
    using bit_length_bounds [OF pos] assms(2) by linarith
  then have "?k < 53" by (rule power_less_imp_less_exp [rotated]) simp
  then have k: "?k \<le> 52" by simp
  show ?thesis
  proof (rule double_nearby [of ?k])
    show "2 powi int ?k \<le> (of_int n :: rat)" using b(2) by simp
    have "int ?k + 1 = int (bit_length n)" using b(1) by simp
    then show "(of_int n :: rat) < 2 powi (int ?k + 1)" using b(3) by simp
  qed (use k in simp_all)
qed simp

lemma double_of_nat: "n < 2 ^ 53 \<Longrightarrow> double (of_nat n) = of_nat n"
  using double_of_int [of "int n"] by simp

section \<open>The payload as a map\<close>

lemma put_metrics_lookup:
  assumes "distinct (map (\<lambda>m. fst (entry d m)) payload)" and "m \<in> set payload"
  shows "put_metrics d payload v (fst (entry d m)) = Some (snd (entry d m))"
proof -
  have "distinct (map fst (rev (map (entry d) payload)))"
    using assms(1) by (simp add: rev_map [symmetric] comp_def)
  then have "map_of (rev (map (entry d) payload)) (fst (entry d m)) = Some (snd (entry d m))"
    by (rule map_of_is_SomeI) (use assms(2) in simp)
  then show ?thesis by (simp add: put_metrics_def)
qed

lemma ranked_movies_distinct: "distinct (map snd (filter P (ranked_movies es)))"
proof (rule distinct_map_filter)
  have "map snd (ranked_movies es) = sort_key (\<lambda>m. (- int (movie_views es m), m)) (remdups (map er_movie_id es))"
    by (simp add: ranked_movies_def)
  then show "distinct (map snd (ranked_movies es))" by simp
qed

lemma daily_payload_distinct: "distinct (map (\<lambda>m. fst (entry d m)) (daily_payload d computed_at es))"
proof -
  let ?day = "events_of d es"
  let ?top = "filter (\<lambda>(rank, m). rank \<le> 10) (ranked_movies ?day)"
  have top: "distinct (map (\<lambda>(rank, m). (d, ''TOP_MOVIE_VIEWS'', ''movie_id'', m)) ?top)"
    using ranked_movies_distinct [of "\<lambda>(rank, m). rank \<le> 10" ?day]
    by (simp add: distinct_map inj_on_def case_prod_unfold) blast
  have dev: "distinct (map (\<lambda>t. (d, ''DEVICE_EVENTS'', ''device_type'', t)) (sort (remdups (map er_device_type ?day))))"
    by (simp add: distinct_map inj_on_def)
  show ?thesis
    using top dev
    by (auto simp: daily_payload_def Let_def entry_def plain_metric_def get_or_def comp_def case_prod_unfold)
qed

section \<open>Events and their rows\<close>

definition events_on :: "date \<Rightarrow> movie_event list \<Rightarrow> movie_event list" where
  "events_on d evs = filter (\<lambda>ev. wall (timestamp ev) div days 1 = d) evs"

definition exact_time :: "movie_event \<Rightarrow> bool" where
  "exact_time ev \<longleftrightarrow> 2 ^ 40 * 1000 < wall (timestamp ev) \<and> wall (timestamp ev) < 2 ^ 31 * 1000000"

lemma event_type_value_eq [simp]: "event_type_value a = event_type_value b \<longleftrightarrow> a = b"
  by (cases a; cases b) simp_all

lemma device_type_value_eq [simp]: "device_type_value a = device_type_value b \<longleftrightarrow> a = b"
  by (cases a; cases b) simp_all

lemma event_row_of_columns:
  "er_user_id (event_row_of ev) = user_id ev" "er_event_type (event_row_of ev) = event_type_value (event_type ev)"
  "er_device_type (event_row_of ev) = device_type_value (device_type ev)"
  "er_movie_id (event_row_of ev) = movie_id ev"
  by (simp_all add: event_row_of_def Let_def)

text \<open>The date of the row is the day of the time stamp in UTC.\<close>

lemma event_row_date:
  assumes "valid_event ev" and "exact_time ev"
  shows "er_date (event_row_of ev) = wall (timestamp ev) div days 1"
proof -
  have "er_date (event_row_of ev) = wall (timestamp ev) div 1000 div 86400000"
    using assms(2) by (simp add: event_row_of_def Let_def to_date_def exact_time_def valid_event_millis(2) [OF assms(1)] epoch_millis_exact)
  also have "\<dots> = wall (timestamp ev) div days 1"
    by (simp add: days_def zdiv_zmult2_eq [symmetric])
  finally show ?thesis .
qed

lemma events_of_rows:
  assumes "\<forall>ev\<in>set evs. valid_event ev \<and> exact_time ev"
  shows "events_of d (map event_row_of evs) = map event_row_of (events_on d evs)"
  using assms by (induction evs) (simp_all add: events_of_def events_on_def event_row_date)

lemma count_type_rows:
  "count_type (event_type_value t) (map event_row_of evs) = length (filter (\<lambda>ev. event_type ev = t) evs)"
  by (simp add: count_type_def filter_map comp_def event_row_of_columns)

lemma count_device_rows:
  "length (filter (\<lambda>e. er_device_type e = device_type_value t) (map event_row_of evs)) =
     length (filter (\<lambda>ev. device_type ev = t) evs)"
  by (simp add: filter_map comp_def event_row_of_columns)

lemma uniq_users_rows: "uniq_exact (map er_user_id (map event_row_of evs)) = card (user_id ` set evs)"
proof -
  have "map er_user_id (map event_row_of evs) = map user_id evs" by (simp add: event_row_of_columns)
  then show ?thesis by (simp add: uniq_exact_def card_set [symmetric])
qed

section \<open>From published events to stored metrics\<close>

text \<open>The stored value of a metric of a date.\<close>

definition stored_metric :: "'w analytics \<Rightarrow> date \<Rightarrow> string \<Rightarrow> string \<Rightarrow> string \<Rightarrow> rat option" where
  "stored_metric s d name key v = map_option fst (metric_view (daily_metrics s) (d, name, key, v))"

lemma stored_metric_payload:
  assumes "metric_view (daily_metrics s') = put_metrics d (daily_payload d computed_at es) v"
    and "m \<in> set (daily_payload d computed_at es)"
  shows "stored_metric s' d (metric_name m) (get_or [] (dimension_key m)) (get_or [] (dimension_value m)) =
    Some (double (metric_value m))"
  using put_metrics_lookup [OF daily_payload_distinct assms(2), of v]
  by (simp add: stored_metric_def assms(1) entry_def)

lemma device_metric_payload:
  assumes "v \<in> set (map er_device_type (events_of d es))"
    and "metric_view (daily_metrics s') = put_metrics d (daily_payload d t es) (metric_view (daily_metrics s))"
  shows "stored_metric s' d ''DEVICE_EVENTS'' ''device_type'' v =
    Some (double (of_nat (length (filter (\<lambda>e. er_device_type e = v) (events_of d es)))))"
proof -
  let ?m = "\<lparr>metric_name = ''DEVICE_EVENTS'', dimension_key = Some ''device_type'', dimension_value = Some v,
      metric_value = of_nat (length (filter (\<lambda>e. er_device_type e = v) (events_of d es))),
      metadata = Some [(''computed_at'', MetaTime t)]\<rparr>"
  have "?m \<in> set (daily_payload d t es)" using assms(1) by (simp add: daily_payload_def Let_def)
  from stored_metric_payload [OF assms(2) this] show ?thesis by (simp add: get_or_def)
qed

lemma few_events:
  assumes "length evs < 2 ^ 53"
  shows "length (filter P (events_on d evs)) < 2 ^ 53"
proof -
  have "length (filter P (events_on d evs)) \<le> length evs"
    unfolding events_on_def by (meson le_trans length_filter_le)
  with assms show ?thesis by simp
qed

text \<open>Deliveries that contain each of some different events, and none but these: the counts are at least theirs.\<close>

lemma delivered_counts:
  assumes "distinct published" and "set delivered = set published"
  shows "length (filter P (events_on d published)) \<le> length (filter P (events_on d delivered))"
    and "mset delivered = mset published \<Longrightarrow> length (filter P (events_on d delivered)) = length (filter P (events_on d published))"
proof -
  have "mset published \<subseteq># mset delivered"
    using assms by (metis mset_remdups_subset_eq mset_set_set mset_set_set_mset_msubset set_mset_mset)
  then have "size (filter_mset Q (mset published)) \<le> size (filter_mset Q (mset delivered))" for Q
    by (intro size_mset_mono multiset_filter_mono)
  then show "length (filter P (events_on d published)) \<le> length (filter P (events_on d delivered))"
    by (simp add: events_on_def flip: size_mset mset_filter)
  assume "mset delivered = mset published"
  then have "mset (filter P (events_on d delivered)) = mset (filter P (events_on d published))"
    by (simp add: events_on_def mset_filter)
  then show "length (filter P (events_on d delivered)) = length (filter P (events_on d published))"
    by (rule mset_eq_length)
qed

text \<open>
  C29: The metrics of a day are those of the events that were published for it. The time stamps are from
  November 2004 to January 2038, where the milliseconds are exact, and each published event has reached the
  table of raw events, at least once, and nothing else has. Then a run of the aggregation that succeeds stores as the active
  users of a date the number of different users with an event whose time stamp lies on that day in UTC, however often the
  events were delivered; as started and finished views the number of deliveries of such events of the day, and
  for every device the number of deliveries of its events; and it reports as processed all deliveries of the day. These
  numbers are never below those of the published events, and are these where each event was delivered once.
\<close>

theorem published_events_counted:
  assumes "tenacity (pg_retrying (postgres A))" and "distinct (map row_id (daily_metrics s))"
    and "movie_events (clickhouse s) = map event_row_of delivered" and "length delivered < 2 ^ 53"
    and "distinct published" and "set delivered = set published"
    and "\<forall>ev\<in>set published. valid_event ev \<and> exact_time ev"
    and "aggregate_for_date A d s = (Inr res, s')"
  shows "ar_processed_rows res = length (events_on d delivered) \<and>
    stored_metric s' d ''DAU'' [] [] = Some (of_nat (card (user_id ` set (events_on d published)))) \<and>
    stored_metric s' d ''VIEW_STARTED'' [] [] =
      Some (of_nat (length (filter (\<lambda>ev. event_type ev = VIEW_STARTED) (events_on d delivered)))) \<and>
    stored_metric s' d ''VIEW_FINISHED'' [] [] =
      Some (of_nat (length (filter (\<lambda>ev. event_type ev = VIEW_FINISHED) (events_on d delivered)))) \<and>
    (\<forall>t\<in>device_type ` set (events_on d published).
       stored_metric s' d ''DEVICE_EVENTS'' ''device_type'' (device_type_value t) =
         Some (of_nat (length (filter (\<lambda>ev. device_type ev = t) (events_on d delivered))))) \<and>
    (\<forall>P. length (filter P (events_on d published)) \<le> length (filter P (events_on d delivered)) \<and>
       (mset delivered = mset published \<longrightarrow>
          length (filter P (events_on d delivered)) = length (filter P (events_on d published))))"
proof -
  let ?day = "events_on d delivered" and ?es = "map event_row_of delivered"
  have events: "set ?day = set (events_on d published)" using assms(6) by (simp add: events_on_def)
  have valid: "\<forall>ev\<in>set delivered. valid_event ev \<and> exact_time ev" using assms(6,7) by simp
  obtain t where stored: "metric_view (daily_metrics s') = put_metrics d (daily_payload d t ?es) (metric_view (daily_metrics s))"
    and rows: "ar_processed_rows res = length (events_of d ?es)"
    using aggregate_for_date_ok [OF assms(1,2,8)] unfolding assms(3) by blast
  have day: "events_of d ?es = map event_row_of ?day" by (rule events_of_rows [OF valid])
  note few = few_events [OF assms(4), of _ d]
  have users: "card (user_id ` set ?day) < 2 ^ 53"
    using few [of "\<lambda>_. True"] card_length [of "map user_id ?day"] by simp
  have plain: "stored_metric s' d name [] [] = Some (double v)"
    if "plain_metric t name v \<in> set (daily_payload d t ?es)" for name v
    using stored_metric_payload [OF stored that] by (simp add: plain_metric_def get_or_def)
  have typed: "stored_metric s' d (event_type_value ty) [] [] = Some (of_nat (length (filter (\<lambda>ev. event_type ev = ty) ?day)))"
    if "ty \<in> {VIEW_STARTED, VIEW_FINISHED}" for ty
  proof -
    have "plain_metric t (event_type_value ty) (of_nat (count_type (event_type_value ty) (events_of d ?es)))
        \<in> set (daily_payload d t ?es)"
      using that by (auto simp: daily_payload_def Let_def)
    from plain [OF this] show ?thesis unfolding day count_type_rows double_of_nat [OF few] .
  qed
  have "plain_metric t ''DAU'' (of_nat (uniq_exact (map er_user_id (events_of d ?es)))) \<in> set (daily_payload d t ?es)"
    by (simp add: daily_payload_def Let_def)
  from plain [OF this] have dau: "stored_metric s' d ''DAU'' [] [] = Some (of_nat (card (user_id ` set ?day)))"
    unfolding day uniq_users_rows double_of_nat [OF users] .
  have device: "stored_metric s' d ''DEVICE_EVENTS'' ''device_type'' (device_type_value ty) =
      Some (of_nat (length (filter (\<lambda>ev. device_type ev = ty) ?day)))" if "ty \<in> device_type ` set ?day" for ty
  proof -
    have "device_type_value ty \<in> set (map er_device_type (events_of d ?es))"
      using that unfolding day by (auto simp: event_row_of_columns)
    from device_metric_payload [OF this stored] show ?thesis unfolding day count_device_rows double_of_nat [OF few] .
  qed
  show ?thesis
    using typed [of VIEW_STARTED] typed [of VIEW_FINISHED] dau device rows delivered_counts [OF assms(5,6)]
    by (simp add: day events)
qed

text \<open>
  Three events of the day 20564, the last two by the same user, and one of the day after; the second one
  is delivered twice.
\<close>

definition sample_published :: "movie_event list" where
  "sample_published =
     [sample_event\<lparr>event_type := VIEW_STARTED, progress_seconds := Some 0\<rparr>,
      sample_event\<lparr>event_id := ''e2'', user_id := ''user-2'', event_type := VIEW_STARTED\<rparr>,
      sample_event\<lparr>event_id := ''e3'', user_id := ''user-2'', device_type := TV\<rparr>,
      sample_event\<lparr>event_id := ''e4'', timestamp := Datetime 1776816000000000 (Some 0)\<rparr>]"

definition sample_delivered :: "movie_event list" where
  "sample_delivered = sample_published @ [sample_published ! 1]"

definition pipeline_state :: "nat analytics" where
  "pipeline_state =
     \<lparr>daily_metrics = [], world = 0, clickhouse = empty_clickhouse (map event_row_of sample_delivered), objects = (\<lambda>_. None)\<rparr>"

theorem published_events_counted_witness:
  "\<exists>res s'. aggregate_for_date healthy_services 20564 pipeline_state = (Inr res, s') \<and> ar_processed_rows res = 4 \<and>
     stored_metric s' 20564 ''DAU'' [] [] = Some 2 \<and> stored_metric s' 20564 ''VIEW_STARTED'' [] [] = Some 3"
proof -
  have A: "tenacity (pg_retrying (postgres healthy_services))"
    using sample_services_retrying by (simp add: sample_services_def healthy_services_def services_with_def)
  have "\<not> isl (fst (aggregate_for_date healthy_services 20564 pipeline_state))" by code_simp
  then obtain res s' where run: "aggregate_for_date healthy_services 20564 pipeline_state = (Inr res, s')"
    by (metis isl_def old.sum.exhaust prod.collapse)
  have table: "movie_events (clickhouse pipeline_state) = map event_row_of sample_delivered"
    by (simp add: pipeline_state_def empty_clickhouse_def)
  have valid: "\<forall>ev\<in>set sample_published. valid_event ev \<and> exact_time ev"
    by code_simp
  have metrics: "distinct (map row_id (daily_metrics pipeline_state))" by (simp add: pipeline_state_def)
  have few: "length sample_delivered < 2 ^ 53" by (simp add: sample_delivered_def sample_published_def)
  have different: "distinct sample_published" by code_simp
  have all: "set sample_delivered = set sample_published" by (auto simp: sample_delivered_def sample_published_def)
  have day: "length (events_on 20564 sample_delivered) = 4"
      "card (user_id ` set (events_on 20564 sample_published)) = 2"
      "length (filter (\<lambda>ev. event_type ev = VIEW_STARTED) (events_on 20564 sample_delivered)) = 3"
    by code_simp+
  from published_events_counted [OF A metrics table few different all valid run] run day show ?thesis by auto
qed

end
