(* ===== verification/Event_Generator.thy ===== *)
theory Event_Generator
  imports Movie_Events
begin

text \<open>
  The synthetic traffic (dz_5/producer-service/app/generator.py): the events of one watching session
  and the sequence around them. The random numbers, the clock and the fresh identifiers are a record
  \<open>draws\<close>; \<open>draws_in_range\<close> states what \<open>random.randint\<close> and \<open>random.choice\<close> promise for the
  arguments the code calls them with. An abstract player, a step relation on its position, says what a
  sensible session is.
\<close>

section \<open>Names\<close>

definition USERS :: "string list" where
  "USERS = map (\<lambda>index. ''user-'' @ str_int (int index)) [1..<201]"

definition MOVIES :: "string list" where
  "MOVIES = map (\<lambda>index. ''movie-'' @ str_int (int index)) [1..<81]"

definition SEARCH_TERMS :: "string list" where
  "SEARCH_TERMS =
     [''sci-fi'', ''comedy'', ''drama'', ''oscar winners'', ''crime thriller'', ''family movies'', ''marvel'',
      ''christopher nolan'', ''animated movies'', ''romantic comedies'', ''series to binge'', ''top imdb'',
      ''new releases'', ''80s classics'', ''detective series'', ''space opera'', ''historical drama'',
      ''cyberpunk'', ''korean thriller'', ''anime'']"

section \<open>One session\<close>

record session_draws =
  finish_draw :: int
  pause_draw :: int
  resume_draw :: int
  pause_chance :: rat
  second_chance :: rat
  second_pause_draw :: int
  second_resume_draw :: int
  finish_chance :: rat

definition session_events :: "session_draws \<Rightarrow> (event_type \<times> int option) list" where
  "session_events d =
     (let finish_progress = finish_draw d;
          pause_progress = pause_draw d;
          resume_progress = min (finish_progress - 60) (pause_progress + resume_draw d);
          second_pause = min (finish_progress - 30) (resume_progress + second_pause_draw d);
          second_resume = min (finish_progress - 10) (second_pause + second_resume_draw d)
      in [(VIEW_STARTED, Some 0)] @
         (if pause_chance d < double (8 / 10)
            then [(VIEW_PAUSED, Some pause_progress), (VIEW_RESUMED, Some resume_progress)] else []) @
         (if second_chance d < double (25 / 100)
            then [(VIEW_PAUSED, Some second_pause), (VIEW_RESUMED, Some second_resume)] else []) @
         (if finish_chance d < double (72 / 100) then [(VIEW_FINISHED, Some finish_progress)] else []))"

definition session_draws_in_range :: "session_draws \<Rightarrow> bool" where
  "session_draws_in_range d \<longleftrightarrow>
     finish_draw d \<in> {3600..8000} \<and>
     pause_draw d \<in> {120..min 1800 (finish_draw d - 300)} \<and>
     resume_draw d \<in> {60..900} \<and>
     second_pause_draw d \<in> {90..1200} \<and>
     second_resume_draw d \<in> {30..600}"

subsection \<open>The abstract player\<close>

datatype player = Idle | Playing int | Paused int | Finished int

inductive watch_step :: "player \<Rightarrow> event_type \<times> int option \<Rightarrow> player \<Rightarrow> bool" where
  start: "watch_step Idle (VIEW_STARTED, Some 0) (Playing 0)"
| pause: "p < q \<Longrightarrow> watch_step (Playing p) (VIEW_PAUSED, Some q) (Paused q)"
| resume: "p < q \<Longrightarrow> watch_step (Paused p) (VIEW_RESUMED, Some q) (Playing q)"
| finish: "p < q \<Longrightarrow> watch_step (Playing p) (VIEW_FINISHED, Some q) (Finished q)"

inductive_simps watch_step_simps [simp]:
  "watch_step Idle e s"
  "watch_step (Playing p) e s"
  "watch_step (Paused p) e s"
  "watch_step (Finished p) e s"

fun watch_run :: "player \<Rightarrow> (event_type \<times> int option) list \<Rightarrow> player \<Rightarrow> bool" where
  "watch_run s [] s' \<longleftrightarrow> s' = s"
| "watch_run s (e # es) s' \<longleftrightarrow> (\<exists>s1. watch_step s e s1 \<and> watch_run s1 es s')"

fun position :: "player \<Rightarrow> int" where
  "position Idle = 0"
| "position (Playing p) = p"
| "position (Paused p) = p"
| "position (Finished p) = p"

lemma session_is_watch_run:
  assumes "session_draws_in_range d"
  shows "\<exists>s. watch_run Idle (session_events d) s \<and> s \<noteq> Idle \<and> position s \<le> 8000"
proof -
  define f where "f = finish_draw d"
  define p where "p = pause_draw d"
  define r where "r = min (f - 60) (p + resume_draw d)"
  define sp where "sp = min (f - 30) (r + second_pause_draw d)"
  define sr where "sr = min (f - 10) (sp + second_resume_draw d)"
  have order: "0 < p" "p < r" "r < sp" "sp < sr" "sr < f" "r < f" "f \<le> 8000"
    using assms by (auto simp: session_draws_in_range_def f_def p_def r_def sp_def sr_def)
  have "session_events d = [(VIEW_STARTED, Some 0)] @
      (if pause_chance d < double (8 / 10) then [(VIEW_PAUSED, Some p), (VIEW_RESUMED, Some r)] else []) @
      (if second_chance d < double (25 / 100) then [(VIEW_PAUSED, Some sp), (VIEW_RESUMED, Some sr)] else []) @
      (if finish_chance d < double (72 / 100) then [(VIEW_FINISHED, Some f)] else [])"
    by (simp add: session_events_def Let_def f_def p_def r_def sp_def sr_def)
  with order show ?thesis by (auto split: if_splits)
qed

text \<open>What a run of the player says of its events.\<close>

lemma watch_step_event:
  "watch_step s (t, p) s' \<Longrightarrow> position s \<le> position s' \<and> p = Some (position s') \<and> t \<in> set requires_progress"
  by (erule watch_step.cases) (auto simp: requires_progress_def)

lemma watch_run_events:
  assumes "watch_run s es s'" and "0 \<le> position s" and "(t, p) \<in> set es"
  shows "t \<in> set requires_progress \<and> (\<exists>n. p = Some n \<and> position s \<le> n \<and> n \<le> position s')"
  using assms
proof (induction es arbitrary: s)
  case Nil
  then show ?case by simp
next
  case (Cons e es)
  then obtain s1 where st: "watch_step s e s1" and run: "watch_run s1 es s'" by auto
  obtain t1 p1 where e: "e = (t1, p1)" by force
  have s1: "position s \<le> position s1" "p1 = Some (position s1)" "t1 \<in> set requires_progress"
    using watch_step_event [of s t1 p1 s1] st e by simp_all
  have le: "position s1 \<le> position s'" using run
  proof (induction es arbitrary: s1)
    case (Cons e es)
    then show ?case by (cases e) (auto dest!: watch_step_event, force)
  qed simp
  show ?case
  proof (cases "(t, p) = e")
    case True
    then show ?thesis using s1 le e by simp
  next
    case False
    then have "(t, p) \<in> set es" using Cons.prems(3) by simp
    with Cons.IH [OF run] s1 Cons.prems(2) show ?thesis by force
  qed
qed

lemma session_events_length: "length (session_events d) \<le> 6 \<and> session_events d \<noteq> []"
  by (simp add: session_events_def Let_def)

section \<open>The sequence of a batch\<close>

record draws =
  watch_draws :: session_draws
  user_draw :: nat
  movie_draw :: nat
  device_draw :: nat
  session_uuid :: uuid
  base_time :: instant
  gap_draw :: "nat \<Rightarrow> int"
  like_chance :: rat
  like_gap :: int
  search_chance :: rat
  term_draw :: nat
  new_id :: "nat \<Rightarrow> uuid"

definition seconds :: "int \<Rightarrow> instant" where
  "seconds n = n * 1000000"

text \<open>The event with the identity of the batch; its identifier is the \<open>i\<close>-th fresh one.\<close>

definition batch_event :: "draws \<Rightarrow> nat \<Rightarrow> event_type \<Rightarrow> instant \<Rightarrow> int option \<Rightarrow> string option \<Rightarrow> movie_event" where
  "batch_event d i t moment p q =
     \<lparr>event_id = new_id d i, user_id = USERS ! user_draw d, movie_id = MOVIES ! movie_draw d, event_type = t,
      timestamp = Datetime moment (Some 0), device_type = enum_class.enum ! device_draw d,
      session_id = ''session-'' @ session_uuid d, progress_seconds = p, search_query = q, schema_version = 1\<rparr>"

fun append_watch_events ::
  "draws \<Rightarrow> (event_type \<times> int option) list \<Rightarrow> movie_event list \<Rightarrow> instant \<Rightarrow> pipeline_error + movie_event list \<times> instant" where
  "append_watch_events d [] events current_time = Inr (events, current_time)"
| "append_watch_events d ((t, p) # seq) events current_time =
     (case movie_event_in (batch_event d (length events) t current_time p None) of
        Inl e \<Rightarrow> Inl e
      | Inr ev \<Rightarrow>
          (case checked_instant (current_time + seconds (gap_draw d (length events))) of
             Inl e \<Rightarrow> Inl e
           | Inr t' \<Rightarrow> append_watch_events d seq (events @ [ev]) t'))"

definition append_like :: "draws \<Rightarrow> movie_event list \<Rightarrow> instant \<Rightarrow> pipeline_error + movie_event list" where
  "append_like d events current_time =
     (if like_chance d < double (55 / 100)
      then (case checked_instant (current_time + seconds (like_gap d)) of
              Inl e \<Rightarrow> Inl e
            | Inr moment \<Rightarrow>
                (case movie_event_in (batch_event d (length events) LIKED moment (progress_seconds (last events)) None) of
                   Inl e \<Rightarrow> Inl e
                 | Inr ev \<Rightarrow> Inr (events @ [ev])))
      else Inr events)"

definition insert_search :: "draws \<Rightarrow> movie_event list \<Rightarrow> pipeline_error + movie_event list" where
  "insert_search d events =
     (if search_chance d < double (65 / 100)
      then (case checked_instant (base_time d - seconds 30) of
              Inl e \<Rightarrow> Inl e
            | Inr moment \<Rightarrow>
                (case movie_event_in (batch_event d (length events) SEARCHED moment (Some 0) (Some (SEARCH_TERMS ! term_draw d))) of
                   Inl e \<Rightarrow> Inl e
                 | Inr ev \<Rightarrow> Inr (ev # events)))
      else Inr events)"

definition build_synthetic_sequence :: "draws \<Rightarrow> pipeline_error + movie_event list" where
  "build_synthetic_sequence d =
     (case append_watch_events d (session_events (watch_draws d)) [] (base_time d) of
        Inl e \<Rightarrow> Inl e
      | Inr (events, current_time) \<Rightarrow>
          (case append_like d events current_time of
             Inl e \<Rightarrow> Inl e
           | Inr events' \<Rightarrow> insert_search d events'))"

text \<open>
  The ranges of the random numbers, and a clock that is far enough from the ends of the calendar: at
  most six watch events and a like follow, each up to three minutes after the one before.
\<close>

definition draws_in_range :: "draws \<Rightarrow> bool" where
  "draws_in_range d \<longleftrightarrow>
     session_draws_in_range (watch_draws d) \<and>
     user_draw d < length USERS \<and> movie_draw d < length MOVIES \<and> device_draw d < 4 \<and>
     (\<forall>i. gap_draw d i \<in> {20..180}) \<and> like_gap d \<in> {15..180} \<and> term_draw d < length SEARCH_TERMS \<and>
     datetime_min + seconds 30 \<le> base_time d \<and> base_time d \<le> datetime_max - seconds 1260"

subsection \<open>Building it never fails\<close>

lemma USERS_nonempty: "u \<in> set USERS \<Longrightarrow> u \<noteq> []"
  by (auto simp: USERS_def)

lemma MOVIES_nonempty: "m \<in> set MOVIES \<Longrightarrow> m \<noteq> []"
  by (auto simp: MOVIES_def)

lemma SEARCH_TERMS_nonempty: "q \<in> set SEARCH_TERMS \<Longrightarrow> q \<noteq> []"
  by (auto simp: SEARCH_TERMS_def)

definition same_batch :: "draws \<Rightarrow> movie_event \<Rightarrow> bool" where
  "same_batch d ev \<longleftrightarrow>
     user_id ev = USERS ! user_draw d \<and> movie_id ev = MOVIES ! movie_draw d \<and>
     device_type ev = enum_class.enum ! device_draw d \<and> session_id ev = ''session-'' @ session_uuid d"

abbreviation moment_of :: "movie_event \<Rightarrow> instant" where
  "moment_of ev \<equiv> wall (timestamp ev)"

lemma batch_event_same [simp]: "same_batch d (batch_event d i t moment p q)"
  by (simp add: same_batch_def batch_event_def)

lemma batch_event_valid:
  assumes "draws_in_range d" and "in_datetime_range moment"
    and "case p of Some n \<Rightarrow> 0 \<le> n | None \<Rightarrow> t \<in> {LIKED, SEARCHED}"
    and "t = SEARCHED \<Longrightarrow> q \<noteq> None \<and> q \<noteq> Some []"
  shows "valid_event (batch_event d i t moment p q)"
proof -
  have "user_draw d < length USERS" "movie_draw d < length MOVIES"
    using assms(1) by (simp_all add: draws_in_range_def)
  then have "USERS ! user_draw d \<noteq> []" "MOVIES ! movie_draw d \<noteq> []"
    using USERS_nonempty MOVIES_nonempty by (simp_all add: nth_mem)
  with assms show ?thesis by (simp add: valid_event_def batch_event_def split: option.splits)
qed

lemmas batch_event_accepted = valid_event_accepted [OF batch_event_valid]

lemma gap_in_range: "draws_in_range d \<Longrightarrow> 20 \<le> gap_draw d i \<and> gap_draw d i \<le> 180"
  by (auto simp: draws_in_range_def)

lemma append_watch_events_ok:
  assumes d: "draws_in_range d"
    and "\<And>t p. (t, p) \<in> set seq \<Longrightarrow> t \<in> set requires_progress \<and> (\<exists>n. p = Some n \<and> 0 \<le> n)"
    and "base_time d \<le> t0" and "t0 + seconds 180 * int (length seq) \<le> datetime_max"
  shows "\<exists>evs t1. append_watch_events d seq events t0 = Inr (events @ evs, t1) \<and>
    t0 \<le> t1 \<and> t1 \<le> t0 + seconds 180 * int (length seq) \<and>
    map (\<lambda>ev. (event_type ev, progress_seconds ev)) evs = seq \<and>
    sorted_wrt (<) (map moment_of evs) \<and>
    (\<forall>ev\<in>set evs. valid_event ev \<and> same_batch d ev \<and> t0 \<le> moment_of ev \<and> moment_of ev < t1)"
  using assms(2-)
proof (induction seq arbitrary: events t0)
  case Nil
  then show ?case by simp
next
  case (Cons e seq)
  obtain t p where e: "e = (t, p)" by force
  let ?ev = "batch_event d (length events) t t0 p None" and ?t1 = "t0 + seconds (gap_draw d (length events))"
  have gap: "0 < gap_draw d (length events)" "gap_draw d (length events) \<le> 180"
    using gap_in_range [OF d, of "length events"] by simp_all
  have "datetime_min \<le> base_time d" using d by (simp add: draws_in_range_def seconds_def)
  then have range: "in_datetime_range t0" "in_datetime_range ?t1" and fits: "?t1 + seconds 180 * int (length seq) \<le> datetime_max"
    using Cons.prems(2,3) gap by (simp_all add: in_datetime_range_def seconds_def algebra_simps)
  have tp: "t \<in> set requires_progress" "\<exists>n. p = Some n \<and> 0 \<le> n" using Cons.prems(1) [of t p] e by simp_all
  have valid: "valid_event ?ev"
    using tp by (intro batch_event_valid [OF d range(1)]) (auto simp: requires_progress_def)
  have "base_time d \<le> ?t1" using Cons.prems(2) gap by (simp add: seconds_def)
  moreover have "\<And>t p. (t, p) \<in> set seq \<Longrightarrow> t \<in> set requires_progress \<and> (\<exists>n. p = Some n \<and> 0 \<le> n)"
    by (meson list.set_intros(2) Cons.prems(1))
  ultimately obtain evs t1 where rest: "append_watch_events d seq (events @ [?ev]) ?t1 = Inr ((events @ [?ev]) @ evs, t1)"
      "?t1 \<le> t1" "t1 \<le> ?t1 + seconds 180 * int (length seq)"
      "map (\<lambda>ev. (event_type ev, progress_seconds ev)) evs = seq" "sorted_wrt (<) (map moment_of evs)"
      "\<forall>ev\<in>set evs. valid_event ev \<and> same_batch d ev \<and> ?t1 \<le> moment_of ev \<and> moment_of ev < t1"
    using Cons.IH [of ?t1 "events @ [?ev]"] fits by blast
  have ev: "moment_of ?ev = t0" "event_type ?ev = t" "progress_seconds ?ev = p" by (simp_all add: batch_event_def)
  have "append_watch_events d (e # seq) events t0 = Inr (events @ ?ev # evs, t1)"
    using rest(1) by (simp add: e valid_event_accepted [OF valid] checked_instant_def range)
  moreover have "t0 < ?t1" "?t1 \<le> t0 + seconds 180" using gap by (simp_all add: seconds_def)
  moreover have "\<forall>ev\<in>set evs. t0 < moment_of ev"
    using rest(6) \<open>t0 < ?t1\<close> by force
  ultimately show ?case
    using rest(2-6) valid ev
    by (intro exI [of _ "?ev # evs"] exI [of _ t1]) (auto simp: e algebra_simps)
qed

lemma append_like_ok:
  assumes d: "draws_in_range d" and "events \<noteq> []"
    and "\<forall>ev\<in>set events. valid_event ev \<and> same_batch d ev \<and> moment_of ev < t1"
    and "event_type (last events) \<in> set requires_progress"
    and "base_time d \<le> t1" and "t1 + seconds 180 \<le> datetime_max"
  shows "\<exists>likes. append_like d events t1 = Inr (events @ likes) \<and> length likes \<le> 1 \<and>
    (\<forall>ev\<in>set likes. valid_event ev \<and> same_batch d ev \<and> event_type ev = LIKED \<and> t1 < moment_of ev)"
proof (cases "like_chance d < double (55 / 100)")
  case False
  then show ?thesis by (simp add: append_like_def)
next
  case True
  let ?t = "t1 + seconds (like_gap d)" and ?p = "progress_seconds (last events)"
  let ?ev = "batch_event d (length events) LIKED ?t ?p None"
  have gap: "0 < like_gap d" "like_gap d \<le> 180" "datetime_min \<le> base_time d"
    using d by (simp_all add: draws_in_range_def seconds_def)
  then have range: "in_datetime_range ?t"
    using assms(5,6) by (simp add: in_datetime_range_def seconds_def)
  have "valid_event (last events)" using assms(2,3) by simp
  then have "case ?p of Some n \<Rightarrow> 0 \<le> n | None \<Rightarrow> LIKED \<in> {LIKED, SEARCHED}"
    by (auto simp: valid_event_def split: option.splits)
  then have valid: "valid_event ?ev" by (intro batch_event_valid [OF d range]) simp_all
  have "append_like d events t1 = Inr (events @ [?ev])"
    by (simp add: append_like_def True [simplified] checked_instant_def range valid_event_accepted [OF valid])
  moreover have "event_type ?ev = LIKED" "t1 < moment_of ?ev"
    using gap by (simp_all add: batch_event_def seconds_def)
  ultimately show ?thesis using valid by (intro exI [of _ "[?ev]"]) simp
qed

lemma insert_search_ok:
  assumes d: "draws_in_range d"
  shows "\<exists>search. insert_search d events = Inr (search @ events) \<and> length search \<le> 1 \<and>
    (\<forall>ev\<in>set search. valid_event ev \<and> same_batch d ev \<and> event_type ev = SEARCHED \<and> moment_of ev < base_time d)"
proof (cases "search_chance d < double (65 / 100)")
  case False
  then show ?thesis by (simp add: insert_search_def)
next
  case True
  let ?t = "base_time d - seconds 30"
  let ?ev = "batch_event d (length events) SEARCHED ?t (Some 0) (Some (SEARCH_TERMS ! term_draw d))"
  have range: "in_datetime_range ?t"
    using d by (simp add: draws_in_range_def in_datetime_range_def seconds_def)
  have "term_draw d < length SEARCH_TERMS" using d by (simp add: draws_in_range_def)
  then have "SEARCH_TERMS ! term_draw d \<noteq> []" using SEARCH_TERMS_nonempty by (simp add: nth_mem)
  then have valid: "valid_event ?ev" by (intro batch_event_valid [OF d range]) simp_all
  have "insert_search d events = Inr ([?ev] @ events)"
    by (simp add: insert_search_def True [simplified] checked_instant_def range valid_event_accepted [OF valid])
  moreover have "event_type ?ev = SEARCHED" "moment_of ?ev < base_time d"
    by (simp_all add: batch_event_def seconds_def)
  ultimately show ?thesis using valid by (intro exI [of _ "[?ev]"]) simp
qed

lemma synthetic_batch_parts:
  assumes "draws_in_range d"
  shows "\<exists>search evs likes t1. build_synthetic_sequence d = Inr (search @ evs @ likes) \<and>
    base_time d \<le> t1 \<and> length search \<le> 1 \<and> length likes \<le> 1 \<and>
    map (\<lambda>ev. (event_type ev, progress_seconds ev)) evs = session_events (watch_draws d) \<and>
    sorted_wrt (<) (map moment_of evs) \<and>
    (\<forall>ev\<in>set search. valid_event ev \<and> same_batch d ev \<and> event_type ev = SEARCHED \<and> moment_of ev < base_time d) \<and>
    (\<forall>ev\<in>set evs. valid_event ev \<and> same_batch d ev \<and> event_type ev \<in> set requires_progress \<and>
       base_time d \<le> moment_of ev \<and> moment_of ev < t1) \<and>
    (\<forall>ev\<in>set likes. valid_event ev \<and> same_batch d ev \<and> event_type ev = LIKED \<and> t1 < moment_of ev)"
proof -
  let ?seq = "session_events (watch_draws d)"
  have "session_draws_in_range (watch_draws d)" using assms by (simp add: draws_in_range_def)
  then obtain s where run: "watch_run Idle ?seq s"
    using session_is_watch_run by blast
  have watch: "t \<in> set requires_progress \<and> (\<exists>n. p = Some n \<and> 0 \<le> n)" if "(t, p) \<in> set ?seq" for t p
    using watch_run_events [OF run _ that] by force
  have len: "int (length ?seq) \<le> 6" "?seq \<noteq> []" using session_events_length [of "watch_draws d"] by simp_all
  have late: "base_time d \<le> datetime_max - seconds 1260" using assms by (simp add: draws_in_range_def)
  with len(1) have fits: "base_time d + seconds 180 * int (length ?seq) \<le> datetime_max" by (simp add: seconds_def)
  obtain evs t1 where evs: "append_watch_events d ?seq [] (base_time d) = Inr (evs, t1)" "base_time d \<le> t1"
      "t1 \<le> base_time d + seconds 180 * int (length ?seq)"
      "map (\<lambda>ev. (event_type ev, progress_seconds ev)) evs = ?seq" "sorted_wrt (<) (map moment_of evs)"
      "\<forall>ev\<in>set evs. valid_event ev \<and> same_batch d ev \<and> base_time d \<le> moment_of ev \<and> moment_of ev < t1"
    using append_watch_events_ok [OF assms watch order.refl fits, of "[]"] by auto
  have ne: "evs \<noteq> []" using evs(4) len by auto
  have prog: "event_type ev \<in> set requires_progress" if "ev \<in> set evs" for ev
  proof -
    have "(event_type ev, progress_seconds ev) \<in> set ?seq"
      unfolding evs(4) [symmetric] using that by simp
    then show ?thesis using watch by blast
  qed
  have "t1 + seconds 180 \<le> datetime_max" using evs(3) len(1) late by (simp add: seconds_def)
  moreover have "\<forall>ev\<in>set evs. valid_event ev \<and> same_batch d ev \<and> moment_of ev < t1" using evs(6) by blast
  ultimately obtain likes where likes: "append_like d evs t1 = Inr (evs @ likes)" "length likes \<le> 1"
      "\<forall>ev\<in>set likes. valid_event ev \<and> same_batch d ev \<and> event_type ev = LIKED \<and> t1 < moment_of ev"
    using append_like_ok [OF assms ne _ prog [OF last_in_set [OF ne]] evs(2)] by blast
  obtain search where search: "insert_search d (evs @ likes) = Inr (search @ evs @ likes)" "length search \<le> 1"
      "\<forall>ev\<in>set search. valid_event ev \<and> same_batch d ev \<and> event_type ev = SEARCHED \<and> moment_of ev < base_time d"
    using insert_search_ok [OF assms] by blast
  have "build_synthetic_sequence d = Inr (search @ evs @ likes)"
    by (simp add: build_synthetic_sequence_def evs(1) likes(1) search(1))
  with evs likes search prog show ?thesis by blast
qed

lemma synthetic_batch_valid:
  assumes "draws_in_range d"
  shows "\<exists>batch. build_synthetic_sequence d = Inr batch \<and> list_all valid_event batch"
  using synthetic_batch_parts [OF assms] by (force simp: list_all_iff)

text \<open>
  C32: Whatever the random numbers, the generator builds a batch without an error: between one and
  eight valid events of one user, movie, device and session, in strictly increasing order of time,
  whose watch events are a run of the player: started first, paused and resumed in turn, finished last,
  the position growing up to at most 8000 seconds.
\<close>

theorem synthetic_sequence_valid:
  assumes "draws_in_range d"
  shows "\<exists>evs s. build_synthetic_sequence d = Inr evs \<and> evs \<noteq> [] \<and> length evs \<le> 8 \<and>
    list_all valid_event evs \<and> list_all (same_batch d) evs \<and> sorted_wrt (<) (map moment_of evs) \<and>
    watch_run Idle (map (\<lambda>ev. (event_type ev, progress_seconds ev))
      (filter (\<lambda>ev. event_type ev \<in> set requires_progress) evs)) s \<and> position s \<le> 8000"
proof -
  let ?seq = "session_events (watch_draws d)"
  obtain s where run: "watch_run Idle ?seq s" and pos: "position s \<le> 8000"
    using session_is_watch_run assms by (auto simp: draws_in_range_def)
  obtain search evs likes t1 where build: "build_synthetic_sequence d = Inr (search @ evs @ likes)"
    and len: "base_time d \<le> t1" "length search \<le> 1" "length likes \<le> 1"
    and evs: "map (\<lambda>ev. (event_type ev, progress_seconds ev)) evs = ?seq" "sorted_wrt (<) (map moment_of evs)"
    and search: "\<forall>ev\<in>set search. valid_event ev \<and> same_batch d ev \<and> event_type ev = SEARCHED \<and> moment_of ev < base_time d"
    and watch: "\<forall>ev\<in>set evs. valid_event ev \<and> same_batch d ev \<and> event_type ev \<in> set requires_progress \<and>
       base_time d \<le> moment_of ev \<and> moment_of ev < t1"
    and likes: "\<forall>ev\<in>set likes. valid_event ev \<and> same_batch d ev \<and> event_type ev = LIKED \<and> t1 < moment_of ev"
    using synthetic_batch_parts [OF assms] by blast
  have "length evs = length ?seq" using evs(1) by (metis length_map)
  then have "search @ evs @ likes \<noteq> []" "length (search @ evs @ likes) \<le> 8"
    using session_events_length [of "watch_draws d"] len(2,3) by auto
  moreover have "filter (\<lambda>ev. event_type ev \<in> set requires_progress) (search @ evs @ likes) = evs"
    using likes search watch by (auto simp: filter_empty_conv requires_progress_def intro!: filter_True)
  then have "watch_run Idle (map (\<lambda>ev. (event_type ev, progress_seconds ev))
      (filter (\<lambda>ev. event_type ev \<in> set requires_progress) (search @ evs @ likes))) s"
    using run evs(1) by simp
  moreover have "sorted_wrt (<) (map moment_of (search @ evs @ likes))"
    using likes search watch len evs(2)
    by (cases likes; cases search) (force simp: sorted_wrt_append)+
  moreover have "list_all valid_event (search @ evs @ likes)" "list_all (same_batch d) (search @ evs @ likes)"
    using likes search watch by (auto simp: list_all_iff)
  ultimately show ?thesis using build pos by blast
qed

definition sample_draws :: draws where
  "sample_draws =
     \<lparr>watch_draws = \<lparr>finish_draw = 3600, pause_draw = 1800, resume_draw = 900, pause_chance = 1 / 2, second_chance = 1 / 5,
        second_pause_draw = 1200, second_resume_draw = 600, finish_chance = 0\<rparr>,
      user_draw = 199, movie_draw = 0, device_draw = 3, session_uuid = ''s'', base_time = 1776800000000000,
      gap_draw = (\<lambda>i. 20 + int (i mod 160)), like_chance = 0, like_gap = 15, search_chance = 0, term_draw = 19,
      new_id = (\<lambda>i. ''e'' @ str_int (int i))\<rparr>"

lemma sample_draws_in_range: "draws_in_range sample_draws"
proof -
  have "int (i mod 160) \<le> 160" for i :: nat
    using mod_less_divisor [of 160 i] by simp
  then show ?thesis
    by (simp add: draws_in_range_def sample_draws_def session_draws_in_range_def USERS_def MOVIES_def SEARCH_TERMS_def
        datetime_min_def datetime_max_def seconds_def)
qed

theorem synthetic_sequence_valid_witness:
  "\<exists>evs. build_synthetic_sequence sample_draws = Inr evs \<and> evs \<noteq> [] \<and> length evs \<le> 8 \<and> list_all valid_event evs"
  using synthetic_sequence_valid [OF sample_draws_in_range] by blast

end
