(* ===== verification/Event_Publisher.thy ===== *)
theory Event_Publisher
  imports Event_Generator Retry "HOL-Library.Word"
begin

text \<open>
  Publishing events (dz_5/producer-service/app/schema_registry.py, kafka_client.py, main.py, config.py
  and the loop of generator.py): the client of the schema registry with its cached schema, the framing
  of a message, the publisher with its retries, the endpoint that creates an event, the background
  generator. Kafka, the registry and the Avro writer are parameters, as is tenacity's decorator,
  of which the properties assume the laws of the locale \<open>tenacity\<close>.
\<close>

section \<open>Settings\<close>

record producer_settings =
  app_host :: string
  app_port :: int
  kafka_bootstrap_servers :: string
  schema_registry_url :: string
  kafka_topic :: string
  kafka_acks :: string
  producer_partition_key :: string
  generator_enabled :: bool
  generator_interval_seconds :: rat

definition default_producer_settings :: "string \<Rightarrow> string \<Rightarrow> producer_settings" where
  "default_producer_settings servers url =
     \<lparr>app_host = ''0.0.0.0'', app_port = 8000, kafka_bootstrap_servers = servers, schema_registry_url = url,
      kafka_topic = ''movie-events'', kafka_acks = ''all'', producer_partition_key = ''user_id'',
      generator_enabled = False, generator_interval_seconds = 3 / 2\<rparr>"

section \<open>State and parameters\<close>

type_synonym bytes = "8 word list"

record ('w, 's) publisher =
  configuration :: producer_settings
  base_url :: string
  subject :: string
  schema_cache :: "(int \<times> 's) option"
  world :: 'w

text \<open>
  \<open>registry_get\<close> is the GET request with the check of its status and the parsing of the schema;
  \<open>avro_write\<close> is \<open>schemaless_writer\<close>; \<open>send\<close> is \<open>produce\<close> followed by \<open>flush(10)\<close> and returns the
  reports that the delivery callback of the message was called with, \<open>None\<close> for a delivery. There is
  no report when the ten seconds are over first. The key is handed over as a text.
\<close>

record ('w, 's) kafka_library =
  retrying :: "nat \<Rightarrow> (('w, 's) publisher, string) action \<Rightarrow> (('w, 's) publisher, string) action"
  registry_get :: "string \<Rightarrow> ('w, int \<times> 's) action"
  avro_write :: "'s \<Rightarrow> (string \<times> avro_value) list \<Rightarrow> pipeline_error + bytes"
  send :: "string \<Rightarrow> string \<Rightarrow> bytes \<Rightarrow> ('w, string option list) action"

section \<open>The client of the schema registry\<close>

definition rstrip :: "char \<Rightarrow> string \<Rightarrow> string" where
  "rstrip c s = rev (dropWhile (\<lambda>x. x = c) (rev s))"

definition registry_url :: "('w, 's) publisher \<Rightarrow> string" where
  "registry_url p = base_url p @ ''/subjects/'' @ subject p @ ''/versions/latest''"

definition latest_schema :: "('w, 's) kafka_library \<Rightarrow> (('w, 's) publisher, int \<times> 's) action" where
  "latest_schema K p =
     (case schema_cache p of
        Some s \<Rightarrow> (Inr s, p)
      | None \<Rightarrow>
          (case registry_get K (registry_url p) (world p) of
             (Inl e, w) \<Rightarrow> (Inl e, p\<lparr>world := w\<rparr>)
           | (Inr s, w) \<Rightarrow> (Inr s, p\<lparr>world := w, schema_cache := Some s\<rparr>)))"

text \<open>\<open>struct.pack(">bI", 0, schema_id)\<close>: a zero byte and four bytes, most significant first.\<close>

definition pack_header :: "int \<Rightarrow> pipeline_error + bytes" where
  "pack_header n =
     (if 0 \<le> n \<and> n < 2 ^ 32
      then Inr [0, word_of_int (n div 2 ^ 24), word_of_int (n div 2 ^ 16), word_of_int (n div 2 ^ 8), word_of_int n]
      else Inl StructError)"

definition encode :: "('w, 's) kafka_library \<Rightarrow> (string \<times> avro_value) list \<Rightarrow> (('w, 's) publisher, bytes) action" where
  "encode K payload p =
     (case latest_schema K p of
        (Inl e, p1) \<Rightarrow> (Inl e, p1)
      | (Inr (schema_id, schema), p1) \<Rightarrow>
          (case pack_header schema_id of
             Inl e \<Rightarrow> (Inl e, p1)
           | Inr header \<Rightarrow>
               (case avro_write K schema payload of
                  Inl e \<Rightarrow> (Inl e, p1)
                | Inr body \<Rightarrow> (Inr (header @ body), p1))))"

text \<open>What a consumer reads from the head of a message, as the wire format of the registry defines it.\<close>

fun read_header :: "bytes \<Rightarrow> (int \<times> bytes) option" where
  "read_header (m # a # b # c # d # body) =
     (if m = 0 then Some (((uint a * 256 + uint b) * 256 + uint c) * 256 + uint d, body) else None)"
| "read_header _ = None"

lemma read_pack_header:
  assumes "pack_header n = Inr header"
  shows "read_header (header @ body) = Some (n, body)"
proof -
  have n: "0 \<le> n" "n < 4294967296" and header: "header = [0, word_of_int (n div 16777216), word_of_int (n div 65536), word_of_int (n div 256), word_of_int n]"
    using assms by (simp_all add: pack_header_def split: if_splits)
  define c b where "c = n div 256" and "b = c div 256"
  have b: "n div 65536 = b" and a: "n div 16777216 = b div 256"
    by (simp_all add: b_def c_def zdiv_zmult2_eq [symmetric])
  have "0 \<le> b div 256" "b div 256 < 256" using n unfolding a [symmetric] by simp_all
  then have "b div 256 mod 256 = b div 256" by simp
  then have id: "(((n div 16777216 mod 256) * 256 + n div 65536 mod 256) * 256 + n div 256 mod 256) * 256 + n mod 256 = n"
    unfolding a b c_def [symmetric] by (simp add: b_def) (simp add: c_def)
  have byte: "uint (word_of_int x :: 8 word) = x mod 256" for x
    by (simp add: uint_word_of_int)
  show ?thesis unfolding header append.simps read_header.simps byte id by (simp only: if_True refl append_Nil)
qed

section \<open>The publisher\<close>

definition new_publisher :: "producer_settings \<Rightarrow> 'w \<Rightarrow> ('w, 's) publisher" where
  "new_publisher cfg w =
     \<lparr>configuration = cfg, base_url = rstrip (CHR ''/'') (schema_registry_url cfg), subject = kafka_topic cfg @ ''-value'',
      schema_cache = None, world = w\<rparr>"

definition partition_key :: "('w, 's) publisher \<Rightarrow> movie_event \<Rightarrow> string" where
  "partition_key p ev =
     (if producer_partition_key (configuration p) = ''movie_id'' then movie_id ev else user_id ev)"

text \<open>The errors that the callback collects are the reports that are not \<open>None\<close>; the first one is raised.\<close>

definition delivery_errors :: "string option list \<Rightarrow> string list" where
  "delivery_errors reports = List.map_filter (\<lambda>r. r) reports"

definition publish_once :: "('w, 's) kafka_library \<Rightarrow> movie_event \<Rightarrow> (('w, 's) publisher, string) action" where
  "publish_once K ev p =
     (let key = partition_key p ev in
      case encode K (to_avro_dict ev) p of
        (Inl e, p1) \<Rightarrow> (Inl e, p1)
      | (Inr payload, p1) \<Rightarrow>
          (case send K (kafka_topic (configuration p1)) key payload (world p1) of
             (Inl e, w) \<Rightarrow> (Inl e, p1\<lparr>world := w\<rparr>)
           | (Inr reports, w) \<Rightarrow>
               (case delivery_errors reports of
                  [] \<Rightarrow> (Inr key, p1\<lparr>world := w\<rparr>)
                | err # _ \<Rightarrow> (Inl (ClientError err), p1\<lparr>world := w\<rparr>))))"

definition publish :: "('w, 's) kafka_library \<Rightarrow> movie_event \<Rightarrow> (('w, 's) publisher, string) action" where
  "publish K ev = retrying K 5 (publish_once K ev)"

definition safe_publish :: "('w, 's) kafka_library \<Rightarrow> movie_event \<Rightarrow> (('w, 's) publisher, string) action" where
  "safe_publish K ev = publish K ev"

section \<open>The service\<close>

record publish_response =
  resp_event_id :: uuid
  resp_topic :: string
  resp_partition_key :: string

text \<open>An \<open>HTTPException\<close> has a status and, as its detail, the text of the exception it is raised from.\<close>

datatype http_exception = HTTPException int pipeline_error

definition create_event ::
  "('w, 's) kafka_library \<Rightarrow> movie_event \<Rightarrow> ('w, 's) publisher \<Rightarrow> (http_exception + publish_response) \<times> ('w, 's) publisher" where
  "create_event K ev p =
     (case safe_publish K ev p of
        (Inl e, p') \<Rightarrow> (Inl (HTTPException 502 e), p')
      | (Inr key, p') \<Rightarrow>
          (Inr \<lparr>resp_event_id = event_id ev, resp_topic = kafka_topic (configuration p'), resp_partition_key = key\<rparr>, p'))"

text \<open>The background task: in each round a batch is built and its events are published in order.\<close>

fun publish_batch :: "('w, 's) kafka_library \<Rightarrow> movie_event list \<Rightarrow> (('w, 's) publisher, unit) action" where
  "publish_batch K [] p = (Inr (), p)"
| "publish_batch K (ev # evs) p =
     (case safe_publish K ev p of
        (Inl e, p') \<Rightarrow> (Inl e, p')
      | (Inr _, p') \<Rightarrow> publish_batch K evs p')"

fun generator_loop :: "('w, 's) kafka_library \<Rightarrow> draws list \<Rightarrow> (('w, 's) publisher, unit) action" where
  "generator_loop K [] p = (Inr (), p)"
| "generator_loop K (d # ds) p =
     (case build_synthetic_sequence d of
        Inl e \<Rightarrow> (Inl e, p)
      | Inr batch \<Rightarrow>
          (case publish_batch K batch p of
             (Inl e, p') \<Rightarrow> (Inl e, p')
           | (Inr _, p') \<Rightarrow> generator_loop K ds p'))"

text \<open>The tasks of the startup event: the generator, when it is enabled, with its interval.\<close>

definition startup_event :: "producer_settings \<Rightarrow> rat list" where
  "startup_event cfg = (if generator_enabled cfg then [generator_interval_seconds cfg] else [])"

section \<open>Properties\<close>

lemma latest_schema_configuration: "latest_schema K p = (r, p') \<Longrightarrow> configuration p' = configuration p"
  by (auto simp: latest_schema_def split: option.splits prod.splits sum.splits)

lemma encode_configuration: "encode K d p = (r, p') \<Longrightarrow> configuration p' = configuration p"
  by (auto simp: encode_def dest: latest_schema_configuration split: prod.splits sum.splits)

lemma publish_once_configuration [frame_simps]: "configuration (snd (publish_once K ev p)) = configuration p"
  by (auto simp: publish_once_def Let_def dest: encode_configuration split: prod.splits sum.splits list.splits)

lemma latest_schema_cached: "latest_schema K p = (Inr s, p') \<Longrightarrow> schema_cache p' = Some s"
  by (auto simp: latest_schema_def split: option.splits prod.splits sum.splits)

text \<open>The header has the identifier of the schema that the body is written with, both from the registry.\<close>

lemma encode_frame:
  assumes "encode K d p = (Inr msg, p')"
  shows "\<exists>i schema body. schema_cache p' = Some (i, schema) \<and> read_header msg = Some (i, body) \<and> avro_write K schema d = Inr body"
proof -
  obtain i schema header body where "latest_schema K p = (Inr (i, schema), p')" "pack_header i = Inr header"
    "avro_write K schema d = Inr body" "msg = header @ body"
    using assms by (auto simp: encode_def split: prod.splits sum.splits)
  then show ?thesis using read_pack_header latest_schema_cached by metis
qed

text \<open>
  A message with the record of the event, framed, was handed over and no report of it was an error: the
  identifier in its header and the schema of its body are the pair that the client keeps.
\<close>

definition sent_message :: "('w, 's) kafka_library \<Rightarrow> movie_event \<Rightarrow> string \<Rightarrow> string \<Rightarrow> ('w, 's) publisher \<Rightarrow> bool" where
  "sent_message K ev topic key p' \<longleftrightarrow>
     (\<exists>msg i schema body reports w.
        send K topic key msg w = (Inr reports, world p') \<and> delivery_errors reports = [] \<and>
        schema_cache p' = Some (i, schema) \<and>
        read_header msg = Some (i, body) \<and> avro_write K schema (to_avro_dict ev) = Inr body)"

lemma publish_once_sends:
  assumes "publish_once K ev p = (Inr key, p')"
  shows "key = partition_key p ev \<and> sent_message K ev (kafka_topic (configuration p)) key p'"
proof -
  obtain msg p1 where enc: "encode K (to_avro_dict ev) p = (Inr msg, p1)"
    using assms by (auto simp: publish_once_def Let_def split: prod.splits sum.splits)
  obtain reports where sent: "send K (kafka_topic (configuration p1)) (partition_key p ev) msg (world p1) = (Inr reports, world p')"
      "delivery_errors reports = []" "key = partition_key p ev" "schema_cache p' = schema_cache p1"
    using assms enc by (auto simp: publish_once_def Let_def split: prod.splits sum.splits list.splits)
  moreover obtain i schema body where "schema_cache p1 = Some (i, schema)" "read_header msg = Some (i, body)"
    "avro_write K schema (to_avro_dict ev) = Inr body"
    using encode_frame [OF enc] by blast
  moreover have "configuration p1 = configuration p" using enc by (rule encode_configuration)
  ultimately show ?thesis unfolding sent_message_def by metis
qed

text \<open>
  C35: Posting an event ends after at most five attempts. It succeeds with the first attempt that does:
  then a message was handed to Kafka under the configured key, its header names the schema its body was
  written with, the body is the Avro record of the event, and no delivery error was reported. When all
  five fail, the answer is 502 with the error of the fifth.
\<close>

theorem create_event_outcome:
  assumes "tenacity (retrying K)"
  shows "\<exists>k<5. (\<forall>j<k. isl (fst (publish_once K ev (state_after j (publish_once K ev) p)))) \<and>
    (case create_event K ev p of
       (Inr resp, p') \<Rightarrow>
         resp_event_id resp = event_id ev \<and> resp_topic resp = kafka_topic (configuration p) \<and>
         resp_partition_key resp = partition_key p ev \<and>
         publish_once K ev (state_after k (publish_once K ev) p) = (Inr (resp_partition_key resp), p') \<and>
         sent_message K ev (resp_topic resp) (resp_partition_key resp) p'
     | (Inl err, p') \<Rightarrow>
         k = 4 \<and> (\<exists>e. publish_once K ev (state_after k (publish_once K ev) p) = (Inl e, p') \<and> err = HTTPException 502 e))"
proof -
  let ?f = "publish_once K ev"
  obtain k where k: "k < 5" "\<forall>j<k. isl (fst (?f (state_after j ?f p)))" "publish K ev p = ?f (state_after k ?f p)"
      "isl (fst (?f (state_after k ?f p))) \<longrightarrow> k = 4"
    using tenacity.outcome [OF assms, of 5 ?f p] by (auto simp: publish_def)
  have cfg: "configuration (state_after k ?f p) = configuration p"
    by (rule state_after_keeps [where I = "\<lambda>q. configuration q = configuration p"]) (simp_all add: frame_simps)
  obtain r p' where r: "?f (state_after k ?f p) = (r, p')" by force
  with publish_once_configuration [of K ev "state_after k ?f p"] cfg
  have cfg': "configuration p' = configuration p" by simp
  show ?thesis
  proof (cases r)
    case (Inl e)
    with k r show ?thesis by (intro exI [of _ k]) (auto simp: create_event_def safe_publish_def)
  next
    case (Inr key)
    have "partition_key (state_after k ?f p) ev = partition_key p ev" by (simp add: partition_key_def cfg)
    then have "key = partition_key p ev" "sent_message K ev (kafka_topic (configuration p)) key p'"
      using publish_once_sends [OF r [unfolded Inr]] unfolding cfg by auto
    then show ?thesis
      using k r by (intro exI [of _ k]) (simp add: create_event_def safe_publish_def Inr cfg')
  qed
qed

text \<open>A cluster that is back at the third attempt.\<close>

definition sample_kafka :: "(nat, unit) kafka_library" where
  "sample_kafka =
     \<lparr>retrying = attempts, registry_get = (\<lambda>_ w. (Inr (1, ()), w)), avro_write = (\<lambda>_ _. Inr [2]),
      send = (\<lambda>_ _ _ w. if w < 2 then (Inl (ClientError ''down''), w + 1) else (Inr [None], w + 1))\<rparr>"

definition sample_publisher :: "nat \<Rightarrow> (nat, unit) publisher" where
  "sample_publisher = new_publisher (default_producer_settings ''kafka-1:9092'' ''http://schema-registry:8081/'')"

lemma sample_kafka_retrying: "tenacity (retrying sample_kafka)"
  using bounded.tenacity_axioms by (simp add: sample_kafka_def)

theorem create_event_outcome_witness:
  "\<exists>k<5. k = 2 \<and> publish_once sample_kafka sample_event
     (state_after k (publish_once sample_kafka sample_event) (sample_publisher 0)) =
       (Inr ''user-1'', snd (create_event sample_kafka sample_event (sample_publisher 0)))"
proof -
  let ?f = "publish_once sample_kafka sample_event"
  have run: "fst (create_event sample_kafka sample_event (sample_publisher 0)) =
      Inr \<lparr>resp_event_id = ''e1'', resp_topic = ''movie-events'', resp_partition_key = ''user-1''\<rparr>"
    by code_simp
  have tries: "isl (fst (?f (state_after 0 ?f (sample_publisher 0))))" "isl (fst (?f (state_after 1 ?f (sample_publisher 0))))"
    "\<not> isl (fst (?f (state_after 2 ?f (sample_publisher 0))))"
    by code_simp+
  have c: "create_event sample_kafka sample_event (sample_publisher 0) =
      (Inr \<lparr>resp_event_id = ''e1'', resp_topic = ''movie-events'', resp_partition_key = ''user-1''\<rparr>,
       snd (create_event sample_kafka sample_event (sample_publisher 0)))"
    unfolding run [symmetric] by simp
  obtain k where k: "k < 5" "\<forall>j<k. isl (fst (?f (state_after j ?f (sample_publisher 0))))"
      "?f (state_after k ?f (sample_publisher 0)) = (Inr ''user-1'', snd (create_event sample_kafka sample_event (sample_publisher 0)))"
    using create_event_outcome [OF sample_kafka_retrying, of sample_event "sample_publisher 0"]
    by (subst (asm) c) auto
  have "\<not> isl (fst (?f (state_after k ?f (sample_publisher 0))))" unfolding k(3) by simp
  then have "k \<noteq> 0" "k \<noteq> 1" using tries(1,2) by metis+
  moreover have "\<not> 2 < k" using k(2) tries(3) by blast
  ultimately have "k = 2" by simp
  with k show ?thesis by blast
qed

text \<open>
  A flush that ends without a report counts as success: the answer is positive although nothing
  confirms the delivery.
\<close>

lemma unconfirmed_delivery_accepted:
  "fst (create_event (sample_kafka\<lparr>send := \<lambda>_ _ _ w. (Inr [], w)\<rparr>) sample_event (sample_publisher 0)) =
     Inr \<lparr>resp_event_id = ''e1'', resp_topic = ''movie-events'', resp_partition_key = ''user-1''\<rparr>"
  by code_simp

text \<open>
  The generator only stops because a publication used up its attempts, and then it stops for good: the
  rounds after it are not run.
\<close>

lemma publish_batch_error:
  "publish_batch K evs p = (Inl e, p') \<Longrightarrow> \<exists>ev\<in>set evs. \<exists>q. safe_publish K ev q = (Inl e, p')"
  by (induction evs arbitrary: p) (auto split: prod.splits sum.splits)

lemma generator_loop_error:
  assumes "generator_loop K ds p = (Inl e, p')" and "\<And>d. d \<in> set ds \<Longrightarrow> draws_in_range d"
  shows "\<exists>ev q. valid_event ev \<and> safe_publish K ev q = (Inl e, p')"
  using assms
proof (induction ds arbitrary: p)
  case Nil
  then show ?case by simp
next
  case (Cons d ds)
  obtain batch where batch: "build_synthetic_sequence d = Inr batch" "list_all valid_event batch"
    using synthetic_batch_valid [of d] Cons.prems(2) by auto
  obtain r q where r: "publish_batch K batch p = (r, q)" by force
  show ?case
  proof (cases r)
    case (Inl e1)
    with r batch(1) Cons.prems(1) have "publish_batch K batch p = (Inl e, p')" by simp
    from publish_batch_error [OF this] batch(2) show ?thesis by (auto simp: list_all_iff)
  next
    case (Inr u)
    with r batch(1) Cons.prems(1) have "generator_loop K ds q = (Inl e, p')" by simp
    then show ?thesis using Cons.IH Cons.prems(2) by simp
  qed
qed

end
