(* ===== verification/Env_Settings.thy ===== *)
theory Env_Settings
  imports Security Event_Publisher
begin

text \<open>
  The settings of the three services that read them from the environment (app/src/core/config.py of the
  marketplace, producer-service/app/config.py and aggregation-service/app/config.py of dz_5) as pydantic
  builds them: a field from the variable of its name, whatever its case, or from its default; the errors
  of all fields together. How a text is read as a number or a truth value is pydantic's and a parameter.
\<close>

section \<open>Fields\<close>

record parsers =
  parse_int :: "string \<Rightarrow> int option"
  parse_float :: "string \<Rightarrow> rat option"
  parse_bool :: "string \<Rightarrow> bool option"

type_synonym environ = "(string \<times> string) list"

datatype settings_error = Missing string | Unparsable string | ExtraForbidden string

text \<open>The variables by their names in lower case; of two that differ in case only, the later one.\<close>

definition env_value :: "environ \<Rightarrow> string \<Rightarrow> string option" where
  "env_value env name = map_of (rev (map (\<lambda>(k, v). (lower_case k, v)) env)) name"

definition read_field ::
  "(string \<Rightarrow> string option) \<Rightarrow> (string \<Rightarrow> 'a option) \<Rightarrow> string \<Rightarrow> 'a option \<Rightarrow> settings_error list + 'a" where
  "read_field values parse name dflt =
     (case values name of
        None \<Rightarrow> (case dflt of Some d \<Rightarrow> Inr d | None \<Rightarrow> Inl [Missing name])
      | Some t \<Rightarrow> (case parse t of Some v \<Rightarrow> Inr v | None \<Rightarrow> Inl [Unparsable name]))"

text \<open>The class takes one field after the other, and collects what is wrong with them.\<close>

definition errors_of :: "'e list + 'a \<Rightarrow> 'e list" where
  "errors_of r = (case r of Inl es \<Rightarrow> es | Inr _ \<Rightarrow> [])"

definition with_field :: "'e list + ('a \<Rightarrow> 'b) \<Rightarrow> 'e list + 'a \<Rightarrow> 'e list + 'b" where
  "with_field r x =
     (case r of
        Inl es \<Rightarrow> Inl (es @ errors_of x)
      | Inr f \<Rightarrow> (case x of Inl es \<Rightarrow> Inl es | Inr v \<Rightarrow> Inr (f v)))"

text \<open>Texts are taken as they are.\<close>

abbreviation text_field :: "(string \<Rightarrow> string option) \<Rightarrow> string \<Rightarrow> string option \<Rightarrow> settings_error list + string" where
  "text_field values \<equiv> read_field values Some"

section \<open>The marketplace\<close>

text \<open>
  The file \<open>.env\<close> has the values of variables that are not set. Other than the environment, of which
  the rest is ignored, it may have no variable that is not a field: each is an error, in the order of the
  file and after those of the fields.
\<close>

definition env_or_file :: "environ \<Rightarrow> environ \<Rightarrow> string \<Rightarrow> string option" where
  "env_or_file env file name = (case env_value env name of Some v \<Rightarrow> Some v | None \<Rightarrow> env_value file name)"

definition settings_fields :: "string list" where
  "settings_fields =
     [''app_env'', ''database_url'', ''jwt_secret_key'', ''jwt_refresh_secret_key'', ''access_token_expires_minutes'',
      ''refresh_token_expires_days'', ''order_rate_limit_minutes'']"

definition extra_variables :: "string list \<Rightarrow> environ \<Rightarrow> settings_error list" where
  "extra_variables fields_list file =
     map ExtraForbidden (rev (remdups (rev (filter (\<lambda>k. k \<notin> set fields_list) (map (\<lambda>(k, v). lower_case k) file)))))"

definition forbid_extra :: "settings_error list \<Rightarrow> settings_error list + 'a \<Rightarrow> settings_error list + 'a" where
  "forbid_extra extras r = (if extras = [] then r else Inl (errors_of r @ extras))"

definition load_settings :: "parsers \<Rightarrow> environ \<Rightarrow> environ \<Rightarrow> settings_error list + settings" where
  "load_settings P env file =
     (let values = env_or_file env file in
      forbid_extra (extra_variables settings_fields file)
      (with_field (with_field (with_field (with_field (with_field (with_field (with_field (Inr settings.make)
        (text_field values ''app_env'' (Some (app_env default_settings))))
        (text_field values ''database_url'' (Some (database_url default_settings))))
        (text_field values ''jwt_secret_key'' (Some (jwt_secret_key default_settings))))
        (text_field values ''jwt_refresh_secret_key'' (Some (jwt_refresh_secret_key default_settings))))
        (read_field values (parse_int P) ''access_token_expires_minutes'' (Some (access_token_expires_minutes default_settings))))
        (read_field values (parse_int P) ''refresh_token_expires_days'' (Some (refresh_token_expires_days default_settings))))
        (read_field values (parse_int P) ''order_rate_limit_minutes'' (Some (order_rate_limit_minutes default_settings)))))"

section \<open>The producer service\<close>

definition load_producer_settings :: "parsers \<Rightarrow> environ \<Rightarrow> settings_error list + producer_settings" where
  "load_producer_settings P env =
     (let values = env_value env; defaults = default_producer_settings [] [] in
      with_field (with_field (with_field (with_field (with_field (with_field (with_field (with_field (with_field
        (Inr producer_settings.make)
        (text_field values ''app_host'' (Some (app_host defaults))))
        (read_field values (parse_int P) ''app_port'' (Some (app_port defaults))))
        (text_field values ''kafka_bootstrap_servers'' None))
        (text_field values ''schema_registry_url'' None))
        (text_field values ''kafka_topic'' (Some (kafka_topic defaults))))
        (text_field values ''kafka_acks'' (Some (kafka_acks defaults))))
        (text_field values ''producer_partition_key'' (Some (producer_partition_key defaults))))
        (read_field values (parse_bool P) ''generator_enabled'' (Some (generator_enabled defaults))))
        (read_field values (parse_float P) ''generator_interval_seconds'' (Some (generator_interval_seconds defaults))))"

section \<open>The aggregation service\<close>

record aggregation_settings =
  as_app_host :: string
  as_app_port :: int
  clickhouse_url :: string
  clickhouse_user :: string
  clickhouse_password :: string
  clickhouse_database :: string
  postgres_dsn :: string
  aggregation_schedule_minutes :: int
  export_schedule_minutes :: int
  minio_endpoint :: string
  minio_access_key :: string
  minio_secret_key :: string
  minio_bucket :: string
  minio_secure :: bool

definition load_aggregation_settings :: "parsers \<Rightarrow> environ \<Rightarrow> settings_error list + aggregation_settings" where
  "load_aggregation_settings P env =
     (let values = env_value env in
      with_field (with_field (with_field (with_field (with_field (with_field (with_field
      (with_field (with_field (with_field (with_field (with_field (with_field (with_field
        (Inr aggregation_settings.make)
        (text_field values ''app_host'' (Some ''0.0.0.0'')))
        (read_field values (parse_int P) ''app_port'' (Some 8001)))
        (text_field values ''clickhouse_url'' None))
        (text_field values ''clickhouse_user'' None))
        (text_field values ''clickhouse_password'' None))
        (text_field values ''clickhouse_database'' (Some ''movie_analytics'')))
        (text_field values ''postgres_dsn'' None))
        (read_field values (parse_int P) ''aggregation_schedule_minutes'' (Some 5)))
        (read_field values (parse_int P) ''export_schedule_minutes'' (Some 10)))
        (text_field values ''minio_endpoint'' None))
        (text_field values ''minio_access_key'' None))
        (text_field values ''minio_secret_key'' None))
        (text_field values ''minio_bucket'' (Some ''movie-analytics'')))
        (read_field values (parse_bool P) ''minio_secure'' (Some False)))"

section \<open>The cached settings\<close>

text \<open>\<open>lru_cache(maxsize=1)\<close> on \<open>get_settings\<close>: a result is kept, an exception is not.\<close>

definition get_settings :: "(environ \<Rightarrow> settings_error list + 'a) \<Rightarrow> environ \<Rightarrow> 'a option \<Rightarrow> (settings_error list + 'a) \<times> 'a option" where
  "get_settings load env cache =
     (case cache of
        Some s \<Rightarrow> (Inr s, cache)
      | None \<Rightarrow> (case load env of Inl es \<Rightarrow> (Inl es, None) | Inr s \<Rightarrow> (Inr s, Some s)))"

section \<open>When the settings load\<close>

lemma errors_of_with_field: "errors_of (with_field r x) = errors_of r @ errors_of x"
  by (auto simp: with_field_def errors_of_def split: sum.splits)

lemma with_field_Inr: "with_field r x = Inr y \<longleftrightarrow> (\<exists>f v. r = Inr f \<and> x = Inr v \<and> y = f v)"
  by (auto simp: with_field_def split: sum.splits)

lemma errors_of_Inr [simp]: "errors_of (Inr v) = []"
  by (simp add: errors_of_def)

lemma errors_of_field:
  "errors_of (read_field values parse name dflt) =
     (case values name of
        None \<Rightarrow> if dflt = None then [Missing name] else []
      | Some t \<Rightarrow> if parse t = None then [Unparsable name] else [])"
  by (auto simp: errors_of_def read_field_def split: option.splits)

lemma with_field_Inl: "with_field r x = Inl es \<Longrightarrow> es = errors_of (with_field r x)"
  by (simp add: errors_of_def)

text \<open>
  What is wrong with an environment, in the order of the fields: the required variables that are not
  there, and the numbers and truth values that do not parse.
\<close>

definition field_problems :: "(string \<Rightarrow> string option) \<Rightarrow> (string \<times> bool \<times> (string \<Rightarrow> bool)) list \<Rightarrow> settings_error list" where
  "field_problems values specs =
     concat (map (\<lambda>(name, required, fails).
       case values name of None \<Rightarrow> if required then [Missing name] else []
       | Some t \<Rightarrow> if fails t then [Unparsable name] else []) specs)"

definition aggregation_fields :: "parsers \<Rightarrow> (string \<times> bool \<times> (string \<Rightarrow> bool)) list" where
  "aggregation_fields P =
     (let any = (\<lambda>_. False); number = (\<lambda>t. parse_int P t = None) in
      [(''app_host'', False, any), (''app_port'', False, number), (''clickhouse_url'', True, any),
       (''clickhouse_user'', True, any), (''clickhouse_password'', True, any), (''clickhouse_database'', False, any),
       (''postgres_dsn'', True, any), (''aggregation_schedule_minutes'', False, number),
       (''export_schedule_minutes'', False, number), (''minio_endpoint'', True, any), (''minio_access_key'', True, any),
       (''minio_secret_key'', True, any), (''minio_bucket'', False, any),
       (''minio_secure'', False, \<lambda>t. parse_bool P t = None)])"

lemma aggregation_settings_errors:
  "errors_of (load_aggregation_settings P env) = field_problems (env_value env) (aggregation_fields P)"
  by (simp add: load_aggregation_settings_def errors_of_with_field errors_of_field field_problems_def aggregation_fields_def
      Let_def cong: option.case_cong)

text \<open>
  The marketplace has a default for every field: only numbers that do not parse and strange variables of
  the file keep it from starting.
\<close>

definition marketplace_fields :: "parsers \<Rightarrow> (string \<times> bool \<times> (string \<Rightarrow> bool)) list" where
  "marketplace_fields P =
     map (\<lambda>name. (name, False, \<lambda>_. False)) (take 4 settings_fields) @
     map (\<lambda>name. (name, False, \<lambda>t. parse_int P t = None)) (drop 4 settings_fields)"

lemma marketplace_settings_errors:
  "errors_of (load_settings P env file) =
     field_problems (env_or_file env file) (marketplace_fields P) @ extra_variables settings_fields file"
  by (simp add: load_settings_def forbid_extra_def errors_of_with_field errors_of_field field_problems_def
      marketplace_fields_def settings_fields_def Let_def cong: option.case_cong)
    (simp add: errors_of_def)

lemma get_settings_stable:
  assumes "get_settings load env None = (Inr s, cache)"
  shows "get_settings load env' cache = (Inr s, cache)"
  using assms by (auto simp: get_settings_def split: sum.splits)

end
