(* ===== verification/Service_Wiring.thy ===== *)
theory Service_Wiring
  imports Env_Settings Analytics "HOL-Library.Sublist"
begin

text \<open>
  How the services of dz_5 are put together (aggregation-service/app/db.py and the module level of
  main.py, the constructor of ExportService, producer-service/app/main.py): the address of ClickHouse
  that is parsed with \<open>urllib.parse\<close>, the clients that are built from the settings, and the life of the
  aggregation service between the start of its scheduler and the closing of its connections.
\<close>

section \<open>Addresses\<close>

text \<open>
  The part of \<open>urlparse\<close> that the code uses. \<open>bracketed_ok\<close> is its check of an address in brackets, by
  the library for IP addresses.
\<close>

definition ascii_alpha :: "char \<Rightarrow> bool" where
  "ascii_alpha c \<longleftrightarrow> (let n = (of_char c :: nat) in 65 \<le> n \<and> n \<le> 90 \<or> 97 \<le> n \<and> n \<le> 122)"

definition ascii_digit :: "char \<Rightarrow> bool" where
  "ascii_digit c \<longleftrightarrow> (let n = (of_char c :: nat) in 48 \<le> n \<and> n \<le> 57)"

definition scheme_char :: "char \<Rightarrow> bool" where
  "scheme_char c \<longleftrightarrow> ascii_alpha c \<or> ascii_digit c \<or> c \<in> set ''+-.''"

text \<open>Control characters and spaces at the start go, tabs and line ends anywhere.\<close>

definition url_text :: "string \<Rightarrow> string" where
  "url_text url = filter (\<lambda>c. (of_char c :: nat) \<notin> {9, 10, 13}) (dropWhile (\<lambda>c. (of_char c :: nat) \<le> 32) url)"

definition before_char :: "(char \<Rightarrow> bool) \<Rightarrow> string \<Rightarrow> string" where
  "before_char P s = takeWhile (\<lambda>c. \<not> P c) s"

definition after_char :: "(char \<Rightarrow> bool) \<Rightarrow> string \<Rightarrow> string" where
  "after_char P s = drop 1 (dropWhile (\<lambda>c. \<not> P c) s)"

definition without_scheme :: "string \<Rightarrow> string" where
  "without_scheme url =
     (let scheme = before_char (\<lambda>c. c = CHR '':'') url
      in if CHR '':'' \<in> set url \<and> scheme \<noteq> [] \<and> ascii_alpha (hd scheme) \<and> list_all scheme_char scheme
         then after_char (\<lambda>c. c = CHR '':'') url else url)"

definition url_netloc :: "(string \<Rightarrow> bool) \<Rightarrow> string \<Rightarrow> string option" where
  "url_netloc bracketed_ok url =
     (let rest = without_scheme (url_text url)
      in if take 2 rest \<noteq> ''//'' then Some []
         else
           let netloc = before_char (\<lambda>c. c \<in> set ''/?#'') (drop 2 rest) in
           if (CHR ''['' \<in> set netloc) \<noteq> (CHR '']'' \<in> set netloc) then None
           else if CHR ''['' \<in> set netloc \<and>
              \<not> bracketed_ok (before_char (\<lambda>c. c = CHR '']'') (after_char (\<lambda>c. c = CHR ''['') netloc)) then None
           else Some netloc)"

text \<open>\<open>_hostinfo\<close>: what follows the last at sign, cut into host and port.\<close>

definition host_and_port :: "string \<Rightarrow> string \<times> string" where
  "host_and_port netloc =
     (let hostinfo = rev (before_char (\<lambda>c. c = CHR ''@'') (rev netloc))
      in if CHR ''['' \<in> set hostinfo
         then let bracketed = after_char (\<lambda>c. c = CHR ''['') hostinfo
              in (before_char (\<lambda>c. c = CHR '']'') bracketed,
                  after_char (\<lambda>c. c = CHR '':'') (after_char (\<lambda>c. c = CHR '']'') bracketed))
         else (before_char (\<lambda>c. c = CHR '':'') hostinfo, after_char (\<lambda>c. c = CHR '':'') hostinfo))"

text \<open>A host is put in lower case, up to a percent sign; the empty one is \<open>None\<close>.\<close>

definition url_hostname :: "string \<Rightarrow> string option" where
  "url_hostname netloc =
     (let host = fst (host_and_port netloc) in
      if host = [] then None
      else Some (lower_case (before_char (\<lambda>c. c = CHR ''%'') host) @ dropWhile (\<lambda>c. c \<noteq> CHR ''%'') host))"

definition nat_of_digits :: "string \<Rightarrow> nat" where
  "nat_of_digits s = foldl (\<lambda>n c. 10 * n + (of_char c - 48)) 0 s"

text \<open>The port is \<open>None\<close>, a number, or a \<open>ValueError\<close>.\<close>

definition url_port :: "string \<Rightarrow> string + nat option" where
  "url_port netloc =
     (let port = snd (host_and_port netloc) in
      if port = [] then Inr None
      else if \<not> list_all ascii_digit port then Inl ''Port could not be cast to integer value''
      else if 65535 < nat_of_digits port then Inl ''Port out of range 0-65535''
      else Inr (Some (nat_of_digits port)))"

section \<open>Clients\<close>

record clickhouse_client =
  cc_host :: "string option"
  cc_port :: nat
  cc_username :: string
  cc_password :: string
  cc_database :: string

text \<open>\<open>parsed.port or 8123\<close>: no port and port 0 are both falsy.\<close>

definition create_clickhouse_client :: "(string \<Rightarrow> bool) \<Rightarrow> aggregation_settings \<Rightarrow> string + clickhouse_client" where
  "create_clickhouse_client bracketed_ok cfg =
     (case url_netloc bracketed_ok (clickhouse_url cfg) of
        None \<Rightarrow> Inl ''Invalid IPv6 URL''
      | Some netloc \<Rightarrow>
          (case url_port netloc of
             Inl e \<Rightarrow> Inl e
           | Inr port \<Rightarrow>
               Inr \<lparr>cc_host = url_hostname netloc,
                    cc_port = (case port of Some p \<Rightarrow> if p = 0 then 8123 else p | None \<Rightarrow> 8123),
                    cc_username = clickhouse_user cfg, cc_password = clickhouse_password cfg,
                    cc_database = clickhouse_database cfg\<rparr>))"

record postgres_engine =
  pe_dsn :: string
  pe_future :: bool
  pe_pool_pre_ping :: bool

definition create_postgres_engine :: "aggregation_settings \<Rightarrow> postgres_engine" where
  "create_postgres_engine cfg = \<lparr>pe_dsn = postgres_dsn cfg, pe_future = True, pe_pool_pre_ping = True\<rparr>"

record export_client =
  ec_bucket :: string
  ec_endpoint_url :: string
  ec_access_key :: string
  ec_secret_key :: string

definition new_export_service :: "aggregation_settings \<Rightarrow> export_client" where
  "new_export_service cfg =
     \<lparr>ec_bucket = minio_bucket cfg,
      ec_endpoint_url = ''http'' @ (if minio_secure cfg then ''s'' else []) @ ''://'' @ minio_endpoint cfg,
      ec_access_key = minio_access_key cfg, ec_secret_key = minio_secret_key cfg\<rparr>"

section \<open>The application\<close>

record aggregation_app =
  app_settings :: aggregation_settings
  app_clickhouse :: clickhouse_client
  app_postgres :: postgres_engine
  app_export :: export_client
  app_jobs :: "(string \<times> int \<times> job) list"

datatype startup_error = SettingsError "settings_error list" | UrlError string

definition build_app :: "(string \<Rightarrow> bool) \<Rightarrow> parsers \<Rightarrow> environ \<Rightarrow> startup_error + aggregation_app" where
  "build_app bracketed_ok P env =
     (case load_aggregation_settings P env of
        Inl es \<Rightarrow> Inl (SettingsError es)
      | Inr cfg \<Rightarrow>
          (case create_clickhouse_client bracketed_ok cfg of
             Inl e \<Rightarrow> Inl (UrlError e)
           | Inr client \<Rightarrow>
               Inr \<lparr>app_settings = cfg, app_clickhouse = client, app_postgres = create_postgres_engine cfg,
                    app_export = new_export_service cfg,
                    app_jobs = build_scheduler (aggregation_schedule_minutes cfg) (export_schedule_minutes cfg)\<rparr>))"

text \<open>The producer: its publisher over the settings.\<close>

definition build_producer :: "parsers \<Rightarrow> environ \<Rightarrow> 'w \<Rightarrow> settings_error list + ('w, 's) publisher" where
  "build_producer P env w =
     (case load_producer_settings P env of Inl es \<Rightarrow> Inl es | Inr cfg \<Rightarrow> Inr (new_publisher cfg w))"

section \<open>The life of the aggregation service\<close>

text \<open>
  The steps of \<open>lifespan\<close>, of which each may raise; \<open>Serving\<close> is the \<open>yield\<close>, the time in which requests
  are answered. The \<open>finally\<close> block runs when serving ends, with an error or without.
\<close>

datatype life_step = SchedulerStart | Serving | SchedulerShutdown bool | ClickhouseClose | PostgresDispose

fun run_steps :: "(life_step \<Rightarrow> 'w \<Rightarrow> string option \<times> 'w) \<Rightarrow> life_step list \<Rightarrow> 'w \<Rightarrow> (string option \<times> life_step list) \<times> 'w" where
  "run_steps act [] w = ((None, []), w)"
| "run_steps act (x # xs) w =
     (case act x w of
        (Some e, w1) \<Rightarrow> ((Some e, [x]), w1)
      | (None, w1) \<Rightarrow> (case run_steps act xs w1 of ((r, taken), w2) \<Rightarrow> ((r, x # taken), w2)))"

definition lifespan :: "(life_step \<Rightarrow> 'w \<Rightarrow> string option \<times> 'w) \<Rightarrow> 'w \<Rightarrow> (string option \<times> life_step list) \<times> 'w" where
  "lifespan act w =
     (case act SchedulerStart w of
        (Some e, w1) \<Rightarrow> ((Some e, [SchedulerStart]), w1)
      | (None, w1) \<Rightarrow>
          (case act Serving w1 of
             (r, w2) \<Rightarrow>
               (case run_steps act [SchedulerShutdown False, ClickhouseClose, PostgresDispose] w2 of
                  ((Some e, taken), w3) \<Rightarrow> ((Some e, SchedulerStart # Serving # taken), w3)
                | ((None, taken), w3) \<Rightarrow> ((r, SchedulerStart # Serving # taken), w3))))"

definition health :: "(string \<times> string) list" where
  "health = [(''status'', ''ok'')]"

section \<open>Reading an address that was put together\<close>

lemma before_char_append:
  "list_all (\<lambda>c. \<not> P c) s \<Longrightarrow> P d \<Longrightarrow> before_char P (s @ d # t) = s"
  "list_all (\<lambda>c. \<not> P c) s \<Longrightarrow> before_char P s = s"
  by (auto simp: before_char_def list_all_iff)

lemma after_char_append:
  "list_all (\<lambda>c. \<not> P c) s \<Longrightarrow> P d \<Longrightarrow> after_char P (s @ d # t) = t"
  "list_all (\<lambda>c. \<not> P c) s \<Longrightarrow> after_char P s = []"
  by (simp_all add: after_char_def list_all_iff dropWhile_eq_Nil_conv [THEN iffD2])

lemma nat_of_digits_snoc: "nat_of_digits (s @ [c]) = 10 * nat_of_digits s + (of_char c - 48)"
  by (simp add: nat_of_digits_def)

lemma digits_of_nat_digits: "list_all ascii_digit (digits_of_nat n) \<and> nat_of_digits (digits_of_nat n) = n \<and> digits_of_nat n \<noteq> []"
proof (induction n rule: digits_of_nat.induct)
  case (1 n)
  have digit: "ascii_digit (char_of (48 + k)) \<and> of_char (char_of (48 + k) :: char) - 48 = k" if "k < 10" for k :: nat
    using that by (simp add: ascii_digit_def)
  show ?case
  proof (cases "n < 10")
    case True
    with digit [OF True] show ?thesis by (subst digits_of_nat.simps) (simp add: nat_of_digits_def digits_of_nat.simps)
  next
    case False
    have "n mod 10 < 10" by simp
    from 1 [OF False] digit [OF this] False show ?thesis
      by (simp add: digits_of_nat.simps [of n] nat_of_digits_snoc)
  qed
qed

text \<open>Names of hosts, and what may stand before the at sign.\<close>

definition host_char :: "char \<Rightarrow> bool" where
  "host_char c \<longleftrightarrow> ascii_alpha c \<or> ascii_digit c \<or> c \<in> set ''.-_''"

definition credential_char :: "char \<Rightarrow> bool" where
  "credential_char c \<longleftrightarrow> 32 < (of_char c :: nat) \<and> c \<notin> set ''/?#[]''"

definition user_part :: "string option \<Rightarrow> string" where
  "user_part cred = (case cred of None \<Rightarrow> [] | Some c \<Rightarrow> c @ ''@'')"

definition port_part :: "nat option \<Rightarrow> string" where
  "port_part port = (case port of None \<Rightarrow> [] | Some p \<Rightarrow> '':'' @ digits_of_nat p)"

lemma host_char_not: "host_char c \<Longrightarrow> c \<notin> set ''/?#[]@:%'' \<and> 32 < (of_char c :: nat)"
  by (auto simp: host_char_def ascii_alpha_def ascii_digit_def Let_def)

lemma scheme_char_not: "scheme_char c \<Longrightarrow> c \<noteq> CHR '':'' \<and> 32 < (of_char c :: nat)"
  by (auto simp: scheme_char_def ascii_alpha_def ascii_digit_def Let_def)

lemma ascii_digit_not: "ascii_digit c \<Longrightarrow> c \<notin> set ''/?#[]@:%'' \<and> 32 < (of_char c :: nat)"
  by (auto simp: ascii_digit_def Let_def)

lemma port_part_chars: "c \<in> set (port_part port) \<Longrightarrow> c = CHR '':'' \<or> ascii_digit c"
  using digits_of_nat_digits by (auto simp: port_part_def list_all_iff split: option.splits)

definition path_part :: "string \<Rightarrow> bool" where
  "path_part path \<longleftrightarrow> path = [] \<or> hd path \<in> set ''/?#''"

lemma url_text_plain:
  assumes "s \<noteq> []" and "list_all (\<lambda>c. 32 < (of_char c :: nat)) s" and "path_part path"
  obtains path' where "url_text (s @ path) = s @ path'" and "path_part path'"
proof
  let ?keep = "filter (\<lambda>c. (of_char c :: nat) \<notin> {9, 10, 13})"
  obtain a s' where s: "s = a # s'" using assms(1) by (cases s) auto
  with assms(2) have "dropWhile (\<lambda>c. (of_char c :: nat) \<le> 32) (s @ path) = s @ path" by simp
  moreover have "?keep s = s"
    using assms(2) by (intro filter_True) (auto simp: list_all_iff)
  ultimately show "url_text (s @ path) = s @ ?keep path" by (simp add: url_text_def)
  show "path_part (?keep path)"
    using assms(3) by (cases path) (auto simp: path_part_def)
qed

lemma url_netloc_of:
  assumes "scheme \<noteq> []" and "ascii_alpha (hd scheme)" and "list_all scheme_char scheme"
    and "list_all (\<lambda>c. credential_char c) netloc" and "path_part path"
  shows "url_netloc bracketed_ok (scheme @ ''://'' @ netloc @ path) = Some netloc"
proof -
  have "list_all (\<lambda>c. 32 < (of_char c :: nat)) (scheme @ ''://'' @ netloc)"
    using assms(3,4) scheme_char_not by (auto simp: list_all_iff credential_char_def)
  then obtain path' where url: "url_text (scheme @ ''://'' @ netloc @ path) = scheme @ ''://'' @ netloc @ path'" "path_part path'"
    using url_text_plain [of "scheme @ ''://'' @ netloc" path] assms(5) by auto
  have colon: "list_all (\<lambda>c. c \<noteq> CHR '':'') scheme"
    using assms(3) scheme_char_not by (auto simp: list_all_iff)
  have "without_scheme (scheme @ CHR '':'' # x) = x" for x
    using assms(1-3) before_char_append(1) [OF colon] after_char_append(1) [OF colon]
    by (simp add: without_scheme_def)
  then have rest: "without_scheme (scheme @ ''://'' @ netloc @ path') = ''//'' @ netloc @ path'" by simp
  have chars: "list_all (\<lambda>c. c \<notin> set ''/?#'') netloc"
    using assms(4) by (auto simp: list_all_iff credential_char_def)
  have "before_char (\<lambda>c. c \<in> set ''/?#'') (netloc @ path') = netloc"
  proof (cases path')
    case Nil
    then show ?thesis using before_char_append(2) [OF chars] by simp
  next
    case (Cons d t)
    with url(2) have "d \<in> set ''/?#''" by (simp add: path_part_def)
    then show ?thesis using before_char_append(1) [OF chars] Cons by simp
  qed
  moreover have "CHR ''['' \<notin> set netloc" "CHR '']'' \<notin> set netloc"
    using assms(4) by (auto simp: list_all_iff credential_char_def)
  ultimately show ?thesis
    unfolding url_netloc_def url(1) rest Let_def by simp
qed

lemma host_and_port_of:
  assumes "list_all host_char host"
  shows "host_and_port (user_part cred @ host @ port_part port) =
    (host, case port of None \<Rightarrow> [] | Some p \<Rightarrow> digits_of_nat p)"
proof -
  have h: "c \<noteq> CHR '':''" "c \<noteq> CHR ''@''" "c \<noteq> CHR ''[''" if "c \<in> set host" for c
    using that assms host_char_not [of c] by (auto simp: list_all_iff)
  have d: "c \<noteq> CHR ''@''" "c \<noteq> CHR ''[''" if "c \<in> set (port_part port)" for c
    using port_part_chars [OF that] ascii_digit_not [of c] by auto
  have "before_char (\<lambda>c. c = CHR ''@'') (rev (user_part cred @ host @ port_part port)) = rev (host @ port_part port)"
  proof (cases cred)
    case None
    show ?thesis using h d before_char_append(2) [of "\<lambda>c. c = CHR ''@''" "rev (host @ port_part port)"]
      by (auto simp: None user_part_def list_all_iff)
  next
    case (Some u)
    show ?thesis
      using h d before_char_append(1) [of "\<lambda>c. c = CHR ''@''" "rev (host @ port_part port)" "CHR ''@''" "rev u"]
      by (auto simp: Some user_part_def list_all_iff)
  qed
  moreover have "CHR ''['' \<notin> set (host @ port_part port)" using h(3) d(2) unfolding set_append by blast
  moreover have "before_char (\<lambda>c. c = CHR '':'') (host @ port_part port) = host"
      "after_char (\<lambda>c. c = CHR '':'') (host @ port_part port) = (case port of None \<Rightarrow> [] | Some p \<Rightarrow> digits_of_nat p)"
  proof -
    have colon: "list_all (\<lambda>c. c \<noteq> CHR '':'') host" using h by (auto simp: list_all_iff)
    show "before_char (\<lambda>c. c = CHR '':'') (host @ port_part port) = host"
      using before_char_append [OF colon] by (cases port) (simp_all add: port_part_def)
    show "after_char (\<lambda>c. c = CHR '':'') (host @ port_part port) = (case port of None \<Rightarrow> [] | Some p \<Rightarrow> digits_of_nat p)"
      using after_char_append [OF colon] by (cases port) (simp_all add: port_part_def)
  qed
  ultimately show ?thesis by (simp add: host_and_port_def Let_def)
qed

lemma url_parts_of:
  assumes "list_all host_char host" and "host \<noteq> []"
  shows "url_hostname (user_part cred @ host @ port_part port) = Some (lower_case host)"
    and "url_port (user_part cred @ host @ port_part port) =
      (case port of None \<Rightarrow> Inr None | Some p \<Rightarrow> if 65535 < p then Inl ''Port out of range 0-65535'' else Inr (Some p))"
proof -
  have "list_all (\<lambda>c. c \<noteq> CHR ''%'') host"
    using assms(1) host_char_not by (auto simp: list_all_iff)
  then have "before_char (\<lambda>c. c = CHR ''%'') host = host" "dropWhile (\<lambda>c. c \<noteq> CHR ''%'') host = []"
    by (simp_all add: before_char_append(2)) (simp add: list_all_iff dropWhile_eq_Nil_conv)
  then show "url_hostname (user_part cred @ host @ port_part port) = Some (lower_case host)"
    using assms(2) by (simp add: url_hostname_def host_and_port_of [OF assms(1)])
  show "url_port (user_part cred @ host @ port_part port) =
      (case port of None \<Rightarrow> Inr None | Some p \<Rightarrow> if 65535 < p then Inl ''Port out of range 0-65535'' else Inr (Some p))"
    using digits_of_nat_digits by (simp add: url_port_def host_and_port_of [OF assms(1)] split: option.splits)
qed

text \<open>
  C28: The client of ClickHouse connects to the host and port that its address names: for an address of
  a scheme, a host, and optionally a user, a port and a path, it is the host in lower case and the port,
  or 8123 where there is none or it is 0, with the user, password and database of the settings; a port
  that no port can be is an error before anything is connected.
\<close>

theorem clickhouse_address:
  assumes "clickhouse_url cfg = scheme @ ''://'' @ user_part cred @ host @ port_part port @ path"
    and "scheme \<noteq> []" and "ascii_alpha (hd scheme)" and "list_all scheme_char scheme"
    and "case cred of None \<Rightarrow> True | Some c \<Rightarrow> list_all credential_char c"
    and "host \<noteq> []" and "list_all host_char host" and "path = [] \<or> hd path \<in> set ''/?#''"
  shows "create_clickhouse_client bracketed_ok cfg =
    (if (case port of None \<Rightarrow> False | Some p \<Rightarrow> 65535 < p) then Inl ''Port out of range 0-65535''
     else Inr \<lparr>cc_host = Some (lower_case host), cc_port = (if port \<in> {None, Some 0} then 8123 else the port),
            cc_username = clickhouse_user cfg, cc_password = clickhouse_password cfg,
            cc_database = clickhouse_database cfg\<rparr>)"
proof -
  let ?netloc = "user_part cred @ host @ port_part port"
  have "credential_char c" if "host_char c \<or> ascii_digit c \<or> c = CHR '':'' \<or> c = CHR ''@''" for c
    using that host_char_not [of c] ascii_digit_not [of c] by (auto simp: credential_char_def)
  then have "list_all (\<lambda>c. credential_char c) ?netloc"
    using assms(5,7) port_part_chars [of _ port] by (auto simp: list_all_iff user_part_def split: option.splits)
  then have "url_netloc bracketed_ok (scheme @ ''://'' @ ?netloc @ path) = Some ?netloc"
    using assms(2-4,8) by (intro url_netloc_of) (simp_all add: path_part_def)
  then have "url_netloc bracketed_ok (clickhouse_url cfg) = Some ?netloc" by (simp add: assms(1))
  then show ?thesis
    using url_parts_of [OF assms(7,6), of cred port]
    by (auto simp: create_clickhouse_client_def split: option.splits)
qed

definition sample_aggregation_settings :: "string \<Rightarrow> aggregation_settings" where
  "sample_aggregation_settings url =
     \<lparr>as_app_host = ''0.0.0.0'', as_app_port = 8001, clickhouse_url = url, clickhouse_user = ''analytics'',
      clickhouse_password = ''analytics'', clickhouse_database = ''movie_analytics'', postgres_dsn = ''postgresql://postgres/movies'',
      aggregation_schedule_minutes = 5, export_schedule_minutes = 10, minio_endpoint = ''minio:9000'',
      minio_access_key = ''minio'', minio_secret_key = ''secret'', minio_bucket = ''movie-analytics'', minio_secure = False\<rparr>"

theorem clickhouse_address_witness:
  "create_clickhouse_client (\<lambda>_. False) (sample_aggregation_settings ''http://reader:pw@ClickHouse:9123/movies'') =
     Inr \<lparr>cc_host = Some ''clickhouse'', cc_port = 9123, cc_username = ''analytics'', cc_password = ''analytics'',
          cc_database = ''movie_analytics''\<rparr>"
proof -
  let ?cfg = "sample_aggregation_settings ''http://reader:pw@ClickHouse:9123/movies''"
  have url: "clickhouse_url ?cfg = ''http'' @ ''://'' @ user_part (Some ''reader:pw'') @ ''ClickHouse'' @ port_part (Some 9123) @ ''/movies''"
    by (simp add: sample_aggregation_settings_def user_part_def port_part_def digits_of_nat.simps) code_simp
  have parts: "''http'' \<noteq> []" "ascii_alpha (hd ''http'')" "list_all scheme_char ''http''"
      "case Some ''reader:pw'' of None \<Rightarrow> True | Some c \<Rightarrow> list_all credential_char c"
      "''ClickHouse'' \<noteq> []" "list_all host_char ''ClickHouse''" "''/movies'' = [] \<or> hd ''/movies'' \<in> set ''/?#''"
    by (simp_all add: ascii_alpha_def scheme_char_def credential_char_def host_char_def ascii_digit_def)
  have "lower_case ''ClickHouse'' = ''clickhouse''" by code_simp
  with clickhouse_address [OF url parts, of "\<lambda>_. False"] show ?thesis
    by (simp add: sample_aggregation_settings_def)
qed

text \<open>
  The scheme plays no part: an address that asks for TLS is contacted like any other, on the port for
  plain HTTP when it names none.
\<close>

lemma scheme_ignored:
  assumes "list_all credential_char netloc"
  shows "create_clickhouse_client bracketed_ok (cfg\<lparr>clickhouse_url := ''https'' @ ''://'' @ netloc\<rparr>) =
    create_clickhouse_client bracketed_ok (cfg\<lparr>clickhouse_url := ''http'' @ ''://'' @ netloc\<rparr>)"
proof -
  have "url_netloc bracketed_ok (scheme @ ''://'' @ netloc @ []) = Some netloc" if "scheme \<in> {''http'', ''https''}" for scheme
    using that assms by (intro url_netloc_of) (auto simp: ascii_alpha_def scheme_char_def path_part_def)
  from this [of "''http''"] this [of "''https''"] show ?thesis by (simp add: create_clickhouse_client_def cong: sum.case_cong)
qed

section \<open>Starting and stopping\<close>

lemma build_app_problems:
  "build_app bracketed_ok P env = Inl (SettingsError es) \<Longrightarrow>
     es = field_problems (env_value env) (aggregation_fields P)"
  using aggregation_settings_errors [of P env]
  by (auto simp: build_app_def errors_of_def split: sum.splits)

lemma build_app_jobs:
  "build_app bracketed_ok P env = Inr app \<Longrightarrow>
     map (\<lambda>(name, minutes, j). (name, minutes)) (app_jobs app) =
       [(''aggregate-latest'', aggregation_schedule_minutes (app_settings app)),
        (''export-latest'', export_schedule_minutes (app_settings app))]"
  by (auto simp: build_app_def build_scheduler_def split: sum.splits)

text \<open>
  Once the scheduler has started, it is shut down, whatever happened while serving; when no step of the
  end raises, both connections are closed after it and the error of serving is the one that is raised.
\<close>

lemma run_steps_prefix:
  "run_steps act xs w = ((r, steps), w') \<Longrightarrow> prefix steps xs \<and> (xs \<noteq> [] \<longrightarrow> steps \<noteq> [])"
  by (induction act xs w arbitrary: r steps w' rule: run_steps.induct) (auto split: prod.splits option.splits)

lemma run_steps_all:
  "run_steps act xs w = ((r, steps), w') \<Longrightarrow> (\<And>x v. x \<in> set xs \<Longrightarrow> fst (act x v) = None) \<Longrightarrow> steps = xs \<and> r = None"
proof (induction xs arbitrary: w steps)
  case (Cons x xs)
  obtain w1 where x: "act x w = (None, w1)"
    using Cons.prems(2) [of x w] by (cases "act x w") simp
  obtain steps' where "run_steps act xs w1 = ((r, steps'), w')" "steps = x # steps'"
    using Cons.prems(1) x by (auto split: prod.splits)
  with Cons.IH [of w1 steps'] Cons.prems(2) show ?case by simp
qed simp

lemma lifespan_ends:
  assumes "lifespan act w = ((r, steps), w')" and "fst (act SchedulerStart w) = None"
  shows "\<exists>ended. steps = [SchedulerStart, Serving, SchedulerShutdown False] @ ended \<and>
      prefix ended [ClickhouseClose, PostgresDispose]"
    and "(\<And>x v. x \<in> {SchedulerShutdown False, ClickhouseClose, PostgresDispose} \<Longrightarrow> fst (act x v) = None) \<Longrightarrow>
      steps = [SchedulerStart, Serving, SchedulerShutdown False, ClickhouseClose, PostgresDispose] \<and>
      r = fst (act Serving (snd (act SchedulerStart w)))"
proof -
  let ?xs = "[SchedulerShutdown False, ClickhouseClose, PostgresDispose]"
  obtain w1 where start: "act SchedulerStart w = (None, w1)"
    using assms(2) by (cases "act SchedulerStart w") simp
  obtain r1 w2 where serving: "act Serving w1 = (r1, w2)" by force
  obtain r2 ended w3 where teardown: "run_steps act ?xs w2 = ((r2, ended), w3)" by (metis surj_pair)
  have steps: "steps = SchedulerStart # Serving # ended" "r = (case r2 of Some e \<Rightarrow> Some e | None \<Rightarrow> r1)"
    using assms(1) start serving teardown by (auto simp: lifespan_def split: option.splits)
  show "\<exists>ended. steps = [SchedulerStart, Serving, SchedulerShutdown False] @ ended \<and>
      prefix ended [ClickhouseClose, PostgresDispose]"
    using run_steps_prefix [OF teardown] steps(1) by (cases ended) auto
  show "steps = [SchedulerStart, Serving, SchedulerShutdown False, ClickhouseClose, PostgresDispose] \<and>
      r = fst (act Serving (snd (act SchedulerStart w)))"
    if "\<And>x v. x \<in> {SchedulerShutdown False, ClickhouseClose, PostgresDispose} \<Longrightarrow> fst (act x v) = None"
    using run_steps_all [OF teardown] that steps start serving by simp
qed

end
