(* ===== verification/Pipeline_Test.thy ===== *)
theory Pipeline_Test
  imports Pipeline Service_Wiring
begin

text \<open>
  The test of the running pipeline (dz_5/tests/test_pipeline.py): it posts one event to the producer and
  asks ClickHouse for it every two seconds until it is there or a minute is over. Its loop ends only
  because time passes, so whether it returns is part of what is shown. The libraries it calls (the HTTP
  client, the client of ClickHouse, the clock, the reading of integers) are parameters.
\<close>

section \<open>Environment and libraries\<close>

record test_env =
  te_producer_url :: string
  te_clickhouse_url :: string
  te_user :: string
  te_password :: string
  te_database :: string

text \<open>
  What the test raises: \<open>KeyError\<close> of the environment or of the answer, \<open>IndexError\<close> and \<open>ValueError\<close> of
  the address, \<open>HTTPError\<close> of a status, \<open>AssertionError\<close>, and the exceptions of the clients.
\<close>

datatype test_error = KeyError string | IndexError | ValueError | HTTPError int | JSONDecodeError | AssertionError string | Raised pipeline_error

record test_payload =
  tp_event_id :: uuid
  tp_user_id :: string
  tp_movie_id :: string
  tp_event_type :: string
  tp_timestamp :: string
  tp_device_type :: string
  tp_session_id :: string
  tp_progress_seconds :: int

text \<open>An answer has a status and, when its body is a JSON object, the texts in it by their names.\<close>

record http_answer =
  ha_status :: int
  ha_json :: "(string \<Rightarrow> string option) option"

record test_client =
  tc_host :: string
  tc_port :: int
  tc_username :: string
  tc_password :: string
  tc_database :: string

text \<open>\<open>get_client\<close> connects to the server; \<open>read_table\<close> is the table of the events when a query reads it.\<close>

record 'w test_library =
  uuid4 :: "'w \<Rightarrow> uuid \<times> 'w"
  utc_now :: "'w \<Rightarrow> instant \<times> 'w"
  isoformat :: "instant \<Rightarrow> string"
  py_int :: "string \<Rightarrow> int option"
  requests_post :: "string \<Rightarrow> test_payload \<Rightarrow> ('w, http_answer) action"
  time_time :: "'w \<Rightarrow> rat \<times> 'w"
  time_sleep :: "rat \<Rightarrow> 'w \<Rightarrow> 'w"
  get_client :: "test_client \<Rightarrow> ('w, unit) action"
  read_table :: "test_client \<Rightarrow> ('w, event_row list) action"

fun required :: "(string \<Rightarrow> string option) \<Rightarrow> string \<Rightarrow> test_error + string" where
  "required getenv name = (case getenv name of None \<Rightarrow> Inl (KeyError name) | Some v \<Rightarrow> Inr v)"

definition load_test_env :: "(string \<Rightarrow> string option) \<Rightarrow> test_error + test_env" where
  "load_test_env getenv =
     (case required getenv ''PRODUCER_URL'' of Inl e \<Rightarrow> Inl e | Inr producer \<Rightarrow>
      (case required getenv ''CLICKHOUSE_URL'' of Inl e \<Rightarrow> Inl e | Inr url \<Rightarrow>
      (case required getenv ''CLICKHOUSE_USER'' of Inl e \<Rightarrow> Inl e | Inr usr \<Rightarrow>
      (case required getenv ''CLICKHOUSE_PASSWORD'' of Inl e \<Rightarrow> Inl e | Inr pw \<Rightarrow>
      (case required getenv ''CLICKHOUSE_DATABASE'' of Inl e \<Rightarrow> Inl e | Inr db \<Rightarrow>
         Inr \<lparr>te_producer_url = producer, te_clickhouse_url = url, te_user = usr, te_password = pw, te_database = db\<rparr>)))))"

section \<open>The client of ClickHouse\<close>

text \<open>\<open>replace(p, "")\<close>, \<open>split(c)[0]\<close>, and \<open>rsplit(c, maxsplit=1)[1]\<close>, which is missing without a \<open>c\<close>.\<close>

fun remove_all :: "string \<Rightarrow> string \<Rightarrow> string" where
  "remove_all p [] = []"
| "remove_all p (c # cs) = (if p \<noteq> [] \<and> prefix p (c # cs) then remove_all p (drop (length p - 1) cs) else c # remove_all p cs)"

definition first_part :: "char \<Rightarrow> string \<Rightarrow> string" where
  "first_part c s = takeWhile (\<lambda>x. x \<noteq> c) s"

definition last_part :: "char \<Rightarrow> string \<Rightarrow> string option" where
  "last_part c s = (if c \<in> set s then Some (rev (takeWhile (\<lambda>x. x \<noteq> c) (rev s))) else None)"

definition test_clickhouse_client :: "(string \<Rightarrow> int option) \<Rightarrow> test_env \<Rightarrow> test_error + test_client" where
  "test_clickhouse_client int_of env =
     (let host = first_part (CHR '':'') (remove_all ''http://'' (te_clickhouse_url env)) in
      case last_part (CHR '':'') (te_clickhouse_url env) of
        None \<Rightarrow> Inl IndexError
      | Some t \<Rightarrow>
          (case int_of t of
             None \<Rightarrow> Inl ValueError
           | Some port \<Rightarrow>
               Inr \<lparr>tc_host = host, tc_port = port, tc_username = te_user env, tc_password = te_password env,
                    tc_database = te_database env\<rparr>))"

section \<open>The test\<close>

definition new_payload :: "uuid \<Rightarrow> string \<Rightarrow> test_payload" where
  "new_payload eid now =
     \<lparr>tp_event_id = eid, tp_user_id = ''integration-user'', tp_movie_id = ''integration-movie'',
      tp_event_type = ''VIEW_FINISHED'', tp_timestamp = now, tp_device_type = ''DESKTOP'',
      tp_session_id = ''test-session-'' @ eid, tp_progress_seconds = 3210\<rparr>"

text \<open>\<open>raise_for_status\<close> raises for client and server errors.\<close>

definition check_answer :: "uuid \<Rightarrow> http_answer \<Rightarrow> test_error + unit" where
  "check_answer eid answer =
     (if 400 \<le> ha_status answer \<and> ha_status answer < 600 then Inl (HTTPError (ha_status answer))
      else
        case ha_json answer of
          None \<Rightarrow> Inl JSONDecodeError
        | Some body \<Rightarrow>
            (case body ''event_id'' of
               None \<Rightarrow> Inl (KeyError ''event_id'')
             | Some v \<Rightarrow> if v = eid then Inr () else Inl (AssertionError ''event_id'')))"

definition event_query :: "uuid \<Rightarrow> event_row list \<Rightarrow> (uuid \<times> string \<times> string \<times> string \<times> int option) list" where
  "event_query eid es =
     map (\<lambda>e. (er_event_id e, er_user_id e, er_movie_id e, er_event_type e, er_progress_seconds e))
       (filter (\<lambda>e. er_event_id e = eid) es)"

definition check_row :: "test_payload \<Rightarrow> uuid \<times> string \<times> string \<times> string \<times> int option \<Rightarrow> test_error + unit" where
  "check_row payload row =
     (case row of
        (_, usr, movie, ty, progress) \<Rightarrow>
          if usr \<noteq> tp_user_id payload then Inl (AssertionError ''user_id'')
          else if movie \<noteq> tp_movie_id payload then Inl (AssertionError ''movie_id'')
          else if ty \<noteq> tp_event_type payload then Inl (AssertionError ''event_type'')
          else if progress \<noteq> Some (tp_progress_seconds payload) then Inl (AssertionError ''progress_seconds'')
          else Inr ())"

definition not_arrived :: test_error where
  "not_arrived = AssertionError ''Event did not arrive in ClickHouse within 60 seconds''"

text \<open>The loop; \<open>None\<close> is a loop that does not end.\<close>

partial_function (option) wait_for_event ::
  "'w test_library \<Rightarrow> test_client \<Rightarrow> test_payload \<Rightarrow> rat \<Rightarrow> 'w \<Rightarrow> ((test_error + unit) \<times> 'w) option" where
  "wait_for_event T client payload deadline w =
     (case time_time T w of
        (now, w1) \<Rightarrow>
          if now < deadline
          then
            (case read_table T client w1 of
               (Inl e, w2) \<Rightarrow> Some (Inl (Raised e), w2)
             | (Inr es, w2) \<Rightarrow>
                 (case event_query (tp_event_id payload) es of
                    row # _ \<Rightarrow> Some (check_row payload row, w2)
                  | [] \<Rightarrow> wait_for_event T client payload deadline (time_sleep T 2 w2)))
          else Some (Inl not_arrived, w1))"

text \<open>What comes before the loop: the posting, the client, and the deadline.\<close>

definition post_event :: "'w test_library \<Rightarrow> test_env \<Rightarrow> 'w \<Rightarrow> (test_error + test_payload \<times> test_client \<times> rat) \<times> 'w" where
  "post_event T env w =
     (case uuid4 T w of
        (eid, w1) \<Rightarrow>
          (case utc_now T w1 of
             (now, w2) \<Rightarrow>
               (let payload = new_payload eid (isoformat T now) in
                case requests_post T (te_producer_url env @ ''/events'') payload w2 of
                  (Inl e, w3) \<Rightarrow> (Inl (Raised e), w3)
                | (Inr answer, w3) \<Rightarrow>
                    (case check_answer eid answer of
                       Inl e \<Rightarrow> (Inl e, w3)
                     | Inr _ \<Rightarrow>
                         (case test_clickhouse_client (py_int T) env of
                            Inl e \<Rightarrow> (Inl e, w3)
                          | Inr client \<Rightarrow>
                              (case get_client T client w3 of
                                 (Inl e, w4) \<Rightarrow> (Inl (Raised e), w4)
                               | (Inr _, w4) \<Rightarrow> (case time_time T w4 of (t, w5) \<Rightarrow> (Inr (payload, client, t + 60), w5))))))))"

definition event_flows_test :: "'w test_library \<Rightarrow> test_env \<Rightarrow> 'w \<Rightarrow> ((test_error + unit) \<times> 'w) option" where
  "event_flows_test T env w =
     (case post_event T env w of
        (Inl e, w') \<Rightarrow> Some (Inl e, w')
      | (Inr (payload, client, deadline), w') \<Rightarrow> wait_for_event T client payload deadline w')"

section \<open>The loop ends\<close>

text \<open>
  The clock of a world, as long as nobody sets it back: reading it tells it, a query does not turn it back,
  and sleeping takes at least as long as asked for. Python promises this of \<open>time.monotonic\<close>, and of
  \<open>time.time\<close>, which the test uses, only as long as the clock of the system is not adjusted.
\<close>

definition steady_clock :: "'w test_library \<Rightarrow> ('w \<Rightarrow> rat) \<Rightarrow> bool" where
  "steady_clock T told \<longleftrightarrow>
     (\<forall>w. fst (time_time T w) = told w \<and> told w \<le> told (snd (time_time T w))) \<and>
     (\<forall>c w. told w \<le> told (snd (read_table T c w))) \<and>
     (\<forall>s w. told w + s \<le> told (time_sleep T s w))"

text \<open>A round of the loop that finds nothing, and the world after some of them.\<close>

definition asked :: "'w test_library \<Rightarrow> test_client \<Rightarrow> 'w \<Rightarrow> (pipeline_error + event_row list) \<times> 'w" where
  "asked T client w = read_table T client (snd (time_time T w))"

definition next_round :: "'w test_library \<Rightarrow> test_client \<Rightarrow> 'w \<Rightarrow> 'w" where
  "next_round T client w = time_sleep T 2 (snd (asked T client w))"

definition round_start :: "'w test_library \<Rightarrow> test_client \<Rightarrow> nat \<Rightarrow> 'w \<Rightarrow> 'w" where
  "round_start T client k w = (next_round T client ^^ k) w"

definition finds_nothing :: "'w test_library \<Rightarrow> test_client \<Rightarrow> test_payload \<Rightarrow> rat \<Rightarrow> 'w \<Rightarrow> bool" where
  "finds_nothing T client payload deadline w \<longleftrightarrow>
     fst (time_time T w) < deadline \<and>
     (case fst (asked T client w) of Inl e \<Rightarrow> False | Inr es \<Rightarrow> event_query (tp_event_id payload) es = [])"

text \<open>What the loop does in a round that is its last.\<close>

definition last_round :: "'w test_library \<Rightarrow> test_client \<Rightarrow> test_payload \<Rightarrow> rat \<Rightarrow> 'w \<Rightarrow> (test_error + unit) \<times> 'w" where
  "last_round T client payload deadline w =
     (if fst (time_time T w) < deadline
      then
        (case asked T client w of
           (Inl e, w') \<Rightarrow> (Inl (Raised e), w')
         | (Inr es, w') \<Rightarrow> (check_row payload (hd (event_query (tp_event_id payload) es)), w'))
      else (Inl not_arrived, snd (time_time T w)))"

lemma wait_for_event_round:
  "wait_for_event T client payload deadline w =
    (if finds_nothing T client payload deadline w
     then wait_for_event T client payload deadline (next_round T client w)
     else Some (last_round T client payload deadline w))"
  by (subst wait_for_event.simps)
    (auto simp: finds_nothing_def next_round_def last_round_def asked_def split: prod.splits sum.splits list.splits)

lemma round_start_simps [simp]:
  "round_start T client 0 w = w"
  "round_start T client (Suc k) w = round_start T client k (next_round T client w)"
  by (simp_all add: round_start_def funpow_Suc_right del: funpow.simps)

lemma round_time:
  assumes "steady_clock T told"
  shows "told w + 2 * of_nat k \<le> told (round_start T client k w)"
proof (induction k arbitrary: w)
  case (Suc k)
  have "told w \<le> told (snd (time_time T w))" using assms by (simp add: steady_clock_def)
  also have "\<dots> \<le> told (snd (asked T client w))" using assms by (simp add: steady_clock_def asked_def)
  finally have "told w + 2 \<le> told (snd (asked T client w)) + 2" by simp
  also have "\<dots> \<le> told (next_round T client w)" using assms by (simp add: steady_clock_def next_round_def)
  finally show ?case using Suc [of "next_round T client w"] by simp
qed simp

lemma wait_for_event_rounds:
  "(\<forall>j<k. finds_nothing T client payload deadline (round_start T client j w)) \<Longrightarrow>
    wait_for_event T client payload deadline w = wait_for_event T client payload deadline (round_start T client k w)"
proof (induction k arbitrary: w)
  case (Suc k)
  then have first: "finds_nothing T client payload deadline w" by force
  have "finds_nothing T client payload deadline (round_start T client j (next_round T client w))" if "j < k" for j
    using Suc.prems [rule_format, of "Suc j"] that by simp
  with Suc.IH [of "next_round T client w"] first show ?case by (simp add: wait_for_event_round [of T client payload deadline w])
qed simp

text \<open>Without a round that does not find nothing, the loop runs on.\<close>

lemma wait_for_event_returns:
  assumes "wait_for_event T client payload deadline w = Some y"
  shows "\<exists>k. \<not> finds_nothing T client payload deadline (round_start T client k w)"
proof (rule wait_for_event.raw_induct [OF _ assms])
  fix wait T client payload deadline w y
  assume IH: "\<And>T client payload deadline w y. wait T client payload deadline w = Some y \<Longrightarrow>
      \<exists>k. \<not> finds_nothing T client payload deadline (round_start T client k w)"
    and body: "(case time_time T w of
       (now, w1) \<Rightarrow>
         if now < deadline
         then case read_table T client w1 of
                (Inl e, w2) \<Rightarrow> Some (Inl (Raised e), w2)
              | (Inr es, w2) \<Rightarrow>
                  case event_query (tp_event_id payload) es of
                    [] \<Rightarrow> wait T client payload deadline (time_sleep T 2 w2)
                  | row # x \<Rightarrow> Some (check_row payload row, w2)
         else Some (Inl not_arrived, w1)) = Some y"
  show "\<exists>k. \<not> finds_nothing T client payload deadline (round_start T client k w)"
  proof (cases "finds_nothing T client payload deadline w")
    case False
    then show ?thesis by (intro exI [of _ 0]) simp
  next
    case True
    then have "wait T client payload deadline (next_round T client w) = Some y"
      using body by (auto simp: finds_nothing_def next_round_def asked_def split: prod.splits sum.splits)
    from IH [OF this] obtain k where
      "\<not> finds_nothing T client payload deadline (round_start T client k (next_round T client w))" by blast
    then show ?thesis by (intro exI [of _ "Suc k"]) simp
  qed
qed

lemma wait_for_event_first:
  assumes "\<forall>j<k. finds_nothing T client payload deadline (round_start T client j w)"
    and "\<not> finds_nothing T client payload deadline (round_start T client k w)"
  shows "wait_for_event T client payload deadline w = Some (last_round T client payload deadline (round_start T client k w))"
  using wait_for_event_rounds [OF assms(1)] assms(2) by (simp add: wait_for_event_round)

section \<open>What the test finds out\<close>

text \<open>The fields of an event as pydantic reads them from the body that is posted.\<close>

definition reads_payload :: "test_payload \<Rightarrow> movie_event \<Rightarrow> bool" where
  "reads_payload p ev \<longleftrightarrow>
     event_id ev = tp_event_id p \<and> user_id ev = tp_user_id p \<and> movie_id ev = tp_movie_id p \<and>
     event_type_value (event_type ev) = tp_event_type p \<and> device_type_value (device_type ev) = tp_device_type p \<and>
     session_id ev = tp_session_id p \<and> progress_seconds ev = Some (tp_progress_seconds p) \<and>
     search_query ev = None \<and> schema_version ev = 1"

lemma accepted_row:
  assumes "reads_payload payload raw" and "movie_event_in raw = Inr ev"
  shows "er_event_id (event_row_of ev) = tp_event_id payload"
    and "event_query (tp_event_id payload) [event_row_of ev] = [row] \<Longrightarrow> check_row payload row = Inr ()"
  using assms
  by (auto simp: reads_payload_def movie_event_in_def validate_payload_def event_row_of_def event_query_def check_row_def Let_def
      split: sum.splits if_splits)

text \<open>Where only the row of the event has its identifier, the query finds it when it is there, and it passes.\<close>

lemma visible_row:
  assumes "reads_payload payload raw" and "movie_event_in raw = Inr ev"
    and "\<forall>e\<in>set es. er_event_id e = tp_event_id payload \<longrightarrow> e = event_row_of ev"
  shows "event_query (tp_event_id payload) es = [] \<longleftrightarrow> event_row_of ev \<notin> set es"
    and "event_row_of ev \<in> set es \<Longrightarrow> check_row payload (hd (event_query (tp_event_id payload) es)) = Inr ()"
proof -
  note row = accepted_row [OF assms(1,2)]
  show empty: "event_query (tp_event_id payload) es = [] \<longleftrightarrow> event_row_of ev \<notin> set es"
    using row(1) assms(3) by (auto simp: event_query_def filter_empty_conv)
  assume "event_row_of ev \<in> set es"
  then obtain e es' where es: "filter (\<lambda>e. er_event_id e = tp_event_id payload) es = e # es'"
    using row(1) by (cases "filter (\<lambda>e. er_event_id e = tp_event_id payload) es") (auto simp: filter_empty_conv)
  then have "e \<in> set (filter (\<lambda>e. er_event_id e = tp_event_id payload) es)" by simp
  then have "e = event_row_of ev" using assms(3) by simp
  with es row show "check_row payload (hd (event_query (tp_event_id payload) es)) = Inr ()"
    by (simp add: event_query_def)
qed

text \<open>An event that the producer accepts is answered with its own identifier, as the test wants it.\<close>

lemma accepted_answer:
  assumes "create_event K ev pub = (Inr resp, pub')" and "ha_json answer = Some (map_of [(''event_id'', resp_event_id resp)])"
    and "ha_status answer = 200"
  shows "check_answer (event_id ev) answer = Inr ()"
  using assms by (auto simp: check_answer_def create_event_def split: prod.splits sum.splits)

lemma post_event_deadline:
  assumes "steady_clock T told" and "post_event T env w = (Inr (payload, client, deadline), w0)"
  shows "deadline \<le> told w0 + 60"
  using assms by (auto simp: post_event_def Let_def steady_clock_def split: prod.splits sum.splits) (metis fst_conv snd_conv add.commute)+

text \<open>
  The address of a host and a port is taken apart into these; one without a port, for which the service
  takes the default, makes the test fail.
\<close>

lemma last_part_append: "c \<notin> set t \<Longrightarrow> last_part c (s @ c # t) = Some t"
proof -
  assume "c \<notin> set t"
  then have "takeWhile (\<lambda>x. x \<noteq> c) (rev t @ c # rev s) = rev t @ takeWhile (\<lambda>x. x \<noteq> c) (c # rev s)"
    by (intro takeWhile_append2) auto
  then show ?thesis by (simp add: last_part_def)
qed

lemma remove_all_absent: "c \<in> set p \<Longrightarrow> c \<notin> set s \<Longrightarrow> remove_all p s = s"
proof (induction s)
  case (Cons a s)
  then have "\<not> prefix p (a # s)" using set_mono_prefix [of p "a # s"] by auto
  with Cons show ?case by simp
qed simp

lemma test_client_address:
  assumes "te_clickhouse_url env = ''http://'' @ host @ '':'' @ digits_of_nat port" and "list_all host_char host"
    and "int_of (digits_of_nat port) = Some (int port)"
  shows "\<exists>client. test_clickhouse_client int_of env = Inr client \<and> tc_host client = host \<and> tc_port client = int port"
proof -
  let ?rest = "host @ '':'' @ digits_of_nat port"
  have digits: "c \<notin> set ''/:''" if "c \<in> set (digits_of_nat port)" for c
    using that digits_of_nat_digits [of port] ascii_digit_not [of c] by (auto simp: list_all_iff)
  have chars: "c \<notin> set ''/:''" if "c \<in> set host" for c
    using that assms(2) host_char_not [of c] by (auto simp: list_all_iff)
  have "CHR ''/'' \<notin> set ?rest" using digits chars by auto
  then have "remove_all ''http://'' ?rest = ?rest" by (intro remove_all_absent [of "CHR ''/''"]) simp_all
  then have "remove_all ''http://'' (te_clickhouse_url env) = ?rest" by (simp add: assms(1))
  moreover have "first_part (CHR '':'') ?rest = host"
  proof -
    have "takeWhile (\<lambda>x. x \<noteq> CHR '':'') ?rest = host @ takeWhile (\<lambda>x. x \<noteq> CHR '':'') ('':'' @ digits_of_nat port)"
      using chars by (intro takeWhile_append2) auto
    then show ?thesis by (simp add: first_part_def)
  qed
  moreover have "last_part (CHR '':'') (te_clickhouse_url env) = Some (digits_of_nat port)"
    using last_part_append [of "CHR '':''" "digits_of_nat port" "''http://'' @ host"] digits by (auto simp: assms(1))
  ultimately show ?thesis using assms(3) by (simp add: test_clickhouse_client_def)
qed

text \<open>What the last round says, where the table holds nothing else under the identifier of the event.\<close>

definition only_row :: "'w test_library \<Rightarrow> test_client \<Rightarrow> test_payload \<Rightarrow> event_row \<Rightarrow> bool" where
  "only_row T client payload row \<longleftrightarrow>
     (\<forall>v es. fst (read_table T client v) = Inr es \<longrightarrow> (\<forall>e\<in>set es. er_event_id e = tp_event_id payload \<longrightarrow> e = row))"

lemma last_round_result:
  assumes "reads_payload payload raw" and "movie_event_in raw = Inr ev" and "only_row T client payload (event_row_of ev)"
    and "\<not> finds_nothing T client payload deadline w"
  shows "fst (last_round T client payload deadline w) =
      (if fst (time_time T w) < deadline
       then case fst (asked T client w) of Inl e \<Rightarrow> Inl (Raised e) | Inr es \<Rightarrow> Inr ()
       else Inl not_arrived)"
    and "fst (time_time T w) < deadline \<Longrightarrow> fst (asked T client w) = Inr es \<Longrightarrow> event_row_of ev \<in> set es"
proof -
  have rows: "(event_query (tp_event_id payload) es = [] \<longleftrightarrow> event_row_of ev \<notin> set es) \<and>
      (event_row_of ev \<in> set es \<longrightarrow> check_row payload (hd (event_query (tp_event_id payload) es)) = Inr ())"
    if "fst (asked T client w) = Inr es" for es
    using visible_row [OF assms(1,2), of es] assms(3) that unfolding only_row_def asked_def by blast
  show "fst (time_time T w) < deadline \<Longrightarrow> fst (asked T client w) = Inr es \<Longrightarrow> event_row_of ev \<in> set es"
    using assms(4) rows by (auto simp: finds_nothing_def)
  show "fst (last_round T client payload deadline w) =
      (if fst (time_time T w) < deadline
       then case fst (asked T client w) of Inl e \<Rightarrow> Inl (Raised e) | Inr es \<Rightarrow> Inr ()
       else Inl not_arrived)"
    using assms(4) rows by (auto simp: last_round_def finds_nothing_def split: prod.splits sum.splits)
qed

lemma finds_nothing_row:
  assumes "reads_payload payload raw" and "movie_event_in raw = Inr ev" and "only_row T client payload (event_row_of ev)"
    and "fst (asked T client w) = Inr es" and "event_row_of ev \<in> set es"
  shows "\<not> finds_nothing T client payload deadline w"
proof -
  have "\<forall>e\<in>set es. er_event_id e = tp_event_id payload \<longrightarrow> e = event_row_of ev"
    using assms(3,4) unfolding only_row_def asked_def by blast
  from visible_row(1) [OF assms(1,2) this] assms(4,5) show ?thesis by (simp add: finds_nothing_def)
qed

lemma steady_rounds:
  assumes "steady_clock T told" and "post_event T env w = (Inr (payload, client, deadline), w0)"
  shows "deadline \<le> fst (time_time T (round_start T client 30 w0))"
  using round_time [OF assms(1), of w0 30 client] post_event_deadline [OF assms] assms(1) by (simp add: steady_clock_def)

text \<open>The loop by its first round that is not without a result.\<close>

lemma first_round:
  assumes "\<not> finds_nothing T client payload deadline (round_start T client k w)"
  obtains k' where "\<not> finds_nothing T client payload deadline (round_start T client k' w)"
    and "\<forall>j<k'. finds_nothing T client payload deadline (round_start T client j w)"
proof -
  have "\<exists>k'. \<not> finds_nothing T client payload deadline (round_start T client k' w) \<and>
      (\<forall>j<k'. \<not> \<not> finds_nothing T client payload deadline (round_start T client j w))"
    using assms by (rule exists_least_iff [THEN iffD1, OF exI])
  with that show thesis by auto
qed

lemma wait_for_event_None:
  "wait_for_event T client payload deadline w = None \<longleftrightarrow>
    (\<forall>k. finds_nothing T client payload deadline (round_start T client k w))"
proof
  assume none: "wait_for_event T client payload deadline w = None"
  show "\<forall>k. finds_nothing T client payload deadline (round_start T client k w)"
  proof (rule ccontr)
    assume "\<not> (\<forall>k. finds_nothing T client payload deadline (round_start T client k w))"
    then obtain i where "\<not> finds_nothing T client payload deadline (round_start T client i w)" by blast
    then obtain k where "\<not> finds_nothing T client payload deadline (round_start T client k w)"
      and "\<forall>j<k. finds_nothing T client payload deadline (round_start T client j w)"
      by (rule first_round)
    with wait_for_event_first [of k T client payload deadline w] none show False by simp
  qed
next
  assume "\<forall>k. finds_nothing T client payload deadline (round_start T client k w)"
  then show "wait_for_event T client payload deadline w = None"
    using wait_for_event_returns [of T client payload deadline w]
    by (cases "wait_for_event T client payload deadline w") auto
qed

lemma wait_for_event_passes:
  assumes ev: "reads_payload payload raw" "movie_event_in raw = Inr ev" "only_row T client payload (event_row_of ev)"
  shows "(\<exists>w'. wait_for_event T client payload deadline w = Some (Inr (), w')) \<longleftrightarrow>
      (\<exists>k. (\<forall>j<k. finds_nothing T client payload deadline (round_start T client j w)) \<and>
         fst (time_time T (round_start T client k w)) < deadline \<and>
         (\<exists>es. fst (asked T client (round_start T client k w)) = Inr es \<and> event_row_of ev \<in> set es))" (is "?passes \<longleftrightarrow> ?found")
    and "wait_for_event T client payload deadline w = Some (Inl e, w') \<Longrightarrow> e = not_arrived \<or> (\<exists>pe. e = Raised pe)"
proof -
  let ?start = "\<lambda>k. round_start T client k w"
  let ?over = "\<lambda>k. \<not> finds_nothing T client payload deadline (?start k)"
  have "(?passes \<longleftrightarrow> ?found) \<and>
      (\<forall>e w'. wait_for_event T client payload deadline w = Some (Inl e, w') \<longrightarrow> e = not_arrived \<or> (\<exists>pe. e = Raised pe))"
  proof (cases "\<exists>k. ?over k")
    case False
    then show ?thesis using wait_for_event_None [of T client payload deadline w] finds_nothing_row [OF ev] by auto
  next
    case True
    then obtain i where "?over i" by blast
    then obtain k where k: "?over k" "\<forall>j<k. finds_nothing T client payload deadline (?start j)" by (rule first_round)
    from k(2,1) have run: "wait_for_event T client payload deadline w = Some (last_round T client payload deadline (?start k))"
      by (rule wait_for_event_first)
    note result = last_round_result [OF ev k(1)]
    have same: "i = k" if "?over i" "\<forall>j<i. finds_nothing T client payload deadline (?start j)" for i
      using that k by (meson linorder_neqE_nat)
    have "?passes \<longleftrightarrow>
        fst (time_time T (?start k)) < deadline \<and> (\<exists>es. fst (asked T client (?start k)) = Inr es \<and> event_row_of ev \<in> set es)"
      using result run by (cases "last_round T client payload deadline (?start k)") (auto split: sum.splits if_splits)
    moreover have "e = not_arrived \<or> (\<exists>pe. e = Raised pe)"
      if "wait_for_event T client payload deadline w = Some (Inl e, w')" for e w'
      using result(1) run that by (cases "last_round T client payload deadline (?start k)") (auto split: sum.splits if_splits)
    ultimately show ?thesis using same k finds_nothing_row [OF ev] by blast
  qed
  then show "?passes \<longleftrightarrow> ?found"
    and "wait_for_event T client payload deadline w = Some (Inl e, w') \<Longrightarrow> e = not_arrived \<or> (\<exists>pe. e = Raised pe)"
    by blast+
qed

text \<open>
  C10: When the post of the event fails, the test fails with its error. Otherwise it asks for the event
  round after round, and returns if and only if there is a round in which the clock has reached the
  deadline, the query fails or it finds a row of the event; the first such round gives the result. If
  nobody sets the clock back meanwhile, there is one after thirty queries at the latest. When what the
  producer makes of the posted event is the only thing that gets into the table under its identifier,
  the test passes exactly when in a round before the deadline, with none of these in an earlier one,
  the row is there, and fails only with the message that the event did not arrive or with the error of a query.
\<close>

theorem pipeline_test_exact:
  "case post_event T env w of
     (Inl e, w0) \<Rightarrow> event_flows_test T env w = Some (Inl e, w0)
   | (Inr (payload, client, deadline), w0) \<Rightarrow>
       let start = (\<lambda>k. round_start T client k w0); over = (\<lambda>k. \<not> finds_nothing T client payload deadline (start k))
       in (event_flows_test T env w = None \<longleftrightarrow> (\<forall>k. \<not> over k)) \<and>
          (\<forall>k. over k \<and> (\<forall>j<k. \<not> over j) \<longrightarrow> event_flows_test T env w = Some (last_round T client payload deadline (start k))) \<and>
          (steady_clock T told \<longrightarrow> deadline \<le> fst (time_time T (start 30)) \<and> (\<exists>k\<le>30. over k)) \<and>
          (\<forall>raw ev. reads_payload payload raw \<and> movie_event_in raw = Inr ev \<and> only_row T client payload (event_row_of ev) \<longrightarrow>
             ((\<exists>w'. event_flows_test T env w = Some (Inr (), w')) \<longleftrightarrow>
                (\<exists>k. (\<forall>j<k. \<not> over j) \<and> fst (time_time T (start k)) < deadline \<and>
                   (\<exists>es. fst (asked T client (start k)) = Inr es \<and> event_row_of ev \<in> set es))) \<and>
             (\<forall>e w'. event_flows_test T env w = Some (Inl e, w') \<longrightarrow> e = not_arrived \<or> (\<exists>pe. e = Raised pe)))"
proof (cases "post_event T env w")
  case (Pair r w0)
  show ?thesis
  proof (cases r)
    case (Inl e)
    with Pair show ?thesis by (simp add: event_flows_test_def)
  next
    case (Inr x)
    then obtain payload client deadline where post: "post_event T env w = (Inr (payload, client, deadline), w0)"
      using Pair by (cases x) auto
    have run: "event_flows_test T env w = wait_for_event T client payload deadline w0" by (simp add: event_flows_test_def post)
    have steady: "deadline \<le> fst (time_time T (round_start T client 30 w0)) \<and>
        (\<exists>k\<le>30. \<not> finds_nothing T client payload deadline (round_start T client k w0))" if "steady_clock T told"
      using steady_rounds [OF that post] by (auto simp: finds_nothing_def intro!: exI [of _ 30])
    show ?thesis
      unfolding post prod.case sum.case Let_def run not_not
    proof (intro conjI allI impI, goal_cases)
      case 1
      show ?case by (rule wait_for_event_None)
    next
      case (2 k)
      from 2 show ?case by (elim conjE, intro wait_for_event_first)
    next
      case 3
      with steady show ?case by blast
    next
      case 4
      with steady show ?case by blast
    next
      case (5 raw ev)
      from 5 show ?case by (elim conjE, intro wait_for_event_passes(1))
    next
      case (6 raw ev e w')
      from 6 show ?case by (elim conjE, intro wait_for_event_passes(2))
    qed
  qed
qed

text \<open>A world that is its clock; the row gets there three seconds after the start.\<close>

definition sample_test_library :: "event_row \<Rightarrow> rat test_library" where
  "sample_test_library row =
     \<lparr>uuid4 = (\<lambda>w. (''e1'', w)), utc_now = (\<lambda>w. (1776800000123456, w)), isoformat = (\<lambda>t. ''2026-04-21T19:33:20.123456+00:00''),
      py_int = (\<lambda>t. if t = ''8123'' then Some 8123 else None),
      requests_post = (\<lambda>url p w. (Inr \<lparr>ha_status = 200, ha_json = Some (map_of [(''event_id'', tp_event_id p)])\<rparr>, w)),
      time_time = (\<lambda>w. (w, w)), time_sleep = (\<lambda>s w. w + s),
      get_client = (\<lambda>client w. (Inr (), w)), read_table = (\<lambda>client w. (Inr (if 3 \<le> w then [row] else []), w))\<rparr>"

definition sample_test_env :: test_env where
  "sample_test_env =
     \<lparr>te_producer_url = ''http://producer:8000'', te_clickhouse_url = ''http://clickhouse:8123'', te_user = ''analytics'',
      te_password = ''analytics'', te_database = ''movie_analytics''\<rparr>"

definition sample_posted :: movie_event where
  "sample_posted =
     \<lparr>event_id = ''e1'', user_id = ''integration-user'', movie_id = ''integration-movie'', event_type = VIEW_FINISHED,
      timestamp = Datetime 1776800000123456 (Some 0), device_type = DESKTOP, session_id = ''test-session-e1'',
      progress_seconds = Some 3210, search_query = None, schema_version = 1\<rparr>"

theorem pipeline_test_exact_witness:
  "\<exists>w'. event_flows_test (sample_test_library (event_row_of sample_posted)) sample_test_env 0 = Some (Inr (), w')"
proof -
  let ?T = "sample_test_library (event_row_of sample_posted)"
  let ?p = "new_payload ''e1'' ''2026-04-21T19:33:20.123456+00:00''"
  let ?c = "\<lparr>tc_host = ''clickhouse'', tc_port = 8123, tc_username = ''analytics'', tc_password = ''analytics'', tc_database = ''movie_analytics''\<rparr>"
  have client: "test_clickhouse_client (py_int ?T) sample_test_env = Inr ?c"
    by (simp add: test_clickhouse_client_def sample_test_env_def sample_test_library_def last_part_def first_part_def)
  have post: "post_event ?T sample_test_env 0 = (Inr (?p, ?c, 60), 0)"
    using client by (simp add: post_event_def check_answer_def Let_def) (simp add: sample_test_library_def check_answer_def new_payload_def)
  have payload: "reads_payload ?p sample_posted" by (simp add: reads_payload_def new_payload_def sample_posted_def)
  have event: "movie_event_in sample_posted = Inr sample_posted" by code_simp
  have table: "only_row ?T ?c ?p (event_row_of sample_posted)"
    by (simp add: only_row_def sample_test_library_def)
  have start: "round_start ?T ?c 0 0 = 0" "round_start ?T ?c (Suc 0) 0 = 2" "round_start ?T ?c 2 0 = 4"
    by (simp_all add: numeral_2_eq_2 next_round_def asked_def sample_test_library_def)
  have "finds_nothing ?T ?c ?p 60 v" if "v < 3" for v :: rat
    using that by (simp add: finds_nothing_def asked_def event_query_def sample_test_library_def)
  then have "\<forall>j<2. finds_nothing ?T ?c ?p 60 (round_start ?T ?c j 0)"
    using start(1,2) by (auto simp: less_2_cases_iff)
  moreover have "fst (time_time ?T 4) < 60" "\<exists>es. fst (asked ?T ?c 4) = Inr es \<and> event_row_of sample_posted \<in> set es"
    by (simp_all add: asked_def sample_test_library_def)
  ultimately have found: "(\<forall>j<2. finds_nothing ?T ?c ?p 60 (round_start ?T ?c j 0)) \<and>
      fst (time_time ?T (round_start ?T ?c 2 0)) < 60 \<and>
      (\<exists>es. fst (asked ?T ?c (round_start ?T ?c 2 0)) = Inr es \<and> event_row_of sample_posted \<in> set es)"
    unfolding start(3) by blast
  from pipeline_test_exact [of ?T sample_test_env 0] payload event table found show ?thesis
    unfolding post prod.case sum.case Let_def by blast
qed

end
