(* ===== verification/Spec2Isabelle.thy ===== *)
theory Spec2Isabelle
  imports Web_App Progress Concurrent_Stock Concurrent_Serial Alembic_Env Users_Sessions Retention_Facts Pipeline_Test
begin

text \<open>
  The Python programs of the repository, and what makes them correct. Three programs are modelled: the
  marketplace of the second homework (its directory has a copy with the same main.py and dependencies.py,
  for which everything said here holds too), the registration service of the first one, and the movie
  analytics pipeline of dz_5, which is a producer service and an aggregation service that meet in Kafka
  and ClickHouse.

  \<^bold>\<open>The marketplace\<close> (app/src). A request goes through the logging middleware, a session is opened, the
  dependencies of its endpoint identify the user and check the role, the payload is checked by classes
  that are generated from the interface description, the handler of main.py works on the session, and an
  exception becomes a response.
  \<^item> Prelude: queries on tables, Python's dictionaries, the interfaces \<open>additive_store\<close> (counters that
    are only added to: requested quantities, stock, uses of a code) and \<open>keyed_table\<close>.
  \<^item> Errors: core/errors.py and the two exception handlers. Models: models/, a record per class and the
    constraints of its columns. Session: core/db.py and the transaction frame of the order handlers, with
    the session of SQLAlchemy as documented (autoflush off): work, flushed and durable state, savepoints.
  \<^item> Security: core/config.py, core/security.py, core/dependencies.py. Auth, Products, Promo, Stock, Orders:
    the handlers of main.py, a function per handler and per step of it, from the session or its data to an
    exception or a result and the data. Order_Lemmas: what each branch of the order handlers does.
  \<^item> Marketplace: requests, the installation (\<open>deployment\<close>), \<open>endpoint\<close> and \<open>serve\<close>. Market_Steps: the
    abstract specification \<open>market_step\<close>, a step relation on the stored data, the refinement of it by
    \<open>serve\<close>, and the states that requests can lead to (\<open>reachable\<close>).
  \<^item> Invariants: the interface \<open>store_invariant\<close>, interpreted in Store_Invariants (roles, statuses, one active
    order), Store_Accounts (stock, uses of codes) and Store_Amounts (money, to a cent). Store_History: the
    interface \<open>store_relation\<close> for what a row keeps over any number of requests. Sample: a small shop, in
    which the witnesses are evaluated.
  \<^item> Market_Properties, Order_Properties, Order_Guards, Account_Properties, Catalog_Properties, Failures:
    the properties of the whole application, of the orders, of their guards, of accounts and tokens, of
    products and codes, and of how requests fail (interface \<open>documented_operation\<close>). Progress: what a
    client can always do, from any reachable state.
  \<^item> Concurrent_Orders: the order handlers, and those that change or archive a product, running at the same
    time, as interleavings of their SQL statements under READ COMMITTED with row locks, writes by changed
    columns at the end, which wait for the locks of others. Interleaving: the interfaces
    \<open>interleaving_invariant\<close> and \<open>interleaving_progress\<close> of runs by a schedule. Concurrent_Stock: no movement of stock
    is lost in any interleaving as long as nobody sets the stock of the product, and none gets negative; an order
    sells products as they are stored when it commits; and three runs in which something that is not locked is
    overtaken: what the properties say of active orders and of the uses of codes holds for requests one after the other. Concurrent_Serial: a transaction that is not
    disturbed does what the handler does.
  \<^item> Request_Log: core/logging.py. Web_App: the whole application over HTTP, the log around the exception
    handlers around the endpoints; its answers against the responses that marketplace.yaml describes.
  \<^item> Env_Settings: the settings from the environment and the file .env (also those of the pipeline).
    Schema_Migrations: the migration of alembic/versions against the mapped classes; also the one of the
    aggregation service. Alembic_Env: both alembic/env.py, which database a migration runs on.

  \<^bold>\<open>The registration service\<close> (auth_service/services/users_auth/app): Users_Auth, app.py, models.py
  and the start of the service (db.py). Users_Sessions: its requests at the same time, statement by
  statement, each in a session of \<open>get_db\<close>; every one ends, and the unique constraint keeps them apart.

  \<^bold>\<open>The movie pipeline\<close> (dz_5).
  \<^item> Floats: rounding to double precision, in which Python computes milliseconds and ClickHouse rates.
  \<^item> Movie_Events: producer-service/app/models.py and schemas/movie-event.avsc. Event_Generator:
    generator.py, with an abstract player (\<open>watch_step\<close>) that says what a session is.
  \<^item> Retry: the interface \<open>tenacity\<close> of the decorator on the operations that talk to other services, and
    \<open>attempts\<close> as its model. Event_Publisher: schema_registry.py, kafka_client.py, main.py.
  \<^item> Metrics_Repository: aggregation-service/app/repository.py; the abstract table is a map and the upsert
    refines one update of it. Aggregation: the statements of aggregation.py on the tables of
    infra/clickhouse; Aggregation_Facts: what they compute. Retention_Facts: the two
    tables of retention as sets of users. Analytics: the run over them, exporter.py,
    scheduler.py, main.py. Analytics_Properties: runs that stop anywhere, the export, the scheduled job.
  \<^item> Service_Wiring: db.py and the module level of main.py of both services: the address of ClickHouse as
    urllib parses it, the clients, the start and the end of the service. Pipeline: both services together,
    from the events that were published to the metrics that are stored. Pipeline_Test:
    tests/test_pipeline.py, whose loop returns if and only if a query fails or finds the row, or the clock reaches the
    deadline: after thirty rounds at most, when nobody sets the clock back (\<open>steady_clock\<close>).

  \<^bold>\<open>Parameters and hypotheses.\<close> Code that is not in the repository is a parameter. What a property assumes of
  it is named: \<open>follows_schema\<close> (the generated classes accept only what the description allows),
  \<open>rounds_to_cents\<close> (a numeric column holds the nearest amount of whole cents), \<open>jwt_roundtrip\<close> and \<open>jwt_integrity\<close> of python-jose, the
  verification of a hashed password, the laws of \<open>tenacity\<close>, the ranges of random numbers
  (\<open>draws_in_range\<close>), that the published events have reached the table of raw events at least once. Routing and the writing of bodies (\<open>web_library\<close>), how a text is read as a number
  or a truth value (\<open>parsers\<close>) and the check of an IP address in brackets are parameters without laws. The
  session of SQLAlchemy, Alembic's operations, \<open>upgrade head\<close> for one revision, the interpolation of
  \<open>ConfigParser\<close>, \<open>urlparse\<close>, \<open>FINAL\<close> and the alias rule of ClickHouse, and \<open>ON CONFLICT\<close>, READ COMMITTED and \<open>FOR UPDATE\<close> of PostgreSQL are
  written down as documented. Every property with a
  hypothesis has a witness in which the parameters are concrete functions.

  \<^bold>\<open>Numbers and bounds.\<close> Python's integers are unbounded and so are those of the model; the columns and the
  schema bound them where they are stored. Decimals are exact rationals, rounded where a column is
  written; floats are rounded operation by operation, except that sums of seconds are exact, as they are
  below \<open>2 ^ 53\<close>. Time stamps are microseconds, dates numbers of days; \<open>datetime\<close> overflows outside the
  years 1 to 9999. All loops are over finite lists, and retries stop after five attempts; the generator
  loop is taken over the rounds it has run. References between options are followed ten deep, as
  \<open>ConfigParser\<close> does. There is no fuel; the one loop that may run on, the waiting of
  the test, is a partial function, of which it is shown when it returns. A \<open>Date\<close> of ClickHouse ends in 2149, the days of the model do not.

  \<^bold>\<open>Not modelled.\<close> Concurrency other than that of the order handlers, the changes of products and the registration service: all
  other requests, runs and jobs happen one after the other, and the results proved for \<open>reachable\<close> states are about requests one after the
  other. Waiting and time-outs, and the breaking of deadlocks; the configuration of logging, and log messages
  other than those of the request log; the triggers of the scheduler; the services written in Go and the
  documents. The second copy of the marketplace is the same text and not modelled again.
\<close>

end
